(* ===== verification/Prelude.thy ===== *)
theory Prelude
  imports Complex_Main "HOL-Library.Sublist"
begin

text \<open>
  Shared vocabulary of the development: results that are an error or a value, the small
  combinators the components are written with, the fact collections their proofs share, and
  generic lemmas on lists that no single component owns.
\<close>

section \<open>Fact collections\<close>

named_theorems py_simps \<open>defining equations of the Python string operations\<close>
named_theorems run_simps \<open>how a state-passing computation runs on a state\<close>
named_theorems frame_simps \<open>fields of the state an operation leaves alone\<close>
named_theorems schema_defs \<open>the bounds the Pydantic schemas declare\<close>

section \<open>Results: an error or a value\<close>

fun is_ok :: "'e + 'a \<Rightarrow> bool" where
  "is_ok (Inl _) = False"
| "is_ok (Inr _) = True"

lemma is_ok_iff: "is_ok r \<longleftrightarrow> (\<exists>x. r = Inr x)"
  by (cases r) auto

lemma is_okE: "is_ok r \<Longrightarrow> (\<And>x. r = Inr x \<Longrightarrow> P) \<Longrightarrow> P"
  by (cases r) auto

section \<open>Lists\<close>

fun dedup_onto :: "'a list \<Rightarrow> 'a list \<Rightarrow> 'a list" where
  \<comment> \<open>append the elements not seen yet, in order of first appearance\<close>
  "dedup_onto acc [] = acc"
| "dedup_onto acc (x # xs) =
     (if x \<in> set acc then dedup_onto acc xs else dedup_onto (acc @ [x]) xs)"

lemma set_dedup_onto [simp]: "set (dedup_onto acc xs) = set acc \<union> set xs"
  by (induction xs arbitrary: acc) auto

lemma distinct_dedup_onto [simp]: "distinct (dedup_onto acc xs) = distinct acc"
  by (induction xs arbitrary: acc) auto

lemma dedup_onto_append: "dedup_onto acc (xs @ ys) = dedup_onto (dedup_onto acc xs) ys"
  by (induction xs arbitrary: acc) auto

lemma prefix_dedup_onto: "prefix acc (dedup_onto acc xs)"
  by (induction xs arbitrary: acc) (auto dest: append_prefixD)

lemma dedup_onto_seen: "set xs \<subseteq> set acc \<Longrightarrow> dedup_onto acc xs = acc"
  by (induction xs arbitrary: acc) auto

lemma prefix_set: "prefix xs ys \<Longrightarrow> set xs \<subseteq> set ys"
  by (auto simp: prefix_def)

lemma take_drop_sub:
  assumes "i \<le> j" and "j \<le> k"
  shows "take (j - i) (drop i xs) @ take (k - j) (drop j xs) = take (k - i) (drop i xs)"
proof -
  have "take (k - i) (drop i xs) = take ((j - i) + (k - j)) (drop i xs)"
    using assms by simp
  also have "\<dots> = take (j - i) (drop i xs) @ take (k - j) (drop (j - i) (drop i xs))"
    by (rule take_add)
  finally show ?thesis using assms by simp
qed

lemma takeWhile_all: "\<forall>x \<in> set xs. P x \<Longrightarrow> takeWhile P xs = xs"
  by (induction xs) auto

lemma takeWhile_take: "n \<le> length (takeWhile P xs) \<Longrightarrow> \<forall>x \<in> set (take n xs). P x"
proof (induction xs arbitrary: n)
  case Nil
  then show ?case by simp
next
  case (Cons x xs)
  then show ?case by (cases n) (auto split: if_splits)
qed

lemma takeWhile_ge:
  "n \<le> length xs \<Longrightarrow> \<forall>x \<in> set (take n xs). P x \<Longrightarrow> n \<le> length (takeWhile P xs)"
proof (induction xs arbitrary: n)
  case Nil
  then show ?case by simp
next
  case (Cons x xs)
  then show ?case by (cases n) auto
qed

lemma sorted_wrt_insort_insert: "x \<in> set (insort_key f y xs) \<longleftrightarrow> x = y \<or> x \<in> set xs"
  by (simp add: set_insort_key)

end
