(* ===== verification/Pystr.thy ===== *)
theory Pystr
  imports Prelude
begin

text \<open>
  The operations of Python's \<open>str\<close> that the source uses. A \<open>str\<close> is modelled as a
  \<open>string\<close> whose characters are the code points below 256, and on those code points every
  operation here computes what Python computes: \<open>lower\<close>, \<open>casefold\<close>,
  \<open>strip\<close>, \<open>in\<close>, \<open>startswith\<close>, \<open>endswith\<close>,
  \<open>find\<close>, \<open>rfind\<close>, \<open>partition\<close>, \<open>repr\<close>, and the
  character classes of \<open>re\<close> (\<open>\\w\<close>, \<open>\\s\<close>) on Unicode patterns.
  One code point leaves the range: MICRO SIGN casefolds to GREEK SMALL MU, which the model keeps
  as MICRO SIGN. The source compares casefolded text with ASCII text only, so the two cannot be
  told apart by it.
\<close>

section \<open>Character classes\<close>

definition cp :: "char \<Rightarrow> nat" where
  "cp c = of_char c"

definition is_space :: "char \<Rightarrow> bool" where
  "is_space c = (let n = cp c in (9 \<le> n \<and> n \<le> 13) \<or> (28 \<le> n \<and> n \<le> 32) \<or> n = 133 \<or> n = 160)"

definition is_digit :: "char \<Rightarrow> bool" where
  "is_digit c = (let n = cp c in 48 \<le> n \<and> n \<le> 57)"

definition is_upper_az :: "char \<Rightarrow> bool" where
  "is_upper_az c = (let n = cp c in 65 \<le> n \<and> n \<le> 90)"

definition is_lower_az :: "char \<Rightarrow> bool" where
  "is_lower_az c = (let n = cp c in 97 \<le> n \<and> n \<le> 122)"

definition is_latin_letter :: "char \<Rightarrow> bool" where
  \<comment> \<open>the alphanumeric code points from 128 to 255\<close>
  "is_latin_letter c = (let n = cp c in n = 170 \<or> n = 178 \<or> n = 179 \<or> n = 181 \<or> n = 185 \<or> n = 186 \<or>
     (188 \<le> n \<and> n \<le> 190) \<or> (192 \<le> n \<and> n \<noteq> 215 \<and> n \<noteq> 247))"

definition is_word :: "char \<Rightarrow> bool" where
  \<comment> \<open>\<open>\\w\<close>: alphanumeric or underscore\<close>
  "is_word c \<longleftrightarrow> is_digit c \<or> is_upper_az c \<or> is_lower_az c \<or> c = CHR ''_'' \<or> is_latin_letter c"

lemma cp_less: "cp c < 256"
  by (simp add: cp_def)

lemmas char_classes = cp_def is_space_def is_digit_def is_upper_az_def is_lower_az_def
  is_latin_letter_def is_word_def

lemma is_space_not_word: "is_space c \<Longrightarrow> \<not> is_word c"
  by (auto simp: char_classes Let_def)

section \<open>Case\<close>

definition lower_char :: "char \<Rightarrow> char" where
  "lower_char c = (let n = cp c in
     if (65 \<le> n \<and> n \<le> 90) \<or> (192 \<le> n \<and> n \<le> 222 \<and> n \<noteq> 215) then char_of (n + 32) else c)"

definition py_lower :: "string \<Rightarrow> string" where
  "py_lower s = map lower_char s"

definition casefold_char :: "char \<Rightarrow> string" where
  "casefold_char c = (if cp c = 223 then ''ss'' else [lower_char c])"

definition py_casefold :: "string \<Rightarrow> string" where
  "py_casefold s = concat (map casefold_char s)"

lemma cp_char_of: "n < 256 \<Longrightarrow> cp (char_of n) = n"
  by (simp add: cp_def)

lemma cp_lower_char:
  "cp (lower_char c) = (let n = cp c in
     if (65 \<le> n \<and> n \<le> 90) \<or> (192 \<le> n \<and> n \<le> 222 \<and> n \<noteq> 215) then n + 32 else n)"
  using cp_less [of c] by (auto simp: lower_char_def Let_def cp_char_of)

lemma cp_inject: "cp c = cp d \<longleftrightarrow> c = d"
  by (simp add: cp_def)

lemma lower_char_idem [simp]: "lower_char (lower_char c) = lower_char c"
  by (simp add: cp_inject [symmetric] cp_lower_char Let_def)

lemma py_lower_idem [simp]: "py_lower (py_lower s) = py_lower s"
  by (simp add: py_lower_def)

lemma py_lower_append: "py_lower (a @ b) = py_lower a @ py_lower b"
  by (simp add: py_lower_def)

lemma py_casefold_append: "py_casefold (a @ b) = py_casefold a @ py_casefold b"
  by (simp add: py_casefold_def)

section \<open>Stripping\<close>

definition py_lstrip_set :: "string \<Rightarrow> string \<Rightarrow> string" where
  \<comment> \<open>\<open>s.lstrip(chars)\<close>\<close>
  "py_lstrip_set cs s = dropWhile (\<lambda>c. c \<in> set cs) s"

definition py_strip :: "string \<Rightarrow> string" where
  "py_strip s = rev (dropWhile is_space (rev (dropWhile is_space s)))"

definition blank :: "string \<Rightarrow> bool" where
  \<comment> \<open>\<open>not s.strip()\<close>\<close>
  "blank s \<longleftrightarrow> (\<forall>c \<in> set s. is_space c)"

lemma py_strip_eq_Nil: "py_strip s = [] \<longleftrightarrow> blank s"
proof -
  have "(\<forall>c \<in> set (dropWhile is_space s). is_space c) \<longleftrightarrow> blank s"
    unfolding blank_def by (induction s) auto
  then show ?thesis by (simp add: py_strip_def)
qed

section \<open>Searching\<close>

definition startswith :: "string \<Rightarrow> string \<Rightarrow> bool" where
  "startswith p s \<longleftrightarrow> take (length p) s = p"

definition endswith :: "string \<Rightarrow> string \<Rightarrow> bool" where
  "endswith p s \<longleftrightarrow> length p \<le> length s \<and> drop (length s - length p) s = p"

fun py_in :: "string \<Rightarrow> string \<Rightarrow> bool" where
  \<comment> \<open>\<open>p in s\<close>\<close>
  "py_in p [] \<longleftrightarrow> p = []"
| "py_in p (c # cs) \<longleftrightarrow> startswith p (c # cs) \<or> py_in p cs"

lemma startswith_iff: "startswith p s \<longleftrightarrow> (\<exists>t. s = p @ t)"
  unfolding startswith_def by (metis append_eq_conv_conj append_take_drop_id)

lemma endswith_iff: "endswith p s \<longleftrightarrow> (\<exists>t. s = t @ p)"
proof
  assume "endswith p s"
  then have "s = take (length s - length p) s @ p"
    unfolding endswith_def by (metis append_take_drop_id)
  then show "\<exists>t. s = t @ p" ..
qed (auto simp: endswith_def)

lemma py_in_iff: "py_in p s \<longleftrightarrow> (\<exists>a b. s = a @ p @ b)"
proof (induction s)
  case Nil
  then show ?case by auto
next
  case (Cons c cs)
  have "(\<exists>a b. c # cs = a @ p @ b) \<longleftrightarrow> (\<exists>b. c # cs = p @ b) \<or> (\<exists>a b. cs = a @ p @ b)"
    (is "?L \<longleftrightarrow> ?R")
  proof
    assume ?L
    then obtain a b where "c # cs = a @ p @ b" by blast
    then show ?R by (cases a) auto
  next
    assume ?R
    then show ?L by (metis append_Cons append_Nil)
  qed
  then show ?case using Cons by (simp add: startswith_iff)
qed

fun find_char :: "char \<Rightarrow> string \<Rightarrow> nat option" where
  \<comment> \<open>\<open>s.find(c)\<close>, \<open>None\<close> for -1\<close>
  "find_char c [] = None"
| "find_char c (x # xs) = (if x = c then Some 0 else map_option Suc (find_char c xs))"

fun rfind_char :: "char \<Rightarrow> string \<Rightarrow> nat option" where
  \<comment> \<open>\<open>s.rfind(c)\<close>, \<open>None\<close> for -1\<close>
  "rfind_char c [] = None"
| "rfind_char c (x # xs) =
     (case rfind_char c xs of Some i \<Rightarrow> Some (Suc i) | None \<Rightarrow> if x = c then Some 0 else None)"

lemma find_char_Some:
  "find_char c s = Some i \<Longrightarrow> i < length s \<and> s ! i = c \<and> c \<notin> set (take i s)"
  by (induction s arbitrary: i) (auto split: if_splits)

lemma find_char_None: "find_char c s = None \<longleftrightarrow> c \<notin> set s"
  by (induction s) auto

lemma rfind_char_Some:
  "rfind_char c s = Some i \<Longrightarrow> i < length s \<and> s ! i = c \<and> c \<notin> set (drop (Suc i) s)"
proof (induction s arbitrary: i)
  case Nil
  then show ?case by simp
next
  case (Cons x xs)
  have None: "rfind_char c ys = None \<Longrightarrow> c \<notin> set ys" for ys
    by (induction ys) (auto split: option.splits if_splits)
  from Cons show ?case by (auto split: option.splits if_splits dest: None)
qed

lemma rfind_char_None: "rfind_char c s = None \<longleftrightarrow> c \<notin> set s"
  by (induction s) (auto split: option.splits)

definition before_char :: "char \<Rightarrow> string \<Rightarrow> string" where
  \<comment> \<open>\<open>s.split(c, 1)[0]\<close> and \<open>s.partition(c)[0]\<close>\<close>
  "before_char c s = takeWhile (\<lambda>x. x \<noteq> c) s"

definition after_char :: "char \<Rightarrow> string \<Rightarrow> string" where
  \<comment> \<open>\<open>s.partition(c)[2]\<close>\<close>
  "after_char c s = drop 1 (dropWhile (\<lambda>x. x \<noteq> c) s)"

definition before_last_char :: "char \<Rightarrow> string \<Rightarrow> string" where
  \<comment> \<open>\<open>s.rsplit(c, 1)[0]\<close>\<close>
  "before_last_char c s = (case rfind_char c s of None \<Rightarrow> s | Some i \<Rightarrow> take i s)"

definition after_last_char :: "char \<Rightarrow> string \<Rightarrow> string" where
  \<comment> \<open>\<open>s.rpartition(c)[2]\<close> and \<open>s.rsplit(c, 1)[-1]\<close>\<close>
  "after_last_char c s = (case rfind_char c s of None \<Rightarrow> s | Some i \<Rightarrow> drop (Suc i) s)"

fun split_char :: "char \<Rightarrow> string \<Rightarrow> string list" where
  \<comment> \<open>\<open>s.split(c)\<close>\<close>
  "split_char c [] = [[]]"
| "split_char c (x # xs) =
     (if x = c then [] # split_char c xs
      else case split_char c xs of [] \<Rightarrow> [[x]] | p # ps \<Rightarrow> (x # p) # ps)"

fun join :: "string \<Rightarrow> string list \<Rightarrow> string" where
  \<comment> \<open>\<open>sep.join(parts)\<close>\<close>
  "join sep [] = []"
| "join sep [p] = p"
| "join sep (p # q # ps) = p @ sep @ join sep (q # ps)"

section \<open>Words of a text\<close>

definition is_token_char :: "char \<Rightarrow> bool" where
  \<comment> \<open>the class \<open>[a-z0-9]\<close>\<close>
  "is_token_char c \<longleftrightarrow> is_lower_az c \<or> is_digit c"

fun token_runs :: "string \<Rightarrow> string \<Rightarrow> string list" where
  \<comment> \<open>\<open>re.findall([a-z0-9]+, s)\<close>, with the run read so far in front\<close>
  "token_runs cur [] = (if cur = [] then [] else [cur])"
| "token_runs cur (c # cs) =
     (if is_token_char c then token_runs (cur @ [c]) cs
      else if cur = [] then token_runs [] cs
      else cur # token_runs [] cs)"

lemma token_runs_nonempty: "[] \<notin> set (token_runs cur s)"
  by (induction cur s rule: token_runs.induct) auto

lemma token_runs_chars:
  "list_all is_token_char cur \<Longrightarrow> w \<in> set (token_runs cur s) \<Longrightarrow> list_all is_token_char w"
proof (induction s arbitrary: cur)
  case Nil
  then show ?case by (simp split: if_splits)
next
  case (Cons c cs)
  show ?case
  proof (cases "is_token_char c")
    case True
    with Cons.prems have "list_all is_token_char (cur @ [c])" "w \<in> set (token_runs (cur @ [c]) cs)"
      by simp_all
    then show ?thesis by (rule Cons.IH)
  next
    case False
    with Cons.prems have "w = cur \<or> w \<in> set (token_runs [] cs)"
      by (auto split: if_splits)
    moreover have "w \<in> set (token_runs [] cs) \<Longrightarrow> list_all is_token_char w"
      by (rule Cons.IH) simp_all
    ultimately show ?thesis using Cons.prems(1) by blast
  qed
qed

lemma token_runs_eq_Nil: "token_runs cur s = [] \<longleftrightarrow> cur = [] \<and> (\<forall>c \<in> set s. \<not> is_token_char c)"
  by (induction cur s rule: token_runs.induct) auto

section \<open>Printing\<close>

definition nl :: char where "nl = CHR 0x0A"

definition hex_digit :: "nat \<Rightarrow> char" where
  "hex_digit n = (''0123456789abcdef'' ! (n mod 16))"

fun hex_of :: "nat \<Rightarrow> nat \<Rightarrow> string" where
  \<comment> \<open>the last \<open>k\<close> hexadecimal digits\<close>
  "hex_of 0 n = []"
| "hex_of (Suc k) n = hex_of k (n div 16) @ [hex_digit n]"

fun dec_digits :: "nat \<Rightarrow> string" where
  "dec_digits n = (if n < 10 then [char_of (48 + n)] else dec_digits (n div 10) @ [char_of (48 + n mod 10)])"

declare dec_digits.simps [simp del]

definition str_int :: "int \<Rightarrow> string" where
  "str_int i = (if i < 0 then CHR ''-'' # dec_digits (nat (- i)) else dec_digits (nat i))"

definition str_uuid :: "nat \<Rightarrow> string" where
  \<comment> \<open>\<open>str(uuid)\<close>: 32 hexadecimal digits in groups of 8, 4, 4, 4, 12\<close>
  "str_uuid u = (let h = hex_of 32 u
     in take 8 h @ ''-'' @ take 4 (drop 8 h) @ ''-'' @ take 4 (drop 12 h) @ ''-'' @ take 4 (drop 16 h) @ ''-'' @ drop 20 h)"

definition uuid_text :: "nat \<Rightarrow> string" where
  "uuid_text u = str_uuid u"

lemma uuid_text_code [code]: "uuid_text u = (let h = hex_of 32 u
     in take 8 h @ ''-'' @ take 4 (drop 8 h) @ ''-'' @ take 4 (drop 12 h) @ ''-'' @ take 4 (drop 16 h) @ ''-'' @ drop 20 h)"
  by (simp add: uuid_text_def str_uuid_def)

lemma str_uuid_code [code]: "str_uuid u = (if u = 0 then uuid_text u else uuid_text u)"
  \<comment> \<open>waits for the number before it computes the digits\<close>
  by (simp add: uuid_text_def)

lemma length_hex_of [simp]: "length (hex_of k n) = k"
  by (induction k arbitrary: n) auto

lemma length_str_uuid: "length (str_uuid u) = 36"
  by (simp add: str_uuid_def Let_def)

lemma hex_digit_inject: "hex_digit m = hex_digit n \<longleftrightarrow> m mod 16 = n mod 16"
proof -
  have d: "distinct ''0123456789abcdef''" by simp
  have l: "m mod 16 < length ''0123456789abcdef''" "n mod 16 < length ''0123456789abcdef''"
    by simp_all
  show ?thesis unfolding hex_digit_def using nth_eq_iff_index_eq [OF d l] .
qed

lemma hex_of_inject: "hex_of k m = hex_of k n \<longleftrightarrow> m mod 16 ^ k = n mod 16 ^ k"
proof (induction k arbitrary: m n)
  case 0
  then show ?case by simp
next
  case (Suc k)
  have "hex_of (Suc k) m = hex_of (Suc k) n \<longleftrightarrow>
      (m div 16) mod 16 ^ k = (n div 16) mod 16 ^ k \<and> m mod 16 = n mod 16"
    by (simp add: Suc hex_digit_inject)
  also have "\<dots> \<longleftrightarrow> m mod (16 * 16 ^ k) = n mod (16 * 16 ^ k)"
    (is "?L \<longleftrightarrow> ?R")
  proof
    assume ?L
    then show ?R by (simp add: mod_mult2_eq)
  next
    assume R: ?R
    have lo: "x mod (16 * 16 ^ k) mod 16 = x mod 16" for x :: nat
      by (rule mod_mod_cancel) simp
    have hi: "x mod (16 * 16 ^ k) div 16 = (x div 16) mod 16 ^ k" for x :: nat
      by (simp add: mod_mult2_eq)
    show ?L using R lo [of m] lo [of n] hi [of m] hi [of n] by simp
  qed
  finally show ?case by simp
qed

end
