(* ===== verification/Regex.thy ===== *)
theory Regex
  imports Pystr
begin

text \<open>
  The fragment of Python's \<open>re\<close> the redaction patterns are written in: literal character
  classes, greedy repetition of a class, alternation, concatenation and the word boundary.
  \<open>rx_matches\<close> lists the lengths a pattern can match at a position, in the order the
  backtracking engine tries them, so its first element is the engine's match; the character
  before the position is passed along for the word boundary. \<open>rx_sub\<close> is
  \<open>pattern.sub(replacement, text)\<close> for a pattern that never matches the empty string.
  The second half of the theory is the argument that substituting one pattern creates no match
  of another.
\<close>

section \<open>Patterns and their matches\<close>

datatype rx =
    Str "(char \<Rightarrow> bool) list"                       \<comment> \<open>one class per character\<close>
  | Rep "char \<Rightarrow> bool" nat "nat option"            \<comment> \<open>greedy repetition of a class\<close>
  | WB                                              \<comment> \<open>\<open>\\b\<close>\<close>
  | Cat rx rx
  | Alt rx rx

definition word_opt :: "char option \<Rightarrow> bool" where
  "word_opt p = (case p of None \<Rightarrow> False | Some c \<Rightarrow> is_word c)"

definition head_opt :: "string \<Rightarrow> char option" where
  "head_opt s = (case s of [] \<Rightarrow> None | c # _ \<Rightarrow> Some c)"

definition boundary :: "char option \<Rightarrow> string \<Rightarrow> bool" where
  "boundary p s \<longleftrightarrow> word_opt p \<noteq> word_opt (head_opt s)"

fun all_match :: "(char \<Rightarrow> bool) list \<Rightarrow> string \<Rightarrow> bool" where
  \<comment> \<open>the text starts with one character of each class\<close>
  "all_match [] s = True"
| "all_match (P # Ps) [] = False"
| "all_match (P # Ps) (c # cs) = (P c \<and> all_match Ps cs)"

definition prev_after :: "char option \<Rightarrow> string \<Rightarrow> nat \<Rightarrow> char option" where
  "prev_after p s n = (if n = 0 then p else Some (s ! (n - 1)))"

fun rx_matches :: "rx \<Rightarrow> char option \<Rightarrow> string \<Rightarrow> nat list" where
  "rx_matches (Str Ps) p s = (if all_match Ps s then [length Ps] else [])"
| "rx_matches (Rep P lo hi) p s =
     (let k = length (takeWhile P s); m = (case hi of None \<Rightarrow> k | Some h \<Rightarrow> min h k)
      in rev [lo..<Suc m])"
| "rx_matches WB p s = (if boundary p s then [0] else [])"
| "rx_matches (Cat a b) p s =
     concat (map (\<lambda>n. map ((+) n) (rx_matches b (prev_after p s n) (drop n s))) (rx_matches a p s))"
| "rx_matches (Alt a b) p s = rx_matches a p s @ rx_matches b p s"

function rx_sub :: "rx \<Rightarrow> string \<Rightarrow> char option \<Rightarrow> string \<Rightarrow> string" where
  "rx_sub r repl p [] = []"
| "rx_sub r repl p (c # cs) =
     (case rx_matches r p (c # cs) of
        [] \<Rightarrow> c # rx_sub r repl (Some c) cs
      | n # _ \<Rightarrow>
          if n = 0 then c # rx_sub r repl (Some c) cs
          else repl @ rx_sub r repl (Some ((c # cs) ! (n - 1))) (drop (n - 1) cs))"
  by pat_completeness auto
termination
  by (relation "measure (\<lambda>(r, repl, p, s). length s)") auto

fun rx_free :: "rx \<Rightarrow> char option \<Rightarrow> string \<Rightarrow> bool" where
  \<comment> \<open>\<open>pattern.search\<close> finds nothing\<close>
  "rx_free r p [] = (rx_matches r p [] = [])"
| "rx_free r p (c # cs) = (rx_matches r p (c # cs) = [] \<and> rx_free r (Some c) cs)"

definition lits :: "string \<Rightarrow> (char \<Rightarrow> bool) list" where
  "lits s = map (\<lambda>c d. d = c) s"

definition ilits :: "string \<Rightarrow> (char \<Rightarrow> bool) list" where
  \<comment> \<open>literal text under \<open>(?i)\<close>\<close>
  "ilits s = map (\<lambda>c d. lower_char d = c) s"

lemma rx_sub_free: "rx_free r p s \<Longrightarrow> rx_sub r repl p s = s"
  by (induction s arbitrary: p) auto

section \<open>Membership in the match list\<close>

lemma all_match_iff: "all_match Ps s \<longleftrightarrow> length Ps \<le> length s \<and> (\<forall>i < length Ps. (Ps ! i) (s ! i))"
proof (induction Ps s rule: all_match.induct)
  case (3 P Ps c cs)
  show ?case (is "?L \<longleftrightarrow> ?R")
  proof
    assume ?L
    with 3 show ?R by (auto simp: nth_Cons split: nat.splits)
  next
    assume R: ?R
    then have "P c" by (metis length_greater_0_conv list.distinct(1) nth_Cons_0)
    moreover have "\<forall>i < length Ps. (Ps ! i) (cs ! i)"
      using R by (metis Suc_less_eq length_Cons nth_Cons_Suc)
    ultimately show ?L using R 3 by simp
  qed
qed auto

lemma all_match_take: "all_match Ps s \<longleftrightarrow> length Ps \<le> length s \<and> all_match Ps (take (length Ps) s)"
  by (induction Ps s rule: all_match.induct) auto

lemma all_match_append: "length Ps \<le> length u \<Longrightarrow> all_match Ps (u @ w) = all_match Ps u"
  by (induction Ps u rule: all_match.induct) auto

lemma rep_matches:
  "n \<in> set (rx_matches (Rep P lo hi) p s) \<longleftrightarrow>
     lo \<le> n \<and> n \<le> length s \<and> (\<forall>c \<in> set (take n s). P c) \<and> (case hi of None \<Rightarrow> True | Some h \<Rightarrow> n \<le> h)"
proof -
  have "n \<le> length (takeWhile P s) \<longleftrightarrow> n \<le> length s \<and> (\<forall>c \<in> set (take n s). P c)"
    using takeWhile_take [of n P s] takeWhile_ge [of n s P] length_takeWhile_le [of P s]
    by (meson le_trans)
  then show ?thesis
    by (auto simp: Let_def less_Suc_eq_le split: option.splits)
qed

lemma rep_first:
  \<comment> \<open>the greedy engine's first choice for an unbounded repetition is the whole run\<close>
  "rx_matches (Rep P lo None) p s = n # ns \<Longrightarrow> n = length (takeWhile P s)"
  by (auto simp: Let_def split: if_splits)

lemma cat_matches:
  "n \<in> set (rx_matches (Cat a b) p s) \<longleftrightarrow>
     (\<exists>i j. n = i + j \<and> i \<in> set (rx_matches a p s) \<and>
            j \<in> set (rx_matches b (prev_after p s i) (drop i s)))"
  by auto

lemma wb_matches: "n \<in> set (rx_matches WB p s) \<longleftrightarrow> n = 0 \<and> boundary p s"
  by auto

lemma str_matches: "n \<in> set (rx_matches (Str Ps) p s) \<longleftrightarrow> n = length Ps \<and> all_match Ps s"
  by auto

lemmas match_iffs = rep_matches cat_matches wb_matches str_matches

lemma matches_le_length: "n \<in> set (rx_matches r p s) \<Longrightarrow> n \<le> length s"
proof (induction r arbitrary: p s n)
  case (Str Ps)
  then show ?case by (auto simp: all_match_iff split: if_splits)
next
  case (Rep P lo hi)
  then show ?case by (simp only: rep_matches)
next
  case WB
  then show ?case by (simp split: if_splits)
next
  case (Cat a b)
  then obtain i j where "n = i + j" "i \<in> set (rx_matches a p s)"
      "j \<in> set (rx_matches b (prev_after p s i) (drop i s))"
    unfolding cat_matches by blast
  then show ?case using Cat.IH(1) [of i p s] Cat.IH(2) [of j "prev_after p s i" "drop i s"] by simp
next
  case (Alt a b)
  then show ?case by auto
qed

section \<open>Key patterns\<close>

text \<open>
  A key pattern is \<open>\\b\<close>, a literal prefix, a repetition of a class and a final
  \<open>\\b\<close>. \<open>key_hit\<close> says what it matches without the engine.
\<close>

definition key_rx :: "(char \<Rightarrow> bool) list \<Rightarrow> (char \<Rightarrow> bool) \<Rightarrow> nat \<Rightarrow> nat option \<Rightarrow> rx" where
  "key_rx Ps P lo hi = Cat WB (Cat (Str Ps) (Cat (Rep P lo hi) WB))"

definition key_shape :: "(char \<Rightarrow> bool) list \<Rightarrow> (char \<Rightarrow> bool) \<Rightarrow> nat \<Rightarrow> nat option \<Rightarrow> string \<Rightarrow> bool" where
  "key_shape Ps P lo hi u \<longleftrightarrow> all_match Ps u \<and> lo + length Ps \<le> length u \<and>
     (\<forall>c \<in> set (drop (length Ps) u). P c) \<and>
     (case hi of None \<Rightarrow> True | Some h \<Rightarrow> length u \<le> h + length Ps)"

lemma prev_after_add: "prev_after (prev_after p s i) (drop i s) j = prev_after p s (i + j)" if "i + j \<le> length s"
  using that by (auto simp: prev_after_def)

lemma key_matches:
  "n \<in> set (rx_matches (key_rx Ps P lo hi) p s) \<longleftrightarrow>
     n \<le> length s \<and> boundary p s \<and> key_shape Ps P lo hi (take n s) \<and>
     boundary (prev_after p s n) (drop n s)"
  (is "?L \<longleftrightarrow> ?R")
proof -
  have step: "n \<in> set (rx_matches (key_rx Ps P lo hi) p s) \<longleftrightarrow>
      boundary p s \<and> all_match Ps s \<and>
      (\<exists>j. n = length Ps + j \<and> j \<in> set (rx_matches (Rep P lo hi) (prev_after p s (length Ps)) (drop (length Ps) s)) \<and>
           boundary (prev_after (prev_after p s (length Ps)) (drop (length Ps) s) j) (drop n s))"
  proof -
    have z: "prev_after p s 0 = p" by (simp add: prev_after_def)
    show ?thesis
      unfolding key_rx_def cat_matches wb_matches str_matches
      by (simp add: z add.commute del: rx_matches.simps) blast
  qed
  show ?thesis
  proof
    assume ?L
    then obtain j where j: "n = length Ps + j" "lo \<le> j" "j \<le> length (drop (length Ps) s)"
        "\<forall>c \<in> set (take j (drop (length Ps) s)). P c" "case hi of None \<Rightarrow> True | Some h \<Rightarrow> j \<le> h"
        "boundary p s" "all_match Ps s"
        "boundary (prev_after (prev_after p s (length Ps)) (drop (length Ps) s) j) (drop n s)"
      unfolding step rep_matches by blast
    have le: "length Ps \<le> length s" using j(7) by (simp add: all_match_iff)
    have "all_match Ps (take n s)"
      using j(1,7) le by (simp add: all_match_iff)
    moreover have "drop (length Ps) (take n s) = take j (drop (length Ps) s)"
      using j(1) by (simp add: drop_take)
    moreover have "n \<le> length s" using j(1,3) le by simp
    ultimately show ?R
      using j prev_after_add [of "length Ps" j s p]
      by (auto simp: key_shape_def split: option.splits)
  next
    assume R: ?R
    define j where "j = n - length Ps"
    from R have n: "n = length Ps + j" "lo \<le> j"
      by (auto simp: key_shape_def j_def)
    have am: "all_match Ps s"
      using R n by (simp add: key_shape_def all_match_iff)
    have dt: "drop (length Ps) (take n s) = take j (drop (length Ps) s)"
      using n(1) by (simp add: drop_take)
    have "j \<in> set (rx_matches (Rep P lo hi) (prev_after p s (length Ps)) (drop (length Ps) s))"
      unfolding rep_matches using R n dt by (auto simp: key_shape_def split: option.splits)
    then show ?L
      unfolding step using R am n prev_after_add [of "length Ps" j s p] by auto
  qed
qed

section \<open>What a match depends on\<close>

lemma prev_after_cong:
  "take n s = take n s' \<Longrightarrow> n \<le> length s \<Longrightarrow> n \<le> length s' \<Longrightarrow> i \<le> n \<Longrightarrow> word_opt p = word_opt p' \<Longrightarrow>
     word_opt (prev_after p s i) = word_opt (prev_after p' s' i)"
  using nth_take [of "i - 1" n s] nth_take [of "i - 1" n s'] by (auto simp: prev_after_def)

lemma take_drop_cong:
  "take n s = take n s' \<Longrightarrow> i + j = n \<Longrightarrow> take j (drop i s) = take j (drop i s')"
  by (metis add.commute take_drop)

lemma head_drop_cong:
  assumes "take n s = take n s'" and "i < n"
  shows "head_opt (drop i s) = head_opt (drop i s')"
proof -
  from assms(2) obtain j where j: "i + Suc j = n"
    by (metis add_Suc_right less_natE)
  show ?thesis
    using take_drop_cong [OF assms(1) j] by (cases "drop i s"; cases "drop i s'") (auto simp: head_opt_def)
qed

text \<open>
  A match of length \<open>n\<close> depends on the matched text, on whether the character before is a
  word character, and on whether the character after is one.
\<close>

lemma matches_local:
  "n \<in> set (rx_matches r p s) \<Longrightarrow> take n s = take n s' \<Longrightarrow> n \<le> length s \<Longrightarrow> n \<le> length s' \<Longrightarrow>
     word_opt p = word_opt p' \<Longrightarrow>
     word_opt (head_opt (drop n s)) = word_opt (head_opt (drop n s')) \<Longrightarrow>
     n \<in> set (rx_matches r p' s')"
proof (induction r arbitrary: n p p' s s')
  case (Str Ps)
  then show ?case unfolding str_matches using all_match_take by metis
next
  case (Rep P lo hi)
  then show ?case unfolding rep_matches by metis
next
  case WB
  then show ?case unfolding wb_matches boundary_def by simp
next
  case (Cat a b)
  from Cat.prems(1) obtain i j where ij: "n = i + j" "i \<in> set (rx_matches a p s)"
      "j \<in> set (rx_matches b (prev_after p s i) (drop i s))"
    unfolding cat_matches by blast
  have le: "i \<le> n" using ij(1) by simp
  have ti: "take i s = take i s'"
    using Cat.prems(2) le by (metis min.absorb1 take_take)
  have hd_i: "word_opt (head_opt (drop i s)) = word_opt (head_opt (drop i s'))"
  proof (cases "j = 0")
    case True
    then show ?thesis using Cat.prems(6) ij(1) by simp
  next
    case False
    then show ?thesis using head_drop_cong [OF Cat.prems(2), of i] ij(1) by simp
  qed
  have a: "i \<in> set (rx_matches a p' s')"
    by (rule Cat.IH(1) [OF ij(2) ti _ _ Cat.prems(5) hd_i]) (use le Cat.prems in auto)
  have b: "j \<in> set (rx_matches b (prev_after p' s' i) (drop i s'))"
    by (rule Cat.IH(2) [OF ij(3)])
      (use Cat.prems ij(1) take_drop_cong [OF Cat.prems(2), of i j] prev_after_cong [of n s s' i p p'] in
        \<open>auto simp: add.commute\<close>)
  show ?case unfolding cat_matches using a b ij(1) by blast
next
  case (Alt a b)
  then show ?case by (auto simp del: rx_matches.simps(1-4))
qed

fun consumes :: "rx \<Rightarrow> bool" where
  \<comment> \<open>every match takes at least one character\<close>
  "consumes (Str Ps) = (Ps \<noteq> [])"
| "consumes (Rep P lo hi) = (0 < lo)"
| "consumes WB = False"
| "consumes (Cat a b) = (consumes a \<or> consumes b)"
| "consumes (Alt a b) = (consumes a \<and> consumes b)"

lemma consumes_pos: "consumes r \<Longrightarrow> n \<in> set (rx_matches r p s) \<Longrightarrow> 0 < n"
proof (induction r arbitrary: n p s)
  case (Str Ps)
  then show ?case unfolding str_matches by simp
next
  case (Rep P lo hi)
  then show ?case unfolding rep_matches by simp
next
  case (Cat a b)
  then show ?case unfolding cat_matches consumes.simps by (metis add_gr_0)
next
  case (Alt a b)
  then show ?case by (auto simp del: rx_matches.simps(1-4))
qed simp

fun no_look :: "rx \<Rightarrow> bool" where
  \<comment> \<open>no word boundary is tested at the end of a match\<close>
  "no_look (Str Ps) = True"
| "no_look (Rep P lo hi) = True"
| "no_look WB = False"
| "no_look (Cat a b) = (no_look b \<and> (no_look a \<or> consumes b))"
| "no_look (Alt a b) = (no_look a \<and> no_look b)"

lemma matches_no_look:
  "no_look r \<Longrightarrow> n \<in> set (rx_matches r p s) \<Longrightarrow> take n s = take n s' \<Longrightarrow> n \<le> length s \<Longrightarrow> n \<le> length s' \<Longrightarrow>
     word_opt p = word_opt p' \<Longrightarrow> n \<in> set (rx_matches r p' s')"
proof (induction r arbitrary: n p p' s s')
  case (Str Ps)
  then show ?case unfolding str_matches using all_match_take by metis
next
  case (Rep P lo hi)
  then show ?case unfolding rep_matches by metis
next
  case (Cat a b)
  from Cat.prems(2) obtain i j where ij: "n = i + j" "i \<in> set (rx_matches a p s)"
      "j \<in> set (rx_matches b (prev_after p s i) (drop i s))"
    unfolding cat_matches by blast
  have le: "i \<le> n" using ij(1) by simp
  have ti: "take i s = take i s'"
    using Cat.prems(3) le by (metis min.absorb1 take_take)
  have a: "i \<in> set (rx_matches a p' s')"
  proof (cases "no_look a")
    case True
    show ?thesis
      by (rule Cat.IH(1) [OF True ij(2) ti _ _ Cat.prems(6)]) (use le Cat.prems in auto)
  next
    case False
    then have "0 < j" using Cat.prems(1) consumes_pos ij(3) by auto
    then have "head_opt (drop i s) = head_opt (drop i s')"
      using head_drop_cong [OF Cat.prems(3), of i] ij(1) by simp
    then show ?thesis
      using matches_local [OF ij(2) ti _ _ Cat.prems(6)] le Cat.prems(4,5) by simp
  qed
  have b: "j \<in> set (rx_matches b (prev_after p' s' i) (drop i s'))"
    by (rule Cat.IH(2) [OF _ ij(3)])
      (use Cat.prems ij(1) take_drop_cong [OF Cat.prems(3), of i j] prev_after_cong [of n s s' i p p'] in
        \<open>auto simp: add.commute\<close>)
  show ?case unfolding cat_matches using a b ij(1) by blast
next
  case (Alt a b)
  then show ?case by (auto simp del: rx_matches.simps(1-4))
qed simp

fun avoids :: "char \<Rightarrow> rx \<Rightarrow> bool" where
  \<comment> \<open>no class of the pattern admits the character\<close>
  "avoids d (Str Ps) = list_all (\<lambda>P. \<not> P d) Ps"
| "avoids d (Rep P lo hi) = (\<not> P d)"
| "avoids d WB = True"
| "avoids d (Cat a b) = (avoids d a \<and> avoids d b)"
| "avoids d (Alt a b) = (avoids d a \<and> avoids d b)"

lemma all_match_avoids: "all_match Ps s \<Longrightarrow> list_all (\<lambda>P. \<not> P d) Ps \<Longrightarrow> d \<notin> set (take (length Ps) s)"
  by (induction Ps s rule: all_match.induct) auto

lemma matches_avoid: "avoids d r \<Longrightarrow> n \<in> set (rx_matches r p s) \<Longrightarrow> d \<notin> set (take n s)"
proof (induction r arbitrary: n p s)
  case (Str Ps)
  then show ?case unfolding str_matches using all_match_avoids by auto
next
  case (Rep P lo hi)
  then show ?case unfolding rep_matches by auto
next
  case (Cat a b)
  from Cat.prems(2) obtain i j where "n = i + j" "i \<in> set (rx_matches a p s)"
      "j \<in> set (rx_matches b (prev_after p s i) (drop i s))"
    unfolding cat_matches by blast
  then show ?case using Cat.IH(1) [of i p s] Cat.IH(2) [of j _ "drop i s"] Cat.prems(1)
    by (auto simp: take_add)
next
  case (Alt a b)
  then show ?case by (auto simp del: rx_matches.simps(1-4))
qed simp

section \<open>The greedy end of a match\<close>

definition greedy_end :: "rx \<Rightarrow> (char \<Rightarrow> bool) \<Rightarrow> bool" where
  "greedy_end r P \<longleftrightarrow>
     (\<forall>p s n ns. rx_matches r p s = n # ns \<longrightarrow> drop n s = [] \<or> \<not> P (hd (drop n s)))"

lemma greedy_end_Rep: "greedy_end (Rep P lo None) P"
  unfolding greedy_end_def
proof (intro allI impI)
  fix p s n ns
  assume "rx_matches (Rep P lo None) p s = n # ns"
  then have n: "n = length (takeWhile P s)" by (rule rep_first)
  have "drop n s = dropWhile P s" unfolding n by (metis dropWhile_eq_drop)
  then show "drop n s = [] \<or> \<not> P (hd (drop n s))"
    by (metis hd_dropWhile)
qed

lemma concat_first: "concat xss = y # ys \<Longrightarrow> \<exists>xs \<in> set xss. \<exists>zs. xs = y # zs"
  by (induction xss) (auto simp: append_eq_Cons_conv)

lemma greedy_end_Cat:
  assumes "greedy_end b P"
  shows "greedy_end (Cat a b) P"
  unfolding greedy_end_def
proof (intro allI impI)
  fix p s n ns
  assume "rx_matches (Cat a b) p s = n # ns"
  then have "concat (map (\<lambda>i. map ((+) i) (rx_matches b (prev_after p s i) (drop i s)))
      (rx_matches a p s)) = n # ns" by simp
  from concat_first [OF this] obtain i j js
    where "rx_matches b (prev_after p s i) (drop i s) = j # js" "n = i + j"
    by auto
  then show "drop n s = [] \<or> \<not> P (hd (drop n s))"
    using assms unfolding greedy_end_def by (metis add.commute drop_drop)
qed

end
