(* ===== verification/Redact.thy ===== *)
theory Redact
  imports Regex
begin

text \<open>
  \<open>redact_secrets\<close> of \<open>app/services/normalizer.py\<close>, the G-05 hook every persisted or
  outgoing text passes, with the five patterns written out. The main fact is that its output
  contains no match of any of the five patterns, although each pattern is substituted once only
  and the later substitutions rewrite the text the earlier ones cleaned. Redacting twice
  therefore changes nothing, which the locale \<open>redactor\<close> turns into facts about the
  structures that are redacted field by field.
\<close>

section \<open>The patterns\<close>

definition alnum_dash :: "char \<Rightarrow> bool" where
  \<comment> \<open>\<open>[A-Za-z0-9_-]\<close>\<close>
  "alnum_dash c \<longleftrightarrow> is_upper_az c \<or> is_lower_az c \<or> is_digit c \<or> c = CHR ''_'' \<or> c = CHR ''-''"

definition alnum :: "char \<Rightarrow> bool" where
  \<comment> \<open>\<open>[0-9A-Za-z]\<close>\<close>
  "alnum c \<longleftrightarrow> is_upper_az c \<or> is_lower_az c \<or> is_digit c"

definition upper_digit :: "char \<Rightarrow> bool" where
  \<comment> \<open>\<open>[0-9A-Z]\<close>\<close>
  "upper_digit c \<longleftrightarrow> is_upper_az c \<or> is_digit c"

definition value_char :: "char \<Rightarrow> bool" where
  \<comment> \<open>\<open>[^\\s,;]\<close>\<close>
  "value_char c \<longleftrightarrow> \<not> is_space c \<and> c \<noteq> CHR '','' \<and> c \<noteq> CHR '';''"

definition rx_openai :: rx where
  "rx_openai = key_rx (lits ''sk-'') alnum_dash 16 None"

definition rx_google :: rx where
  "rx_google = key_rx (lits ''AIza'') alnum_dash 20 None"

definition rx_github :: rx where
  "rx_github = key_rx (lits ''gh'' @ [\<lambda>c. c \<in> set ''pousr''] @ lits ''_'') alnum 20 None"

definition rx_aws :: rx where
  "rx_aws = key_rx (lits ''AKIA'') upper_digit 16 (Some 16)"

definition rx_keyword :: rx where
  "rx_keyword = Alt (Str (ilits ''password'')) (Alt (Str (ilits ''passwd''))
     (Alt (Str (ilits ''secret'')) (Alt (Str (ilits ''token''))
       (Cat (Str (ilits ''api'')) (Cat (Rep (\<lambda>c. c \<in> set ''_-'') 0 (Some 1)) (Str (ilits ''key'')))))))"

definition rx_assign_head :: rx where
  "rx_assign_head = Cat WB (Cat rx_keyword (Cat WB (Cat (Rep is_space 0 None)
     (Cat (Str [\<lambda>c. c \<in> set '':='']) (Rep is_space 0 None)))))"

definition rx_assign :: rx where
  "rx_assign = Cat rx_assign_head (Rep value_char 1 None)"

definition api_key_mark :: string where "api_key_mark = ''[REDACTED_API_KEY]''"
definition secret_mark :: string where "secret_mark = ''[REDACTED]''"

definition secret_patterns :: "(rx \<times> string) list" where
  "secret_patterns = [(rx_openai, api_key_mark), (rx_google, api_key_mark),
     (rx_github, api_key_mark), (rx_aws, api_key_mark), (rx_assign, secret_mark)]"

definition redact_secrets :: "string \<Rightarrow> string" where
  "redact_secrets text = foldl (\<lambda>t (pattern, replacement). rx_sub pattern replacement None t)
     text secret_patterns"

definition secret_free :: "string \<Rightarrow> bool" where
  \<comment> \<open>no pattern is found anywhere in the text\<close>
  "secret_free t \<longleftrightarrow> (\<forall>(r, m) \<in> set secret_patterns. rx_free r None t)"

section \<open>Substituting one pattern creates no match of another\<close>

definition key_ok :: "(char \<Rightarrow> bool) list \<Rightarrow> (char \<Rightarrow> bool) \<Rightarrow> bool" where
  "key_ok Ps P \<longleftrightarrow> Ps \<noteq> [] \<and> (\<forall>c. hd Ps c \<longrightarrow> is_word c) \<and>
     list_all (\<lambda>Q. \<not> Q CHR ''['' \<and> \<not> Q CHR '']'') Ps \<and> \<not> P CHR ''['' \<and> \<not> P CHR '']''"

definition clean_sub :: "rx \<Rightarrow> bool" where
  \<comment> \<open>where the pattern is substituted, a word starts, and the text that follows does not
      continue a word\<close>
  "clean_sub r \<longleftrightarrow> (\<forall>p s n ns. rx_matches r p s = n # ns \<longrightarrow>
     0 < n \<and> \<not> word_opt p \<and> word_opt (head_opt s) \<and>
     (\<not> word_opt (head_opt (drop n s)) \<or> \<not> word_opt (prev_after p s n)))"

definition compat :: "char option \<Rightarrow> char option \<Rightarrow> string \<Rightarrow> bool" where
  "compat p' q s \<longleftrightarrow> word_opt p' = word_opt q \<or> \<not> word_opt p' \<and> \<not> word_opt (head_opt s)"

lemma compat_refl [simp]: "compat p p s"
  by (simp add: compat_def)

lemma head_opt_Cons [simp]: "head_opt (c # s) = Some c"
  by (simp add: head_opt_def)

lemma head_opt_Nil [simp]: "head_opt [] = None"
  by (simp add: head_opt_def)

lemma word_opt_simps [simp]: "word_opt None = False" "word_opt (Some c) = is_word c"
  by (simp_all add: word_opt_def)

lemma bracket_not_word [simp]: "\<not> is_word CHR ''[''" "\<not> is_word CHR '']''"
  by (simp_all add: char_classes)

lemma rx_sub_prefix:
  assumes "rx_sub r (CHR ''['' # x) q s = u @ w" and "CHR ''['' \<notin> set u"
  shows "\<exists>w'. s = u @ w' \<and> w = rx_sub r (CHR ''['' # x) (prev_after q u (length u)) w'"
  using assms
proof (induction u arbitrary: q s)
  case Nil
  then show ?case by (simp add: prev_after_def)
next
  case (Cons c u)
  then obtain cs where s: "s = c # cs" and rest: "rx_sub r (CHR ''['' # x) (Some c) cs = u @ w"
    by (cases s) (auto split: list.splits if_splits)
  from Cons.IH [OF rest] Cons.prems(2) obtain w'
    where w': "cs = u @ w'" "w = rx_sub r (CHR ''['' # x) (prev_after (Some c) u (length u)) w'"
    by auto
  have "prev_after (Some c) u (length u) = prev_after q (c # u) (length (c # u))"
    by (cases u rule: rev_cases) (auto simp: prev_after_def nth_append)
  with w' s show ?case by (metis append_Cons)
qed

lemma head_sub:
  assumes "clean_sub r"
  shows "head_opt (rx_sub r (CHR ''['' # x) q s) = head_opt s \<or>
    head_opt (rx_sub r (CHR ''['' # x) q s) = Some CHR ''['' \<and> \<not> word_opt q \<and> word_opt (head_opt s)"
proof (cases s)
  case Nil
  then show ?thesis by simp
next
  case (Cons c cs)
  show ?thesis
  proof (cases "rx_matches r q s")
    case Nil
    with Cons show ?thesis by simp
  next
    case (Cons n ns)
    with assms have "0 < n \<and> \<not> word_opt q \<and> word_opt (head_opt s)"
      unfolding clean_sub_def by blast
    with Cons \<open>s = c # cs\<close> show ?thesis by simp
  qed
qed

lemma prev_after_take: "n \<le> length s \<Longrightarrow> prev_after p (take n s) n = prev_after p s n"
  by (auto simp: prev_after_def)

lemma key_head_word:
  assumes "key_ok Ps P" and "key_shape Ps P lo hi u"
  shows "u \<noteq> []" and "word_opt (head_opt (u @ w))"
proof -
  from assms obtain Q Qs where Ps: "Ps = Q # Qs" by (cases Ps) (auto simp: key_ok_def)
  with assms(2) obtain c cs where "u = c # cs" "Q c"
    by (cases u) (auto simp: key_shape_def)
  with Ps assms(1) show "u \<noteq> []" "word_opt (head_opt (u @ w))" by (auto simp: key_ok_def)
qed

lemma key_avoids:
  assumes "key_ok Ps P"
  shows "avoids CHR ''['' (key_rx Ps P lo hi)" and "avoids CHR '']'' (key_rx Ps P lo hi)"
  using assms by (auto simp: key_ok_def key_rx_def list_all_iff)

lemma key_transfer:
  assumes K: "key_ok Ps P" and r: "clean_sub r" and comp: "compat p' q s"
    and n: "n \<in> set (rx_matches (key_rx Ps P lo hi) p' (rx_sub r (CHR ''['' # x) q s))"
  shows "n \<in> set (rx_matches (key_rx Ps P lo hi) q s)"
proof -
  let ?o = "rx_sub r (CHR ''['' # x) q s"
  define u where "u = take n ?o"
  from n have hit: "n \<le> length ?o" "boundary p' ?o" "key_shape Ps P lo hi u"
      "boundary (prev_after p' ?o n) (drop n ?o)"
    unfolding key_matches u_def by auto
  have u: "?o = u @ drop n ?o" "length u = n" using hit(1) by (simp_all add: u_def)
  have "CHR ''['' \<notin> set u"
    unfolding u_def using matches_avoid [OF key_avoids(1) [OF K] n] .
  from rx_sub_prefix [OF u(1) this] obtain w' where
    s: "s = u @ w'" and d: "drop n ?o = rx_sub r (CHR ''['' # x) (prev_after q u n) w'"
    using u(2) by auto
  have ne: "u \<noteq> []" using key_head_word(1) [OF K hit(3)] .
  have hw: "word_opt (head_opt s)" "word_opt (head_opt ?o)"
    using key_head_word(2) [OF K hit(3)] s u(1) by metis+
  have q: "\<not> word_opt q" using hit(2) hw comp by (auto simp: boundary_def compat_def)
  have pa: "prev_after p' ?o n = prev_after q u n"
    using ne u by (metis hit(1) length_0_conv prev_after_def prev_after_take u_def)
  have ps: "prev_after q s n = prev_after q u n"
    unfolding s using ne u(2) by (auto simp: prev_after_def nth_append)
  have "boundary (prev_after q u n) w'"
    using hit(4) head_sub [OF r, of x "prev_after q u n" w'] unfolding pa d boundary_def by auto
  then show ?thesis
    unfolding key_matches ps using s u(2) hit(3) q hw(1) by (simp add: boundary_def)
qed

lemma rx_free_Cons_iff: "rx_free r p s \<longleftrightarrow> rx_matches r p s = [] \<and> (s = [] \<or> rx_free r (Some (hd s)) (tl s))"
  by (cases s) auto

lemma rx_free_drop: "rx_free r p s \<Longrightarrow> n \<le> length s \<Longrightarrow> rx_free r (prev_after p s n) (drop n s)"
proof (induction s arbitrary: p n)
  case Nil
  then show ?case by (simp add: prev_after_def)
next
  case (Cons c cs)
  show ?case
  proof (cases n)
    case 0
    with Cons.prems show ?thesis by (simp add: prev_after_def)
  next
    case (Suc m)
    then have "rx_free r (prev_after (Some c) cs m) (drop m cs)" using Cons by simp
    moreover have "prev_after (Some c) cs m = prev_after p (c # cs) n"
      using Suc by (cases m) (auto simp: prev_after_def)
    ultimately show ?thesis using Suc by simp
  qed
qed

definition no_prefix :: "(char \<Rightarrow> bool) list \<Rightarrow> string \<Rightarrow> bool" where
  "no_prefix Ps mid \<longleftrightarrow> list_all (\<lambda>t. \<not> all_match Ps t) (suffixes mid)"

lemma all_match_stop:
  "all_match Ps (mid @ d # t) \<Longrightarrow> list_all (\<lambda>P. \<not> P d) Ps \<Longrightarrow> all_match Ps mid"
  by (induction Ps mid rule: all_match.induct) auto

lemma key_free_none: "\<not> all_match Ps s \<Longrightarrow> rx_matches (key_rx Ps P lo hi) p s = []"
proof (rule ccontr)
  assume n: "\<not> all_match Ps s" and "rx_matches (key_rx Ps P lo hi) p s \<noteq> []"
  then obtain k where "k \<in> set (rx_matches (key_rx Ps P lo hi) p s)"
    by (meson last_in_set)
  then have "k \<le> length s" "all_match Ps (take k s)"
    unfolding key_matches key_shape_def by auto
  then have "all_match Ps s"
    by (metis all_match_append all_match_iff append_take_drop_id)
  with n show False ..
qed

lemma key_free_mark:
  assumes K: "key_ok Ps P" and mid: "no_prefix Ps mid" and t: "rx_free (key_rx Ps P lo hi) (Some CHR '']'') t"
  shows "rx_free (key_rx Ps P lo hi) p (CHR ''['' # mid @ CHR '']'' # t)"
proof -
  have nb: "\<not> all_match Ps (CHR ''['' # v)" "\<not> all_match Ps (CHR '']'' # v)" for v
    using K by (cases Ps; simp add: key_ok_def)+
  have nd: "list_all (\<lambda>Q. \<not> Q CHR '']'') Ps"
    using K by (auto simp add: key_ok_def list_all_iff)
  have "rx_free (key_rx Ps P lo hi) q (m @ CHR '']'' # t)" if "suffix m mid" for m q
    using that
  proof (induction m arbitrary: q)
    case Nil
    then show ?case using t key_free_none [OF nb(2)] by simp
  next
    case (Cons c m)
    then have "\<not> all_match Ps (c # m)" using mid by (auto simp: no_prefix_def list_all_iff)
    then have "\<not> all_match Ps ((c # m) @ CHR '']'' # t)"
      using all_match_stop [of Ps "c # m" "CHR '']''" t] nd by blast
    then have a: "rx_matches (key_rx Ps P lo hi) q ((c # m) @ CHR '']'' # t) = []"
      by (rule key_free_none)
    have "suffix m mid" by (rule suffix_ConsD [OF Cons.prems])
    then have b: "rx_free (key_rx Ps P lo hi) (Some c) (m @ CHR '']'' # t)" by (rule Cons.IH)
    show ?case using a b by simp
  qed
  then show ?thesis using key_free_none [OF nb(1)] by simp
qed

theorem key_free_sub:
  assumes K: "key_ok Ps P" and mid: "no_prefix Ps mid"
  shows "clean_sub r \<Longrightarrow> r = key_rx Ps P lo hi \<or> rx_free (key_rx Ps P lo hi) q s \<Longrightarrow> compat p' q s \<Longrightarrow>
    rx_free (key_rx Ps P lo hi) p' (rx_sub r (CHR ''['' # mid @ '']'') q s)"
proof (induction r "CHR ''['' # mid @ '']''" q s arbitrary: p' rule: rx_sub.induct)
  case (1 r q)
  obtain Q Qs where "Ps = Q # Qs" using K by (cases Ps) (auto simp: key_ok_def)
  then show ?case by (simp add: key_free_none)
next
  case (2 r q c cs)
  note r = "2.prems"(1)
  let ?K = "key_rx Ps P lo hi" and ?m = "CHR ''['' # mid @ '']''"
  show ?case
  proof (cases "rx_matches r q (c # cs)")
    case Nil
    then have o: "rx_sub r ?m q (c # cs) = c # rx_sub r ?m (Some c) cs" by simp
    have "rx_matches ?K q (c # cs) = []" using "2.prems"(2) Nil by auto
    then have none: "rx_matches ?K p' (rx_sub r ?m q (c # cs)) = []"
    proof -
      have "k \<notin> set (rx_matches ?K p' (rx_sub r ?m q (c # cs)))" for k
        using key_transfer [OF K r "2.prems"(3), of k lo hi "mid @ '']''"]
          \<open>rx_matches ?K q (c # cs) = []\<close> by auto
      then show ?thesis using hd_in_set by blast
    qed
    moreover have "rx_free ?K (Some c) (rx_sub r ?m (Some c) cs)"
      by (rule "2.hyps"(1) [OF Nil r]) (use "2.prems"(2) in auto)
    ultimately show ?thesis using o none by simp
  next
    case (Cons n ns)
    with r have cl: "0 < n" "\<not> word_opt (head_opt (drop n (c # cs))) \<or> \<not> word_opt (prev_after q (c # cs) n)"
      unfolding clean_sub_def by blast+
    have le: "n \<le> length (c # cs)"
      using matches_le_length [of n r q "c # cs"] Cons by simp
    have dr: "drop n (c # cs) = drop (n - 1) cs" using cl(1) by (cases n) auto
    have pr: "prev_after q (c # cs) n = Some ((c # cs) ! (n - 1))" using cl(1) by (simp add: prev_after_def)
    have "rx_free ?K (Some CHR '']'') (rx_sub r ?m (Some ((c # cs) ! (n - 1))) (drop (n - 1) cs))"
    proof (rule "2.hyps"(3) [OF Cons _ r])
      show "r = ?K \<or> rx_free ?K (Some ((c # cs) ! (n - 1))) (drop (n - 1) cs)"
        using "2.prems"(2) rx_free_drop [OF _ le] dr pr by metis
      show "compat (Some CHR '']'') (Some ((c # cs) ! (n - 1))) (drop (n - 1) cs)"
        using cl(2) dr pr by (auto simp: compat_def)
    qed (use cl in auto)
    then show ?thesis
      using key_free_mark [OF K mid] Cons cl(1) by simp
  qed
qed

section \<open>The five patterns\<close>

lemma lower_char_letter:
  "lower_char d = c \<Longrightarrow> is_lower_az c \<Longrightarrow> is_word d"
  by (auto simp: lower_char_def char_classes Let_def split: if_splits)

lemma key_oks:
  "key_ok (lits ''sk-'') alnum_dash"
  "key_ok (lits ''AIza'') alnum_dash"
  "key_ok (lits ''gh'' @ [\<lambda>c. c \<in> set ''pousr''] @ lits ''_'') alnum"
  "key_ok (lits ''AKIA'') upper_digit"
  by (simp_all add: key_ok_def lits_def alnum_dash_def alnum_def upper_digit_def char_classes)

lemma no_prefixes:
  "no_prefix (lits ''sk-'') ''REDACTED_API_KEY''" "no_prefix (lits ''sk-'') ''REDACTED''"
  "no_prefix (lits ''AIza'') ''REDACTED_API_KEY''" "no_prefix (lits ''AIza'') ''REDACTED''"
  "no_prefix (lits ''gh'' @ [\<lambda>c. c \<in> set ''pousr''] @ lits ''_'') ''REDACTED_API_KEY''"
  "no_prefix (lits ''gh'' @ [\<lambda>c. c \<in> set ''pousr''] @ lits ''_'') ''REDACTED''"
  "no_prefix (lits ''AKIA'') ''REDACTED_API_KEY''" "no_prefix (lits ''AKIA'') ''REDACTED''"
  by (simp_all add: no_prefix_def lits_def)

lemma key_clean:
  assumes K: "key_ok Ps P"
  shows "clean_sub (key_rx Ps P lo hi)"
  unfolding clean_sub_def
proof (intro allI impI)
  fix p s n ns
  assume "rx_matches (key_rx Ps P lo hi) p s = n # ns"
  then have "n \<in> set (rx_matches (key_rx Ps P lo hi) p s)" by simp
  then have m: "n \<le> length s" "boundary p s" "key_shape Ps P lo hi (take n s)"
      "boundary (prev_after p s n) (drop n s)"
    unfolding key_matches by auto
  have "0 < n" using key_head_word(1) [OF K m(3)] by (cases n) auto
  moreover have "word_opt (head_opt s)"
    using key_head_word(2) [OF K m(3), of "drop n s"] by simp
  ultimately show "0 < n \<and> \<not> word_opt p \<and> word_opt (head_opt s) \<and>
     (\<not> word_opt (head_opt (drop n s)) \<or> \<not> word_opt (prev_after p s n))"
    using m(2,4) by (auto simp: boundary_def)
qed

lemma ilits_head:
  "all_match (ilits (c # w)) s \<Longrightarrow> is_lower_az c \<Longrightarrow> word_opt (head_opt s)"
  by (cases s) (auto simp: ilits_def lower_char_letter)

lemma keyword_head:
  assumes "n \<in> set (rx_matches rx_keyword p s)"
  shows "word_opt (head_opt s)"
proof -
  have "is_lower_az CHR ''p''" "is_lower_az CHR ''s''" "is_lower_az CHR ''t''" "is_lower_az CHR ''a''"
    by (simp_all add: char_classes)
  moreover from assms have "all_match (ilits ''password'') s \<or> all_match (ilits ''passwd'') s \<or>
      all_match (ilits ''secret'') s \<or> all_match (ilits ''token'') s \<or> all_match (ilits ''api'') s"
    unfolding rx_keyword_def by (auto simp del: all_match.simps split: if_splits)
  ultimately show ?thesis using ilits_head by blast
qed

lemma assign_head_match:
  assumes "n \<in> set (rx_matches rx_assign_head p s)"
  shows "0 < n" and "\<not> word_opt p" and "word_opt (head_opt s)"
proof -
  have "consumes rx_assign_head" by (simp add: rx_assign_head_def)
  then show "0 < n" using assms by (rule consumes_pos)
  from assms obtain j where "boundary p s" "j \<in> set (rx_matches rx_keyword (prev_after p s 0) (drop 0 s))"
    unfolding rx_assign_head_def cat_matches wb_matches by auto
  then show "word_opt (head_opt s)" and "\<not> word_opt p"
    using keyword_head by (auto simp: boundary_def)
qed

lemma assign_no_look: "no_look rx_assign_head"
  by (simp add: rx_assign_head_def)

lemma assign_avoids: "avoids CHR ''['' rx_assign_head"
  by (simp add: rx_assign_head_def rx_keyword_def ilits_def char_classes lower_char_def)

lemma word_value_char: "is_word c \<Longrightarrow> value_char c"
proof -
  have "\<not> is_word CHR '',''" "\<not> is_word CHR '';''" by (simp_all add: char_classes)
  then show "is_word c \<Longrightarrow> value_char c" using is_space_not_word by (auto simp: value_char_def)
qed

lemma assign_clean: "clean_sub rx_assign"
  unfolding clean_sub_def
proof (intro allI impI)
  fix p s n ns
  assume m: "rx_matches rx_assign p s = n # ns"
  then have "n \<in> set (rx_matches rx_assign p s)" by simp
  then obtain i j where ij: "n = i + j" "i \<in> set (rx_matches rx_assign_head p s)"
    unfolding rx_assign_def cat_matches by blast
  have "drop n s = [] \<or> \<not> value_char (hd (drop n s))"
    using greedy_end_Cat [OF greedy_end_Rep, of rx_assign_head value_char 1] m
    unfolding rx_assign_def greedy_end_def by blast
  then have "\<not> word_opt (head_opt (drop n s))"
    by (cases "drop n s") (auto dest: word_value_char)
  then show "0 < n \<and> \<not> word_opt p \<and> word_opt (head_opt s) \<and>
     (\<not> word_opt (head_opt (drop n s)) \<or> \<not> word_opt (prev_after p s n))"
    using assign_head_match [OF ij(2)] ij(1) by simp
qed

lemma assign_none:
  assumes "\<not> word_opt (head_opt s) \<or> rx_matches rx_keyword p s = []"
  shows "rx_matches rx_assign p s = []"
proof (rule ccontr)
  assume "rx_matches rx_assign p s \<noteq> []"
  then obtain n where "n \<in> set (rx_matches rx_assign p s)" by (meson last_in_set)
  then obtain i where i: "i \<in> set (rx_matches rx_assign_head p s)"
    unfolding rx_assign_def cat_matches by blast
  then obtain j where "j \<in> set (rx_matches rx_keyword (prev_after p s 0) (drop 0 s))"
    unfolding rx_assign_head_def cat_matches wb_matches by auto
  then have "rx_matches rx_keyword p s \<noteq> []" by (auto simp: prev_after_def simp del: rx_matches.simps)
  with assms assign_head_match(3) [OF i] show False by blast
qed

lemma assign_transfer:
  assumes comp: "compat p' q s" and none: "rx_matches rx_assign q s = []"
  shows "rx_matches rx_assign p' (rx_sub rx_assign (CHR ''['' # x) q s) = []"
proof (rule ccontr)
  let ?o = "rx_sub rx_assign (CHR ''['' # x) q s"
  assume "rx_matches rx_assign p' ?o \<noteq> []"
  then obtain n where "n \<in> set (rx_matches rx_assign p' ?o)" by (meson last_in_set)
  then obtain i j where i: "i \<in> set (rx_matches rx_assign_head p' ?o)"
      and j: "j \<in> set (rx_matches (Rep value_char 1 None) (prev_after p' ?o i) (drop i ?o))"
    unfolding rx_assign_def cat_matches by blast
  define u where "u = take i ?o"
  have le: "i \<le> length ?o" using matches_le_length [OF i] .
  then have o: "?o = u @ drop i ?o" "length u = i" by (simp_all add: u_def)
  have "CHR ''['' \<notin> set u" unfolding u_def by (rule matches_avoid [OF assign_avoids i])
  from rx_sub_prefix [OF o(1) this] obtain w' where
    s: "s = u @ w'" and d: "drop i ?o = rx_sub rx_assign (CHR ''['' # x) (prev_after q u i) w'"
    using o(2) by auto
  have "u \<noteq> []" using assign_head_match(1) [OF i] o(2) by auto
  then have "head_opt s = head_opt ?o" using s o(1) by (metis append_Cons head_opt_Cons neq_Nil_conv)
  then have q: "word_opt p' = word_opt q"
    using comp assign_head_match(3) [OF i] by (auto simp: compat_def)
  have tk: "take i s = u" "i \<le> length s" using s o(2) by auto
  have hd: "i \<in> set (rx_matches rx_assign_head q s)"
    by (rule matches_no_look [OF assign_no_look i _ le tk(2) q]) (simp add: tk u_def)
  obtain c t where ct: "drop i ?o = c # t" "value_char c"
  proof (cases "drop i ?o")
    case Nil
    with j show ?thesis unfolding rep_matches by auto
  next
    case (Cons c t)
    moreover have "j \<noteq> 0" using j unfolding rep_matches by simp
    ultimately show ?thesis using j that unfolding rep_matches by (cases j) auto
  qed
  obtain c' t' where w: "w' = c' # t'" "value_char c'"
  proof (cases w')
    case Nil
    with d ct(1) show ?thesis by simp
  next
    case (Cons c' t')
    have "Some c = Some c' \<or> is_word c'"
      using head_sub [OF assign_clean, of x "prev_after q u i" w'] d ct(1) Cons by (metis head_opt_Cons word_opt_simps(2))
    with ct(2) Cons that show ?thesis using word_value_char by auto
  qed
  have "1 \<in> set (rx_matches (Rep value_char 1 None) (prev_after q s i) (drop i s))"
    unfolding rep_matches using s o(2) w by simp
  with hd none show False unfolding rx_assign_def using cat_matches by (metis empty_iff list.set(1))
qed

lemma lower_marks:
  "lower_char CHR ''R'' = CHR ''r''" "lower_char CHR ''E'' = CHR ''e''" "lower_char CHR ''D'' = CHR ''d''"
  "lower_char CHR ''A'' = CHR ''a''" "lower_char CHR ''C'' = CHR ''c''" "lower_char CHR ''T'' = CHR ''t''"
  by (simp_all only: cp_inject [symmetric] cp_lower_char) (simp_all add: cp_def)

lemma assign_free_mark:
  assumes "rx_free rx_assign (Some CHR '']'') t"
  shows "rx_free rx_assign p (secret_mark @ t)"
proof -
  have kw: "rx_matches rx_keyword q (''REDACTED]'' @ t) = []" "rx_matches rx_keyword q (''EDACTED]'' @ t) = []"
    "rx_matches rx_keyword q (''DACTED]'' @ t) = []" "rx_matches rx_keyword q (''ACTED]'' @ t) = []"
    "rx_matches rx_keyword q (''CTED]'' @ t) = []" "rx_matches rx_keyword q (''TED]'' @ t) = []"
    "rx_matches rx_keyword q (''ED]'' @ t) = []" "rx_matches rx_keyword q (''D]'' @ t) = []" for q
    by (simp_all add: rx_keyword_def ilits_def lower_marks)
  note kws = kw [THEN disjI2, THEN assign_none, simplified append_Cons append_Nil]
  have b: "rx_matches rx_assign q (CHR ''['' # v) = []" "rx_matches rx_assign q (CHR '']'' # v) = []" for q v
    by (simp_all add: assign_none)
  show ?thesis
    unfolding secret_mark_def append_Cons append_Nil rx_free.simps kws b using assms by simp
qed

theorem assign_free_sub:
  "compat p' q s \<Longrightarrow> rx_free rx_assign p' (rx_sub rx_assign secret_mark q s)"
proof (induction rx_assign secret_mark q s arbitrary: p' rule: rx_sub.induct)
  case (1 q)
  show ?case by (simp add: assign_none)
next
  case (2 q c cs)
  have mk: "secret_mark = CHR ''['' # ''REDACTED]''" by (simp add: secret_mark_def)
  show ?case
  proof (cases "rx_matches rx_assign q (c # cs)")
    case Nil
    have "rx_matches rx_assign p' (rx_sub rx_assign secret_mark q (c # cs)) = []"
      unfolding mk by (rule assign_transfer [OF 2(4) Nil])
    with "2.hyps"(1) [OF Nil compat_refl] Nil show ?thesis by simp
  next
    case (Cons n ns)
    with assign_clean have cl: "0 < n"
        "\<not> word_opt (head_opt (drop n (c # cs))) \<or> \<not> word_opt (prev_after q (c # cs) n)"
      unfolding clean_sub_def by blast+
    have dr: "drop n (c # cs) = drop (n - 1) cs" using cl(1) by (cases n) auto
    have pr: "prev_after q (c # cs) n = Some ((c # cs) ! (n - 1))" using cl(1) by (simp add: prev_after_def)
    have "rx_free rx_assign (Some CHR '']'') (rx_sub rx_assign secret_mark (Some ((c # cs) ! (n - 1))) (drop (n - 1) cs))"
    proof (rule "2.hyps"(3) [OF Cons])
      show "compat (Some CHR '']'') (Some ((c # cs) ! (n - 1))) (drop (n - 1) cs)"
        using cl(2) dr pr by (auto simp: compat_def)
    qed (use cl in auto)
    then show ?thesis using assign_free_mark Cons cl(1) by simp
  qed
qed

section \<open>Redacted text is free of secrets\<close>

lemma redact_secrets_eq:
  "redact_secrets t = rx_sub rx_assign secret_mark None (rx_sub rx_aws api_key_mark None
     (rx_sub rx_github api_key_mark None (rx_sub rx_google api_key_mark None
       (rx_sub rx_openai api_key_mark None t))))"
  by (simp add: redact_secrets_def secret_patterns_def)

lemmas key_rx_defs = rx_openai_def rx_google_def rx_github_def rx_aws_def

lemma marks:
  "api_key_mark = CHR ''['' # ''REDACTED_API_KEY'' @ '']''"
  "secret_mark = CHR ''['' # ''REDACTED'' @ '']''"
  by (simp_all add: api_key_mark_def secret_mark_def)

lemma redact_secret_free: "secret_free (redact_secrets t)"
proof -
  note c = key_clean [OF key_oks(1)] key_clean [OF key_oks(2)] key_clean [OF key_oks(3)]
    key_clean [OF key_oks(4)] assign_clean
  note step = key_free_sub [OF key_oks(1) no_prefixes(1)] key_free_sub [OF key_oks(1) no_prefixes(2)]
    key_free_sub [OF key_oks(2) no_prefixes(3)] key_free_sub [OF key_oks(2) no_prefixes(4)]
    key_free_sub [OF key_oks(3) no_prefixes(5)] key_free_sub [OF key_oks(3) no_prefixes(6)]
    key_free_sub [OF key_oks(4) no_prefixes(7)] key_free_sub [OF key_oks(4) no_prefixes(8)]
  have "rx_free rx_openai None (redact_secrets t)"
    unfolding redact_secrets_eq key_rx_defs marks
    by (rule step(2) [OF c(5) disjI2], rule step(1) [OF c(4) disjI2], rule step(1) [OF c(3) disjI2],
        rule step(1) [OF c(2) disjI2], rule step(1) [OF c(1) disjI1]) simp_all
  moreover have "rx_free rx_google None (redact_secrets t)"
    unfolding redact_secrets_eq key_rx_defs marks
    by (rule step(4) [OF c(5) disjI2], rule step(3) [OF c(4) disjI2], rule step(3) [OF c(3) disjI2],
        rule step(3) [OF c(2) disjI1]) simp_all
  moreover have "rx_free rx_github None (redact_secrets t)"
    unfolding redact_secrets_eq key_rx_defs marks
    by (rule step(6) [OF c(5) disjI2], rule step(5) [OF c(4) disjI2], rule step(5) [OF c(3) disjI1]) simp_all
  moreover have "rx_free rx_aws None (redact_secrets t)"
    unfolding redact_secrets_eq key_rx_defs marks
    by (rule step(8) [OF c(5) disjI2], rule step(7) [OF c(4) disjI1]) simp_all
  moreover have "rx_free rx_assign None (redact_secrets t)"
    unfolding redact_secrets_eq by (rule assign_free_sub) simp
  ultimately show ?thesis by (simp add: secret_free_def secret_patterns_def)
qed

lemma redact_free_id: "secret_free t \<Longrightarrow> redact_secrets t = t"
  by (simp add: redact_secrets_eq secret_free_def secret_patterns_def rx_sub_free)

lemma redact_idem: "redact_secrets (redact_secrets t) = redact_secrets t"
  by (rule redact_free_id [OF redact_secret_free])

section \<open>Evaluation\<close>

text \<open>
  Most texts lack the characters every match of a pattern contains, so redaction can be evaluated
  without trying the patterns.
\<close>

fun needs :: "char set \<Rightarrow> rx \<Rightarrow> bool" where
  \<comment> \<open>every match contains a character of the set\<close>
  "needs D (Str Ps) = (\<exists>Q \<in> set Ps. \<forall>c. Q c \<longrightarrow> c \<in> D)"
| "needs D (Rep P lo hi) = False"
| "needs D WB = False"
| "needs D (Cat a b) = (needs D a \<or> needs D b)"
| "needs D (Alt a b) = (needs D a \<and> needs D b)"

lemma needs_none: "needs D r \<Longrightarrow> set s \<inter> D = {} \<Longrightarrow> rx_matches r p s = []"
proof (induction r arbitrary: p s)
  case (Str Ps)
  then obtain Q where Q: "Q \<in> set Ps" "\<forall>c. Q c \<longrightarrow> c \<in> D" by auto
  have "\<not> all_match Ps s"
  proof
    assume "all_match Ps s"
    then obtain c where "c \<in> set s" "Q c"
      using Q(1) unfolding all_match_iff by (metis in_set_conv_nth less_le_trans)
    with Q(2) Str.prems(2) show False by auto
  qed
  then show ?case by simp
next
  case (Cat a b)
  have "set (drop n s) \<inter> D = {}" for n using Cat.prems(2) set_drop_subset by fastforce
  with Cat show ?case by auto
qed auto

lemma needs_free: "needs D r \<Longrightarrow> set s \<inter> D = {} \<Longrightarrow> rx_free r p s"
proof (induction s arbitrary: p)
  case (Cons c cs)
  then show ?case using needs_none [OF Cons.prems] by (simp del: rx_matches.simps)
qed (simp add: needs_none)

definition lacks :: "string \<Rightarrow> string \<Rightarrow> bool" where
  "lacks cs t \<longleftrightarrow> list_all (\<lambda>c. c \<notin> set cs) t"

definition plain_text :: "string \<Rightarrow> bool" where
  \<comment> \<open>for every pattern, a set of characters it needs is absent\<close>
  "plain_text t \<longleftrightarrow> (lacks '':='' t \<or> lacks ''wWkKtT'' t) \<and> (lacks ''-'' t \<or> lacks ''k'' t) \<and>
     (lacks ''z'' t \<or> lacks ''A'' t) \<and> (lacks ''_'' t \<or> lacks ''h'' t) \<and> (lacks ''A'' t \<or> lacks ''K'' t)"

lemma lacks_free: "lacks cs t \<Longrightarrow> needs (set cs) r \<Longrightarrow> rx_free r None t"
  by (rule needs_free) (auto simp: lacks_def list_all_iff)

lemma lower_char_wkt:
  "lower_char c = CHR ''w'' \<Longrightarrow> c \<in> set ''wW''" "lower_char c = CHR ''k'' \<Longrightarrow> c \<in> set ''kK''"
  "lower_char c = CHR ''t'' \<Longrightarrow> c \<in> set ''tT''"
  by (auto simp: lower_char_def Let_def cp_inject [symmetric] cp_def split: if_splits)

lemma pattern_needs:
  "needs (set '':='') rx_assign" "needs (set ''wWkKtT'') rx_assign"
  "needs (set ''-'') rx_openai" "needs (set ''k'') rx_openai"
  "needs (set ''z'') rx_google" "needs (set ''A'') rx_google"
  "needs (set ''_'') rx_github" "needs (set ''h'') rx_github"
  "needs (set ''A'') rx_aws" "needs (set ''K'') rx_aws"
  by (auto simp: key_rx_defs key_rx_def lits_def ilits_def rx_assign_def rx_assign_head_def rx_keyword_def dest!: lower_char_wkt)

lemma plain_text_free: "plain_text t \<Longrightarrow> secret_free t"
  using pattern_needs by (auto simp: plain_text_def secret_free_def secret_patterns_def dest: lacks_free)

lemma redact_plain: "plain_text t \<Longrightarrow> redact_secrets t = t"
  by (rule redact_free_id [OF plain_text_free])

lemma redact_secrets_code [code]:
  "redact_secrets t = (if plain_text t then t
     else foldl (\<lambda>t (pattern, replacement). rx_sub pattern replacement None t) t secret_patterns)"
  using redact_plain by (simp add: redact_secrets_def)

section \<open>Redactors\<close>

text \<open>
  A redactor is a function whose output it leaves alone. The structures the source redacts field
  by field (JSON values, plans, audit rows) inherit this from the redactor of their strings.
\<close>

locale redactor =
  fixes redact :: "'a \<Rightarrow> 'a"
  assumes redact_twice: "redact (redact x) = redact x"
begin

lemma map_twice: "map redact (map redact xs) = map redact xs"
  by (simp add: redact_twice)

lemma option_twice: "map_option redact (map_option redact x) = map_option redact x"
  by (cases x) (simp_all add: redact_twice)

lemma stable_iff: "redact x = x \<longleftrightarrow> x \<in> range redact"
  using redact_twice by (metis imageE rangeI)

lemma all_stable: "y \<in> set (map redact xs) \<Longrightarrow> redact y = y"
  using redact_twice by auto

end

interpretation secrets: redactor redact_secrets
  by unfold_locales (rule redact_idem)

section \<open>Properties\<close>

text \<open>
  C3. No text that leaves \<open>redact_secrets\<close> contains a match of any of the five secret
  patterns, although each pattern is substituted once only.
\<close>
theorem redacted_text_has_no_secret: "secret_free (redact_secrets t)"
  by (rule redact_secret_free)

text \<open>
  Redaction is idempotent, and leaves a text without secrets as it is.
\<close>
theorem redaction_stable:
  "redact_secrets (redact_secrets t) = redact_secrets t \<and> (secret_free t \<longrightarrow> redact_secrets t = t)"
  using redact_idem redact_free_id by blast

theorem redaction_stable_witness: "redact_secrets (redact_secrets ''plain'') = redact_secrets ''plain''"
  using redaction_stable by blast

text \<open>
  Redaction can lengthen a text: a seven character assignment becomes the ten character mark.
  A length bound checked before redaction need not hold after it.
\<close>
theorem redaction_can_lengthen:
  "redact_secrets ''token=x'' = ''[REDACTED]'' \<and> length ''token=x'' < length (redact_secrets ''token=x'')"
  by code_simp

end
