(* ===== verification/Json.thy ===== *)
theory Json
  imports Redact
begin

text \<open>
  JSON values as the \<open>JSONB\<close> columns and checkpoints hold them (an object is its list of
  members, in insertion order) and \<open>redact_json\<close> of \<open>app/services/audit_writer.py\<close>.
  Every value of this type is JSON-serializable, so the \<open>json.dumps\<close> checks of the source,
  which exist for values that are not, always pass here.
\<close>

datatype json =
    JNull
  | JBool bool
  | JInt int
  | JFloat rat
  | JStr string
  | JList "json list"
  | JObj "(string \<times> json) list"

primrec redact_json :: "json \<Rightarrow> json" where
  "redact_json JNull = JNull"
| "redact_json (JBool b) = JBool b"
| "redact_json (JInt i) = JInt i"
| "redact_json (JFloat x) = JFloat x"
| "redact_json (JStr s) = JStr (redact_secrets s)"
| "redact_json (JList xs) = JList (map redact_json xs)"
| "redact_json (JObj kvs) = JObj (map (map_prod id redact_json) kvs)"

primrec json_strings :: "json \<Rightarrow> string list" where
  \<comment> \<open>every string value, at any depth; the keys of objects are not values\<close>
  "json_strings JNull = []"
| "json_strings (JBool b) = []"
| "json_strings (JInt i) = []"
| "json_strings (JFloat x) = []"
| "json_strings (JStr s) = [s]"
| "json_strings (JList xs) = concat (map json_strings xs)"
| "json_strings (JObj kvs) = concat (map snd (map (map_prod id json_strings) kvs))"

definition jget :: "string \<Rightarrow> json \<Rightarrow> json option" where
  \<comment> \<open>\<open>d.get(key)\<close> on an object\<close>
  "jget k j = (case j of JObj kvs \<Rightarrow> map_of kvs k | _ \<Rightarrow> None)"

fun jtruthy :: "json option \<Rightarrow> bool" where
  \<comment> \<open>Python's truth value of an optional JSON value\<close>
  "jtruthy None = False"
| "jtruthy (Some JNull) = False"
| "jtruthy (Some (JBool b)) = b"
| "jtruthy (Some (JInt i)) = (i \<noteq> 0)"
| "jtruthy (Some (JFloat x)) = (x \<noteq> 0)"
| "jtruthy (Some (JStr s)) = (s \<noteq> [])"
| "jtruthy (Some (JList xs)) = (xs \<noteq> [])"
| "jtruthy (Some (JObj kvs)) = (kvs \<noteq> [])"

definition jopt :: "('a \<Rightarrow> json) \<Rightarrow> 'a option \<Rightarrow> json" where
  "jopt f x = (case x of None \<Rightarrow> JNull | Some y \<Rightarrow> f y)"

definition json_secret_free :: "json \<Rightarrow> bool" where
  "json_secret_free j \<longleftrightarrow> (\<forall>s \<in> set (json_strings j). secret_free s)"

lemma redact_json_twice: "redact_json (redact_json j) = redact_json j"
proof (induction j)
  case (JObj kvs)
  then show ?case by (force simp: map_prod_def split_def)
qed (auto simp: redact_idem)

interpretation js: redactor redact_json
  by unfold_locales (rule redact_json_twice)

lemma redact_json_free: "json_secret_free (redact_json j)"
proof (induction j)
  case (JObj kvs)
  then show ?case by (force simp: json_secret_free_def)
qed (auto simp: redact_secret_free json_secret_free_def)

lemma jget_redact: "jget k (redact_json j) = map_option redact_json (jget k j)"
proof (cases j)
  case (JObj kvs)
  have "map_of (map (map_prod id redact_json) kvs) k = map_option redact_json (map_of kvs k)"
    by (induction kvs) auto
  with JObj show ?thesis by (simp add: jget_def)
qed (simp_all add: jget_def)

text \<open>
  No string value at any depth of a redacted JSON value contains a secret; redacting it again
  changes nothing; and looking up a member commutes with redaction, so no member is lost.
\<close>
theorem redacted_json_has_no_secret:
  "json_secret_free (redact_json j) \<and> redact_json (redact_json j) = redact_json j \<and>
   jget k (redact_json j) = map_option redact_json (jget k j)"
  using redact_json_free js.redact_twice jget_redact by blast

end
