(* ===== verification/Errors.thy ===== *)
theory Errors
  imports Pystr
begin

text \<open>
  The exceptions the source raises or handles, one constructor per class, carrying the message
  where the source builds one, and the results of calls that may raise: \<open>Inl\<close> the
  exception, \<open>Inr\<close> the value. \<open>is_value_error\<close> is the subclass test that an
  \<open>except ValueError\<close> clause performs.
\<close>

datatype exn =
    ValueError string
  | KeyErr string
  | TypeErr string
  | RuntimeErr string
  | ValidationError string             \<comment> \<open>Pydantic's, a \<open>ValueError\<close>\<close>
  | NegativeCostError string
  | RunNotFoundError string
  | AllowlistDeniedError string
  | SearchProviderError string
  | RSSParseError string
  | BlobNotFoundError string
  | FetchError string
  | QuarantineError string
  | CircuitBreakerOpenError string
  | ModelTierError string
  | CircuitBreakerError string
  | AppendOnlyViolation string
  | IntegrityError string              \<comment> \<open>a constraint of the database\<close>
  | RateLimitError string              \<comment> \<open>the three LiteLLM classes the gateway retries\<close>
  | ServiceUnavailableError string
  | APIConnectionError string
  | HTTPException nat string           \<comment> \<open>status code and detail\<close>
  | OtherError string                  \<comment> \<open>any other class, raised by a library\<close>

fun exn_message :: "exn \<Rightarrow> string" where
  "exn_message (ValueError m) = m"
| "exn_message (KeyErr m) = m"
| "exn_message (TypeErr m) = m"
| "exn_message (RuntimeErr m) = m"
| "exn_message (ValidationError m) = m"
| "exn_message (NegativeCostError m) = m"
| "exn_message (RunNotFoundError m) = m"
| "exn_message (AllowlistDeniedError m) = m"
| "exn_message (SearchProviderError m) = m"
| "exn_message (RSSParseError m) = m"
| "exn_message (BlobNotFoundError m) = m"
| "exn_message (FetchError m) = m"
| "exn_message (QuarantineError m) = m"
| "exn_message (CircuitBreakerOpenError m) = m"
| "exn_message (ModelTierError m) = m"
| "exn_message (CircuitBreakerError m) = m"
| "exn_message (AppendOnlyViolation m) = m"
| "exn_message (IntegrityError m) = m"
| "exn_message (RateLimitError m) = m"
| "exn_message (ServiceUnavailableError m) = m"
| "exn_message (APIConnectionError m) = m"
| "exn_message (HTTPException n m) = m"
| "exn_message (OtherError m) = m"

fun is_value_error :: "exn \<Rightarrow> bool" where
  "is_value_error (ValueError _) = True"
| "is_value_error (ValidationError _) = True"
| "is_value_error (NegativeCostError _) = True"
| "is_value_error (SearchProviderError _) = True"
| "is_value_error (RSSParseError _) = True"
| "is_value_error (ModelTierError _) = True"
| "is_value_error _ = False"

type_synonym 'a result = "exn + 'a"

fun result_bind :: "'a result \<Rightarrow> ('a \<Rightarrow> 'b result) \<Rightarrow> 'b result" where
  "result_bind (Inl e) f = Inl e"
| "result_bind (Inr x) f = f x"

lemma result_bind_ok: "result_bind r f = Inr y \<longleftrightarrow> (\<exists>x. r = Inr x \<and> f x = Inr y)"
  by (cases r) auto

lemma result_bind_err: "result_bind r f = Inl e \<longleftrightarrow> r = Inl e \<or> (\<exists>x. r = Inr x \<and> f x = Inl e)"
  by (cases r) auto

definition quoted :: "string \<Rightarrow> string" where
  \<comment> \<open>\<open>repr\<close> of a printable text without quotes and backslashes\<close>
  "quoted s = CHR 0x27 # s @ [CHR 0x27]"

end
