(* ===== verification/Overlap.thy ===== *)
theory Overlap
  imports Errors
begin

text \<open>
  The lexical measures: \<open>app/services/support_matrix.py\<close> and the token functions of
  \<open>app/services/contradiction_detector.py\<close>. A ratio is an exact rational. The thresholds 0.5
  and 0.25 are binary fractions, so comparing the correctly rounded quotient with them decides as
  the exact quotient does; for 0.15 and 0.4 this holds as well, since the quotient of two integers
  below ten to the fourteen and the decimal differ, when they differ, by more than the rounding.
  The locale \<open>overlap\<close> holds what the three measures share.
\<close>

section \<open>Tokens\<close>

definition tokenize :: "string \<Rightarrow> string set" where
  "tokenize text = set (token_runs [] (py_casefold text))"

lemma finite_tokenize [simp]: "finite (tokenize t)"
  by (simp add: tokenize_def)

lemma tokenize_blank: "blank t \<Longrightarrow> tokenize t = {}"
proof -
  assume b: "blank t"
  have "\<not> is_token_char d" if "c \<in> set t" "d \<in> set (casefold_char c)" for c d
  proof -
    from b that have s: "is_space c" by (simp add: blank_def)
    then have "cp c \<noteq> 223" "lower_char c = c"
      by (auto simp: is_space_def Let_def cp_inject [symmetric] cp_lower_char)
    with that have "d = c" by (simp add: casefold_char_def)
    with s show ?thesis
      by (auto simp: is_space_def is_token_char_def is_lower_az_def is_digit_def Let_def)
  qed
  then show ?thesis
    by (auto simp: tokenize_def py_casefold_def token_runs_eq_Nil)
qed

section \<open>Overlap measures\<close>

locale overlap =
  fixes measure :: "'a set \<Rightarrow> 'a set \<Rightarrow> rat"
  assumes measure_nonneg: "0 \<le> measure A B"
    and measure_le_1: "finite A \<Longrightarrow> finite B \<Longrightarrow> measure A B \<le> 1"
    and measure_self: "finite A \<Longrightarrow> A \<noteq> {} \<Longrightarrow> measure A A = 1"
    and measure_disjoint: "A \<inter> B = {} \<Longrightarrow> measure A B = 0"
begin

lemma threshold_shares: "0 < t \<Longrightarrow> t \<le> measure A B \<Longrightarrow> A \<inter> B \<noteq> {}"
  using measure_disjoint [of A B] by (metis not_less)

lemma self_reaches: "finite A \<Longrightarrow> A \<noteq> {} \<Longrightarrow> t \<le> 1 \<Longrightarrow> t \<le> measure A A"
  by (simp add: measure_self)

end

definition jaccard_overlap :: "'a set \<Rightarrow> 'a set \<Rightarrow> rat" where
  "jaccard_overlap a b = (if a \<union> b = {} then 0 else of_nat (card (a \<inter> b)) / of_nat (card (a \<union> b)))"

definition containment_overlap :: "'a set \<Rightarrow> 'a set \<Rightarrow> rat" where
  "containment_overlap a b =
     (if a = {} \<or> b = {} then 0
      else min (of_nat (card (a \<inter> b)) / of_nat (card a)) (of_nat (card (a \<inter> b)) / of_nat (card b)))"

definition support_ratio :: "'a set \<Rightarrow> 'a set \<Rightarrow> rat" where
  \<comment> \<open>\<open>len(statement_tokens & passage_tokens) / len(statement_tokens)\<close>\<close>
  "support_ratio a b = of_nat (card (a \<inter> b)) / of_nat (card a)"

lemma part_le_1: "finite a \<Longrightarrow> c \<subseteq> a \<Longrightarrow> (of_nat (card c) :: rat) / of_nat (card a) \<le> 1"
  by (cases "card a = 0") (auto simp: divide_le_eq_1 card_mono card_gt_0_iff)

interpretation jac: overlap jaccard_overlap
proof
  fix A B :: "'a set"
  show "0 \<le> jaccard_overlap A B" by (simp add: jaccard_overlap_def)
  show "finite A \<Longrightarrow> finite B \<Longrightarrow> jaccard_overlap A B \<le> 1"
    unfolding jaccard_overlap_def by (auto intro!: part_le_1)
  show "finite A \<Longrightarrow> A \<noteq> {} \<Longrightarrow> jaccard_overlap A A = 1" by (simp add: jaccard_overlap_def)
  show "A \<inter> B = {} \<Longrightarrow> jaccard_overlap A B = 0" by (simp add: jaccard_overlap_def)
qed

interpretation con: overlap containment_overlap
proof
  fix A B :: "'a set"
  show "0 \<le> containment_overlap A B" by (simp add: containment_overlap_def)
  show "finite A \<Longrightarrow> finite B \<Longrightarrow> containment_overlap A B \<le> 1"
    using part_le_1 [of A "A \<inter> B"] by (auto simp: containment_overlap_def min_le_iff_disj)
  show "finite A \<Longrightarrow> A \<noteq> {} \<Longrightarrow> containment_overlap A A = 1" by (simp add: containment_overlap_def)
  show "A \<inter> B = {} \<Longrightarrow> containment_overlap A B = 0" by (simp add: containment_overlap_def)
qed

interpretation sup: overlap support_ratio
proof
  fix A B :: "'a set"
  show "0 \<le> support_ratio A B" by (simp add: support_ratio_def)
  show "finite A \<Longrightarrow> finite B \<Longrightarrow> support_ratio A B \<le> 1"
    unfolding support_ratio_def by (rule part_le_1) auto
  show "finite A \<Longrightarrow> A \<noteq> {} \<Longrightarrow> support_ratio A A = 1" by (simp add: support_ratio_def)
  show "A \<inter> B = {} \<Longrightarrow> support_ratio A B = 0" by (simp add: support_ratio_def)
qed

section \<open>The support matrix\<close>

datatype evidence_score = NONE | PARTIAL | FULL

fun score_value :: "evidence_score \<Rightarrow> string" where
  "score_value FULL = ''full''"
| "score_value PARTIAL = ''partial''"
| "score_value NONE = ''none''"

fun score_rank :: "evidence_score \<Rightarrow> nat" where
  "score_rank NONE = 0"
| "score_rank PARTIAL = 1"
| "score_rank FULL = 2"

instantiation evidence_score :: linorder
begin

definition less_eq_evidence_score :: "evidence_score \<Rightarrow> evidence_score \<Rightarrow> bool" where
  "less_eq_evidence_score a b \<longleftrightarrow> score_rank a \<le> score_rank b"

definition less_evidence_score :: "evidence_score \<Rightarrow> evidence_score \<Rightarrow> bool" where
  "less_evidence_score a b \<longleftrightarrow> score_rank a < score_rank b"

instance
proof
  fix a b :: evidence_score
  show "a \<le> b \<Longrightarrow> b \<le> a \<Longrightarrow> a = b"
    by (cases a; cases b) (simp_all add: less_eq_evidence_score_def)
qed (auto simp: less_eq_evidence_score_def less_evidence_score_def)

end

definition full_threshold :: rat where "full_threshold = 1 / 2"
definition partial_threshold :: rat where "partial_threshold = 1 / 4"

definition grade :: "rat \<Rightarrow> evidence_score" where
  \<comment> \<open>the comparisons at the end of \<open>score_support\<close>\<close>
  "grade ratio = (if full_threshold \<le> ratio then FULL else if partial_threshold \<le> ratio then PARTIAL else NONE)"

definition score_support :: "string \<Rightarrow> string \<Rightarrow> (evidence_score \<times> rat) result" where
  "score_support statement_text passage_text =
     (if blank statement_text then Inl (ValueError ''statement text must be non-empty'')
      else
        let statement_tokens = tokenize statement_text
        in if statement_tokens = {} then Inl (ValueError ''statement text must contain at least one word'')
           else if blank passage_text then Inr (NONE, 0)
           else
             let ratio = support_ratio statement_tokens (tokenize passage_text)
             in Inr (grade ratio, ratio))"

lemma grade_mono: "p \<le> q \<Longrightarrow> grade p \<le> grade q"
  by (auto simp: grade_def less_eq_evidence_score_def full_threshold_def partial_threshold_def)

lemma score_support_eq:
  "score_support s p =
     (if blank s then Inl (ValueError ''statement text must be non-empty'')
      else if tokenize s = {} then Inl (ValueError ''statement text must contain at least one word'')
      else Inr (grade (support_ratio (tokenize s) (tokenize p)), support_ratio (tokenize s) (tokenize p)))"
  by (simp add: score_support_def Let_def tokenize_blank support_ratio_def grade_def full_threshold_def
      partial_threshold_def)

lemma score_support_mono:
  assumes "score_support s p = Inr (a, x)" and "score_support s q = Inr (b, y)"
    and "tokenize p \<subseteq> tokenize q"
  shows "a \<le> b \<and> x \<le> y"
proof -
  have "card (tokenize s \<inter> tokenize p) \<le> card (tokenize s \<inter> tokenize q)"
    using assms(3) by (intro card_mono) auto
  then have "support_ratio (tokenize s) (tokenize p) \<le> support_ratio (tokenize s) (tokenize q)"
    unfolding support_ratio_def by (intro divide_right_mono) simp_all
  with assms(1,2) show ?thesis by (auto simp: score_support_eq grade_mono split: if_splits)
qed

section \<open>Negation\<close>

definition candidate_overlap_threshold :: rat where "candidate_overlap_threshold = 15 / 100"
definition confirm_overlap_threshold :: rat where "confirm_overlap_threshold = 4 / 10"

definition negation_markers :: "string set" where
  "negation_markers = {''not'', ''no'', ''never'', ''none'', ''without'', ''fails'', ''refutes'', ''denies'',
     ''disputes'', ''contradicts'', ''unable''}"

definition has_negation_markers :: "string \<Rightarrow> bool" where
  "has_negation_markers text \<longleftrightarrow> tokenize text \<inter> negation_markers \<noteq> {}"

definition negation_signal :: "string \<Rightarrow> string \<Rightarrow> bool" where
  "negation_signal a_text b_text =
     (if containment_overlap (tokenize a_text) (tokenize b_text) < confirm_overlap_threshold then False
      else has_negation_markers a_text \<noteq> has_negation_markers b_text)"

lemma containment_commute: "containment_overlap a b = containment_overlap b a"
  by (auto simp: containment_overlap_def Int_commute min.commute)

lemma jaccard_commute: "jaccard_overlap a b = jaccard_overlap b a"
  by (simp add: jaccard_overlap_def Int_commute Un_commute)

section \<open>Properties\<close>

text \<open>
  Scoring fails exactly when the statement has no word; otherwise the ratio lies between 0 and 1,
  it reaches 1 on the statement's own text, and the grade is full from one half on, partial from
  one quarter on and none below.
\<close>
theorem score_support_grades:
  "case score_support s p of
     Inl e \<Rightarrow> is_value_error e \<and> tokenize s = {}
   | Inr (score, ratio) \<Rightarrow> tokenize s \<noteq> {} \<and> 0 \<le> ratio \<and> ratio \<le> 1 \<and>
       (score = FULL \<longleftrightarrow> 1 / 2 \<le> ratio) \<and> (score = NONE \<longleftrightarrow> ratio < 1 / 4) \<and>
       score_support s s = Inr (FULL, 1)"
  using sup.measure_nonneg [of "tokenize s" "tokenize p"] sup.measure_le_1 [of "tokenize s" "tokenize p"]
    sup.measure_self [of "tokenize s"]
  by (auto simp: score_support_eq tokenize_blank grade_def full_threshold_def partial_threshold_def)

text \<open>
  A passage that shares no word with the statement grades it none, whatever else it says, so
  the judge is never consulted; adding text to a passage never lowers the grade.
\<close>
theorem score_support_monotone:
  assumes "score_support s p = Inr (a, x)" and "score_support s q = Inr (b, y)"
  shows "(tokenize s \<inter> tokenize p = {} \<longrightarrow> a = NONE \<and> x = 0) \<and> (tokenize p \<subseteq> tokenize q \<longrightarrow> a \<le> b \<and> x \<le> y)"
proof -
  have "a = NONE \<and> x = 0" if "tokenize s \<inter> tokenize p = {}"
    using assms(1) sup.measure_disjoint [OF that]
    by (auto simp: score_support_eq grade_def full_threshold_def partial_threshold_def split: if_splits)
  with score_support_mono [OF assms] show ?thesis by blast
qed

theorem score_support_monotone_witness:
  "score_support ''a b'' ''a'' = Inr (FULL, 1 / 2) \<and> score_support ''a b'' ''c'' = Inr (NONE, 0)"
proof -
  have full: "score_support ''a b'' ''a'' = Inr (FULL, 1 / 2)" by code_simp
  have "score_support ''a b'' ''c'' = Inr (NONE, 0)" by code_simp
  moreover have "tokenize ''a b'' \<inter> tokenize ''c'' = {}" by code_simp
  ultimately show ?thesis using score_support_monotone [OF _ full, of "''c''" NONE 0] full by blast
qed

text \<open>
  The negation signal does not depend on the order of the two statements, requires a shared
  word, and never fires on two copies of one statement.
\<close>
theorem negation_signal_symmetric:
  "negation_signal a b = negation_signal b a \<and> \<not> negation_signal a a \<and>
   (negation_signal a b \<longrightarrow> tokenize a \<inter> tokenize b \<noteq> {})"
proof -
  have "tokenize a \<inter> tokenize b \<noteq> {}" if "negation_signal a b"
    using that con.threshold_shares [of confirm_overlap_threshold "tokenize a" "tokenize b"]
    by (auto simp: negation_signal_def confirm_overlap_threshold_def split: if_splits)
  then show ?thesis by (auto simp: negation_signal_def containment_commute)
qed

theorem negation_signal_symmetric_witness: "negation_signal ''a'' ''b'' = negation_signal ''b'' ''a''"
  using negation_signal_symmetric by blast

end
