(* ===== verification/Chunking.thy ===== *)
theory Chunking
  imports Pystr
begin

text \<open>
  Passage chunking of \<open>app/services/normalizer.py\<close>: \<open>_paragraph_spans\<close>,
  \<open>_hard_split\<close> and \<open>chunk_passages\<close>. The splitting loop does not return
  when the maximal length is zero, so it is an option-valued partial function and its
  termination for a positive maximum is a theorem. \<open>tiles\<close> is the abstract contract: the
  chunks partition the text.
\<close>

section \<open>Spans and chunks\<close>

record chunk =
  ch_text :: string
  ch_start :: nat
  ch_end :: nat

definition slice :: "string \<Rightarrow> nat \<Rightarrow> nat \<Rightarrow> string" where
  \<comment> \<open>\<open>text[i:j]\<close>\<close>
  "slice text i j = take (j - i) (drop i text)"

definition rfind_in :: "char \<Rightarrow> string \<Rightarrow> nat \<Rightarrow> nat \<Rightarrow> nat option" where
  \<comment> \<open>\<open>text.rfind(c, i, j)\<close>\<close>
  "rfind_in c text i j = map_option ((+) i) (rfind_char c (slice text i j))"

fun span_scan :: "nat \<Rightarrow> nat \<Rightarrow> string \<Rightarrow> (nat \<times> nat) list" where
  \<comment> \<open>the matches of two newlines from the left, then the rest of the text\<close>
  "span_scan cursor pos (a # b # cs) =
     (if a = nl \<and> b = nl then (cursor, pos + 2) # span_scan (pos + 2) (pos + 2) cs
      else span_scan cursor (pos + 1) (b # cs))"
| "span_scan cursor pos [a] = [(cursor, pos + 1)]"
| "span_scan cursor pos [] = (if cursor < pos then [(cursor, pos)] else [])"

definition paragraph_spans :: "string \<Rightarrow> (nat \<times> nat) list" where
  "paragraph_spans text = span_scan 0 0 text"

definition spans_length :: "(nat \<times> nat) list \<Rightarrow> nat" where
  "spans_length spans = sum_list (map (\<lambda>(s, e). e - s) spans)"

definition flush_spans :: "(nat \<times> nat) list \<Rightarrow> string \<Rightarrow> chunk" where
  "flush_spans spans text =
     (let s = fst (hd spans); e = snd (last spans)
      in \<lparr>ch_text = slice text s e, ch_start = s, ch_end = e\<rparr>)"

definition split_at :: "string \<Rightarrow> nat \<Rightarrow> nat \<Rightarrow> nat" where
  \<comment> \<open>where the next piece of an oversized paragraph ends\<close>
  "split_at text cursor max_chars =
     (let candidate = cursor + max_chars
      in case rfind_in CHR '' '' text (cursor + 1) (candidate + 1) of Some c \<Rightarrow> c | None \<Rightarrow> candidate)"

partial_function (option) hard_split :: "string \<Rightarrow> nat \<Rightarrow> nat \<Rightarrow> nat \<Rightarrow> chunk list option" where
  "hard_split text cursor stop max_chars =
     (if stop - cursor > max_chars
      then Option.bind (hard_split text (split_at text cursor max_chars) stop max_chars)
        (\<lambda>pieces. Some (\<lparr>ch_text = slice text cursor (split_at text cursor max_chars), ch_start = cursor,
             ch_end = split_at text cursor max_chars\<rparr> # pieces))
      else Some [\<lparr>ch_text = slice text cursor stop, ch_start = cursor, ch_end = stop\<rparr>])"

fun chunk_loop :: "string \<Rightarrow> nat \<Rightarrow> nat \<Rightarrow> (nat \<times> nat) list \<Rightarrow> (nat \<times> nat) list \<Rightarrow> chunk list option" where
  "chunk_loop text mn mx current [] = Some (if current = [] then [] else [flush_spans current text])"
| "chunk_loop text mn mx current ((s, e) # spans) =
     (let flushed = (if current = [] then [] else [flush_spans current text])
      in if e - s > mx then
           Option.bind (hard_split text s e mx) (\<lambda>pieces.
             map_option (\<lambda>rest. flushed @ pieces @ rest) (chunk_loop text mn mx [] spans))
         else
           let overflow = (current \<noteq> [] \<and> spans_length current + (e - s) > mx);
               out = (if overflow then flushed else []);
               cur = (if overflow then [] else current) @ [(s, e)]
           in if spans_length cur \<ge> mn
              then map_option (\<lambda>rest. out @ flush_spans cur text # rest) (chunk_loop text mn mx [] spans)
              else map_option (\<lambda>rest. out @ rest) (chunk_loop text mn mx cur spans))"

definition chunk_passages :: "string \<Rightarrow> nat \<Rightarrow> nat \<Rightarrow> chunk list option" where
  "chunk_passages text min_chars max_chars = chunk_loop text min_chars max_chars [] (paragraph_spans text)"

definition chunk_min_chars :: nat where "chunk_min_chars = 500"
definition chunk_max_chars :: nat where "chunk_max_chars = 1200"

section \<open>Tilings\<close>

fun tiles :: "string \<Rightarrow> nat \<Rightarrow> nat \<Rightarrow> chunk list \<Rightarrow> nat \<Rightarrow> bool" where
  \<comment> \<open>the chunks are consecutive non-empty slices of the text, from \<open>i\<close> to \<open>j\<close>, none longer than \<open>mx\<close>\<close>
  "tiles text mx i [] j \<longleftrightarrow> i = j"
| "tiles text mx i (c # cs) j \<longleftrightarrow> ch_start c = i \<and> i < ch_end c \<and> ch_end c \<le> length text \<and>
     ch_end c - i \<le> mx \<and> ch_text c = slice text i (ch_end c) \<and> tiles text mx (ch_end c) cs j"

fun contiguous :: "nat \<Rightarrow> (nat \<times> nat) list \<Rightarrow> nat \<Rightarrow> bool" where
  "contiguous i [] j \<longleftrightarrow> i = j"
| "contiguous i ((s, e) # spans) j \<longleftrightarrow> s = i \<and> i < e \<and> contiguous e spans j"

lemma tiles_append: "tiles text mx i (as @ bs) j \<longleftrightarrow> (\<exists>k. tiles text mx i as k \<and> tiles text mx k bs j)"
  by (induction as arbitrary: i) auto

lemma tiles_le: "tiles text mx i cs j \<Longrightarrow> i \<le> j"
  by (induction cs arbitrary: i) force+

lemma contiguous_append: "contiguous i (as @ bs) j \<longleftrightarrow> (\<exists>k. contiguous i as k \<and> contiguous k bs j)"
  by (induction i as j rule: contiguous.induct) auto

lemma contiguous_le: "contiguous i spans j \<Longrightarrow> i \<le> j"
  by (induction i spans j rule: contiguous.induct) auto

lemma contiguous_ends:
  "contiguous i spans j \<Longrightarrow> spans \<noteq> [] \<Longrightarrow> fst (hd spans) = i \<and> snd (last spans) = j \<and> i < j"
proof (induction i spans j rule: contiguous.induct)
  case (2 i s e spans j)
  then show ?case by (cases "spans = []") auto
qed simp

lemma contiguous_length: "contiguous i spans j \<Longrightarrow> spans_length spans = j - i"
proof (induction i spans j rule: contiguous.induct)
  case (2 i s e spans j)
  then show ?case using contiguous_le [of e spans j] by (auto simp: spans_length_def)
qed (simp add: spans_length_def)

lemma slice_append: "i \<le> j \<Longrightarrow> j \<le> k \<Longrightarrow> slice text i j @ slice text j k = slice text i k"
  unfolding slice_def by (rule take_drop_sub)

lemma tiles_text: "tiles text mx i cs j \<Longrightarrow> concat (map ch_text cs) = slice text i j"
proof (induction cs arbitrary: i)
  case (Cons c cs)
  then have "concat (map ch_text cs) = slice text (ch_end c) j" "ch_end c \<le> j"
    by (auto dest: tiles_le)
  with Cons.prems show ?case by (simp add: slice_append)
qed (simp add: slice_def)

lemma tiles_chunk:
  "tiles text mx i cs j \<Longrightarrow> c \<in> set cs \<Longrightarrow>
     ch_text c = slice text (ch_start c) (ch_end c) \<and> ch_start c < ch_end c \<and> ch_end c \<le> length text \<and>
     length (ch_text c) = ch_end c - ch_start c \<and> length (ch_text c) \<le> mx"
  by (induction cs arbitrary: i) (auto simp: slice_def)

section \<open>The scanner covers the text\<close>

lemma span_scan_contiguous:
  "cursor \<le> pos \<Longrightarrow> contiguous cursor (span_scan cursor pos s) (pos + length s)"
proof (induction cursor pos s rule: span_scan.induct)
  case (1 cursor pos a b cs)
  show ?case
  proof (cases "a = nl \<and> b = nl")
    case True
    with 1 show ?thesis by simp
  next
    case False
    have "contiguous cursor (span_scan cursor (pos + 1) (b # cs)) (pos + 1 + length (b # cs))"
      by (rule 1(2) [OF False]) (use 1(3) in simp)
    with False show ?thesis by auto
  qed
qed auto

lemma spans_cover: "contiguous 0 (paragraph_spans text) (length text)"
  using span_scan_contiguous [of 0 0 "text"] by (simp add: paragraph_spans_def)

section \<open>Splitting an oversized paragraph\<close>

lemma split_at_bounds:
  assumes "0 < mx"
  shows "cursor < split_at text cursor mx" and "split_at text cursor mx \<le> cursor + mx"
proof -
  have "cursor < split_at text cursor mx \<and> split_at text cursor mx \<le> cursor + mx"
    using assms
    by (auto simp: split_at_def rfind_in_def slice_def Let_def split: option.splits dest!: rfind_char_Some)
  then show "cursor < split_at text cursor mx" "split_at text cursor mx \<le> cursor + mx" by blast+
qed

lemma hard_split_tiles:
  "0 < mx \<Longrightarrow> i < j \<Longrightarrow> j \<le> length text \<Longrightarrow> \<exists>cs. hard_split text i j mx = Some cs \<and> tiles text mx i cs j"
proof (induction "j - i" arbitrary: i rule: less_induct)
  case less
  show ?case
  proof (cases "j - i > mx")
    case True
    let ?k = "split_at text i mx"
    note b = split_at_bounds(1) [OF less.prems(1), of i "text"] split_at_bounds(2) [OF less.prems(1), of "text" i]
    have "\<exists>cs. hard_split text ?k j mx = Some cs \<and> tiles text mx ?k cs j"
      by (rule less.hyps) (use b less.prems True in auto)
    then obtain cs where "hard_split text ?k j mx = Some cs" "tiles text mx ?k cs j" by blast
    with True b less.prems show ?thesis
      by (subst hard_split.simps) auto
  next
    case False
    with less.prems show ?thesis by (subst hard_split.simps) auto
  qed
qed

section \<open>Chunking tiles the text\<close>

lemma flush_tiles:
  "contiguous i cur j \<Longrightarrow> cur \<noteq> [] \<Longrightarrow> spans_length cur \<le> mx \<Longrightarrow> j \<le> length text \<Longrightarrow>
     tiles text mx i [flush_spans cur text] j"
  using contiguous_ends [of i cur j] contiguous_length [of i cur j]
  by (auto simp: flush_spans_def Let_def)

lemma flushed_tiles:
  "contiguous i cur j \<Longrightarrow> spans_length cur \<le> mx \<Longrightarrow> j \<le> length text \<Longrightarrow>
     tiles text mx i (if cur = [] then [] else [flush_spans cur text]) j"
  using flush_tiles [of i cur j mx "text"] by (cases "cur = []") (simp, presburger)

lemma chunk_loop_tiles:
  shows "0 < mx \<Longrightarrow> contiguous i cur k \<Longrightarrow> contiguous k spans (length text) \<Longrightarrow> spans_length cur \<le> mx \<Longrightarrow>
    \<exists>cs. chunk_loop text mn mx cur spans = Some cs \<and> tiles text mx i cs (length text)"
proof (induction "text" mn mx cur spans arbitrary: i k rule: chunk_loop.induct)
  case (1 t mn mx current)
  then show ?case using flushed_tiles [of i current k mx t] by auto
next
  case (2 t mn mx current s e spans)
  let ?flushed = "if current = [] then [] else [flush_spans current t]"
  from 2(5,6) have k: "s = k" "k < e" "contiguous e spans (length t)" and le: "e \<le> length t"
    by (auto dest: contiguous_le)
  have fl: "tiles t mx i ?flushed k"
    using flushed_tiles [OF 2(5,7)] k le by simp
  show ?case
  proof (cases "e - s > mx")
    case True
    obtain ps where ps: "hard_split t s e mx = Some ps" "tiles t mx s ps e"
      using hard_split_tiles [OF 2(4)] k le by blast
    obtain cs where "chunk_loop t mn mx [] spans = Some cs" "tiles t mx e cs (length t)"
      using 2(1) [OF refl True, of ps e e] k 2(4) ps(1) by (auto simp: spans_length_def)
    with True ps fl k show ?thesis by (auto simp: tiles_append)
  next
    case False
    define overflow where "overflow \<longleftrightarrow> current \<noteq> [] \<and> spans_length current + (e - s) > mx"
    define out where "out = (if overflow then ?flushed else [])"
    define cur where "cur = (if overflow then [] else current) @ [(s, e)]"
    define i' where "i' = (if overflow then k else i)"
    have out: "tiles t mx i out i'" using fl by (simp add: out_def i'_def)
    have cur: "contiguous i' cur e" "cur \<noteq> []"
      using 2(5) k by (auto simp: cur_def i'_def contiguous_append)
    have len: "spans_length cur \<le> mx"
      using False by (auto simp: cur_def overflow_def spans_length_def)
    have unfold: "chunk_loop t mn mx current ((s, e) # spans) =
        (if spans_length cur \<ge> mn
         then map_option (\<lambda>rest. out @ flush_spans cur t # rest) (chunk_loop t mn mx [] spans)
         else map_option (\<lambda>rest. out @ rest) (chunk_loop t mn mx cur spans))"
      using False by (simp add: Let_def overflow_def out_def cur_def)
    show ?thesis
    proof (cases "spans_length cur \<ge> mn")
      case True
      obtain cs where "chunk_loop t mn mx [] spans = Some cs" "tiles t mx e cs (length t)"
        using 2(2) [OF refl False overflow_def out_def cur_def True, of e e] k 2(4)
        by (auto simp: spans_length_def)
      moreover have "tiles t mx i' [flush_spans cur t] e"
        using flush_tiles [OF cur len le] .
      ultimately show ?thesis using True out
        by (auto simp: unfold tiles_append simp del: chunk_loop.simps)
    next
      case F: False
      obtain cs where "chunk_loop t mn mx cur spans = Some cs" "tiles t mx i' cs (length t)"
        using 2(3) [OF refl False overflow_def out_def cur_def F 2(4) cur(1) k(3) len] by auto
      then show ?thesis using F out
        by (auto simp: unfold tiles_append simp del: chunk_loop.simps)
    qed
  qed
qed

section \<open>Properties\<close>

lemma chunk_passages_tiles:
  "0 < mx \<Longrightarrow> \<exists>cs. chunk_passages text mn mx = Some cs \<and> tiles text mx 0 cs (length text)"
  unfolding chunk_passages_def
  by (rule chunk_loop_tiles [OF _ _ spans_cover]) (simp_all add: spans_length_def)

lemma split_at_stuck: "split_at text cursor 0 = cursor"
  by (simp add: split_at_def rfind_in_def slice_def Let_def)

lemma hard_split_stuck: "cursor < stop \<Longrightarrow> hard_split text cursor stop 0 = None"
proof (cases "hard_split text cursor stop 0")
  case (Some ps)
  have "\<not> (0 = (0::nat) \<and> cursor < stop)"
  proof (rule hard_split.raw_induct [where P = "\<lambda>t c s m y. \<not> (m = 0 \<and> c < s)", OF _ Some])
    fix hs t c s m y
    assume "\<And>a b c d y. hs a b c d = Some y \<Longrightarrow> \<not> (d = 0 \<and> b < c)"
      and "(if m < s - c then Option.bind (hs t (split_at t c m) s m) (\<lambda>pieces. Some (\<lparr>ch_text = slice t c (split_at t c m),
        ch_start = c, ch_end = split_at t c m\<rparr> # pieces)) else Some [\<lparr>ch_text = slice t c s, ch_start = c, ch_end = s\<rparr>]) = Some y"
    then show "\<not> (m = 0 \<and> c < s)" by (fastforce simp: split_at_stuck bind_eq_Some_conv split: if_splits)
  qed
  then show "cursor < stop \<Longrightarrow> hard_split text cursor stop 0 = None" by simp
qed simp

lemma chunk_passages_stuck: "text \<noteq> [] \<Longrightarrow> chunk_passages text mn 0 = None"
proof -
  assume "text \<noteq> []"
  then obtain s e spans where sp: "paragraph_spans text = (s, e) # spans" and "s < e"
    using spans_cover [of "text"] by (cases "paragraph_spans text") auto
  then show ?thesis using hard_split_stuck [of s e "text"] by (simp add: chunk_passages_def)
qed

text \<open>
  C32. When chunking terminates: it returns exactly when the maximal length is positive or the text is
  empty; for a maximum of zero the splitting loop never advances on any other text.
\<close>
theorem chunking_terminates:
  "(\<exists>cs. chunk_passages text min_chars max_chars = Some cs) \<longleftrightarrow> 0 < max_chars \<or> text = []"
proof (cases "max_chars = 0")
  case True
  have "chunk_passages [] min_chars 0 = Some []" by (simp add: chunk_passages_def paragraph_spans_def)
  with True chunk_passages_stuck [of "text" min_chars] show ?thesis by (cases "text = []") auto
qed (use chunk_passages_tiles [of max_chars "text" min_chars] in auto)

text \<open>
  C19. For a positive maximal length, chunking a text returns, and its chunks are non-empty exact
  slices of the text at the offsets they carry, none longer than the maximum, whose concatenation
  in order is the text itself.
\<close>
theorem chunks_partition:
  assumes "0 < max_chars"
  shows "\<exists>cs. chunk_passages text min_chars max_chars = Some cs \<and> concat (map ch_text cs) = text \<and>
    (\<forall>c \<in> set cs. ch_text c = slice text (ch_start c) (ch_end c) \<and> ch_text c \<noteq> [] \<and>
       length (ch_text c) \<le> max_chars)"
proof -
  from chunk_passages_tiles [OF assms, of "text" min_chars] obtain cs where
    cs: "chunk_passages text min_chars max_chars = Some cs" "tiles text max_chars 0 cs (length text)"
    by blast
  have "concat (map ch_text cs) = text"
    using tiles_text [OF cs(2)] by (simp add: slice_def)
  moreover have "ch_text c \<noteq> []" if "c \<in> set cs" for c
    using tiles_chunk [OF cs(2) that] by auto
  ultimately show ?thesis using cs(1) tiles_chunk [OF cs(2)] by blast
qed

theorem chunks_partition_witness:
  "\<exists>cs. chunk_passages ''one two three'' 4 6 = Some cs \<and> concat (map ch_text cs) = ''one two three''"
  using chunks_partition [of 6 "''one two three''" 4] by auto

end
