(* ===== verification/Normalizer.thy ===== *)
theory Normalizer
  imports Redact Chunking Errors
begin

text \<open>
  The rest of \<open>app/services/normalizer.py\<close>, and \<open>app/services/content_filter.py\<close>:
  whitespace collapsing (three regular expressions, written with \<open>rx_sub\<close>), the format
  dispatch of \<open>normalize\<close>, content-type classification, the unsafe-content filters and the
  redaction of bytes. The parsers of HTML, PDF, DOCX and RTF are the libraries' and enter as the
  record \<open>parsers\<close>; the UTF-8 codec and SHA-256 enter as functions.
\<close>

section \<open>Whitespace\<close>

type_synonym bytes = string  \<comment> \<open>one character per byte\<close>

definition is_blank_char :: "char \<Rightarrow> bool" where
  \<comment> \<open>\<open>[ \\t\\r\\f\\v]\<close>\<close>
  "is_blank_char c \<longleftrightarrow> cp c = 32 \<or> cp c = 9 \<or> cp c = 13 \<or> cp c = 12 \<or> cp c = 11"

definition sp :: char where "sp = CHR '' ''"

definition rx_line :: rx where
  "rx_line = Cat (Rep (\<lambda>c. c = sp) 0 None) (Cat (Str [\<lambda>c. c = nl]) (Rep (\<lambda>c. c = sp) 0 None))"

definition collapse_whitespace :: "string \<Rightarrow> string" where
  "collapse_whitespace text =
     (let a = rx_sub (Rep is_blank_char 1 None) [sp] None text;
          b = rx_sub (Rep (\<lambda>c. c = nl) 3 None) [nl, nl] None a;
          c = rx_sub rx_line [nl] None b
      in py_strip c)"

definition tidy_pair :: "char \<Rightarrow> char \<Rightarrow> bool" where
  "tidy_pair a b \<longleftrightarrow> \<not> (a = sp \<and> b = sp) \<and> \<not> (a = sp \<and> b = nl) \<and> \<not> (a = nl \<and> b = sp)"

lemma rep1_sub:
  "rx_sub (Rep P 1 None) r p (c # cs) =
     (if P c then r @ rx_sub (Rep P 1 None) r (Some ((c # cs) ! length (takeWhile P cs))) (dropWhile P cs)
      else c # rx_sub (Rep P 1 None) r (Some c) cs)"
  by (simp add: Let_def dropWhile_eq_drop)

lemma rep_sub_prev: "rx_sub (Rep P lo hi) r p s = rx_sub (Rep P lo hi) r q s"
  by (cases s) (auto split: list.splits)

lemma squeeze_blank:
  "successively (\<lambda>a b. \<not> (a = sp \<and> b = sp)) (rx_sub (Rep is_blank_char 1 None) [sp] p s) \<and>
   (\<forall>c \<in> set (rx_sub (Rep is_blank_char 1 None) [sp] p s). is_blank_char c \<longrightarrow> c = sp)"
proof (induction "length s" arbitrary: p s rule: less_induct)
  case less
  let ?f = "rx_sub (Rep is_blank_char 1 None) [sp]"
  show ?case
  proof (cases s)
    case (Cons c cs)
    have b: "is_blank_char sp" by (simp add: is_blank_char_def sp_def cp_def)
    have hd: "\<not> is_blank_char d" if "dropWhile is_blank_char cs = d # ds" for d ds
      using that by (metis hd_dropWhile list.distinct(1) list.sel(1))
    have h: "?f q (dropWhile is_blank_char cs) = [] \<or> hd (?f q (dropWhile is_blank_char cs)) \<noteq> sp" for q
    proof (cases "dropWhile is_blank_char cs")
      case (Cons d ds)
      with hd b have "\<not> is_blank_char d" "d \<noteq> sp" by auto
      with Cons show ?thesis by (simp only: rep1_sub) simp
    qed (simp only: rx_sub.simps simp_thms)
    have "length (dropWhile is_blank_char cs) < length s" using Cons by (simp add: length_dropWhile_le le_imp_less_Suc)
    note IH = less [OF this] less [of cs]
    show ?thesis
    proof (cases "is_blank_char c")
      case True
      then show ?thesis using Cons IH(1) h
        by (auto simp del: rx_sub.simps One_nat_def simp: rep1_sub successively_Cons)
    next
      case False
      then have "c \<noteq> sp" using b by auto
      then show ?thesis using Cons IH(2) False
        by (auto simp del: rx_sub.simps One_nat_def simp: rep1_sub successively_Cons)
    qed
  qed simp
qed

lemma successively_dropWhile: "successively P xs \<Longrightarrow> successively P (dropWhile Q xs)"
  by (metis successively_append_iff takeWhile_dropWhile_id)

lemma rep3_sub:
  "rx_sub (Rep P 3 None) r p (c # cs) =
     (if 3 \<le> length (takeWhile P (c # cs))
      then r @ rx_sub (Rep P 3 None) r (Some ((c # cs) ! length (takeWhile P cs))) (dropWhile P cs)
      else c # rx_sub (Rep P 3 None) r (Some c) cs)"
  by (cases "P c") (simp_all add: Let_def dropWhile_eq_drop)

lemma cap_blank:
  assumes "successively (\<lambda>a b. \<not> (a = sp \<and> b = sp)) s"
  shows "successively (\<lambda>a b. \<not> (a = sp \<and> b = sp)) (rx_sub (Rep (\<lambda>c. c = nl) 3 None) [nl, nl] p s) \<and>
    set (rx_sub (Rep (\<lambda>c. c = nl) 3 None) [nl, nl] p s) \<subseteq> set s \<and>
    (s \<noteq> [] \<longrightarrow> rx_sub (Rep (\<lambda>c. c = nl) 3 None) [nl, nl] p s \<noteq> [] \<and>
       hd (rx_sub (Rep (\<lambda>c. c = nl) 3 None) [nl, nl] p s) = hd s)"
  using assms
proof (induction "length s" arbitrary: p s rule: less_induct)
  case less
  let ?P = "\<lambda>c. c = nl" let ?f = "rx_sub (Rep ?P 3 None) [nl, nl]"
  show ?case
  proof (cases s)
    case (Cons c cs)
    have nsp: "nl \<noteq> sp" by (simp add: nl_def sp_def)
    show ?thesis
    proof (cases "3 \<le> length (takeWhile ?P (c # cs))")
      case True
      then have c: "c = nl" by (auto split: if_splits)
      let ?t = "dropWhile ?P cs"
      have s': "successively (\<lambda>a b. \<not> (a = sp \<and> b = sp)) ?t"
        using less.prems Cons by (metis successively_append_iff takeWhile_dropWhile_id append_Cons)
      have l: "length ?t < length s" using Cons by (simp add: length_dropWhile_le le_imp_less_Suc)
      have sub: "set ?t \<subseteq> set cs" by (auto dest: set_dropWhileD)
      show ?thesis
        using less.hyps [OF l s'] True Cons c nsp sub
        by (auto simp del: rx_sub.simps simp: rep3_sub successively_Cons)
    next
      case False
      have s': "successively (\<lambda>a b. \<not> (a = sp \<and> b = sp)) cs"
        using less.prems Cons by (auto simp: successively_Cons)
      have l: "length cs < length s" using Cons by simp
      show ?thesis
        using less.hyps [OF l s'] less.prems False Cons
        by (cases "cs = []") (auto simp del: rx_sub.simps takeWhile.simps simp: rep3_sub successively_Cons)
    qed
  qed simp
qed

lemma line_matches:
  "rx_matches rx_line p s =
     (case dropWhile (\<lambda>c. c = sp) s of [] \<Rightarrow> []
      | d # t \<Rightarrow> if d = nl then map (\<lambda>m. length (takeWhile (\<lambda>c. c = sp) s) + (1 + m))
            (rev [0..<Suc (length (takeWhile (\<lambda>c. c = sp) t))]) else [])"
proof -
  let ?k = "length (takeWhile (\<lambda>c. c = sp) s)"
  let ?b = "Cat (Str [\<lambda>c. c = nl]) (Rep (\<lambda>c. c = sp) 0 None)"
  let ?f = "\<lambda>n. map ((+) n) (rx_matches ?b (prev_after p s n) (drop n s))"
  have nsp: "nl \<noteq> sp" by (simp add: nl_def sp_def)
  have early: "?f n = []" if n: "n < ?k" for n
  proof -
    have "n < length s" using n length_takeWhile_le [of "\<lambda>c. c = sp" s] by linarith
    then have "drop n s = s ! n # drop (Suc n) s" by (simp add: Cons_nth_drop_Suc)
    moreover have "s ! n = sp"
      using n nth_mem [OF n] by (metis (mono_tags) set_takeWhileD takeWhile_nth)
    ultimately show ?thesis using nsp by simp
  qed
  have "rx_matches rx_line p s = concat (map ?f (rev [0..<Suc ?k]))"
    unfolding rx_line_def by (simp only: rx_matches.simps Let_def option.case)
  also have "\<dots> = ?f ?k @ concat (map ?f (rev [0..<?k]))" by simp
  also have "concat (map ?f (rev [0..<?k])) = []" using early by simp
  also have "drop ?k s = dropWhile (\<lambda>c. c = sp) s" by (simp add: dropWhile_eq_drop)
  finally have eq: "rx_matches rx_line p s =
      map ((+) ?k) (rx_matches ?b (prev_after p s ?k) (dropWhile (\<lambda>c. c = sp) s))" by simp
  obtain D where D: "dropWhile (\<lambda>c. c = sp) s = D" by blast
  show ?thesis unfolding eq D by (cases D) (simp_all add: Let_def)
qed

lemma line_sub_prev: "rx_sub rx_line r p s = rx_sub rx_line r q s"
  by (cases s) (simp_all add: line_matches)

lemma line_sub:
  "rx_sub rx_line r p (c # cs) =
     (case dropWhile (\<lambda>c. c = sp) (c # cs) of
        [] \<Rightarrow> c # rx_sub rx_line r (Some c) cs
      | d # t \<Rightarrow> if d = nl then r @ rx_sub rx_line r p (dropWhile (\<lambda>c. c = sp) t)
          else c # rx_sub rx_line r (Some c) cs)"
proof (cases "\<exists>t. dropWhile (\<lambda>c. c = sp) (c # cs) = nl # t")
  case True
  then obtain t where t: "dropWhile (\<lambda>c. c = sp) (c # cs) = nl # t" ..
  let ?k = "length (takeWhile (\<lambda>c. c = sp) (c # cs))" and ?m = "length (takeWhile (\<lambda>c. c = sp) t)"
  have "drop (?k + ?m) cs = drop ?m (drop (Suc ?k) (c # cs))" by (simp add: add.commute)
  also have "drop (Suc ?k) (c # cs) = drop 1 (drop ?k (c # cs))" by (simp only: drop_drop) simp
  also have "drop ?k (c # cs) = nl # t" using t by (simp only: dropWhile_eq_drop)
  finally have d: "drop (?k + ?m) cs = dropWhile (\<lambda>c. c = sp) t" by (simp add: dropWhile_eq_drop)
  have "rx_matches rx_line p (c # cs) =
      map (\<lambda>m. ?k + (1 + m)) (rev [0..<Suc ?m])"
    unfolding line_matches using t by simp
  then have "rx_matches rx_line p (c # cs) = (?k + Suc ?m) # map (\<lambda>m. ?k + (1 + m)) (rev [0..<?m])"
    by simp
  then show ?thesis unfolding t using d
    by (simp del: takeWhile.simps) (rule line_sub_prev)
next
  case False
  obtain D where D: "dropWhile (\<lambda>c. c = sp) (c # cs) = D" by blast
  with False have "rx_matches rx_line p (c # cs) = []"
    unfolding line_matches D by (cases D) auto
  then show ?thesis using False unfolding D by (cases D) auto
qed

lemma dropWhile_twice:
  assumes "dropWhile P xs = d # t"
  shows "length (dropWhile Q t) < length xs" and "set (dropWhile Q t) \<subseteq> set xs" and "d \<in> set xs"
proof -
  have "length (d # t) \<le> length xs" using length_dropWhile_le [of P xs] assms by simp
  then show "length (dropWhile Q t) < length xs" using length_dropWhile_le [of Q t] by simp
  have "set (d # t) \<subseteq> set xs" using set_dropWhileD assms by (metis subsetI)
  then show "set (dropWhile Q t) \<subseteq> set xs" "d \<in> set xs" using set_dropWhileD by fastforce+
qed

lemma trim_tidy:
  assumes "successively (\<lambda>a b. \<not> (a = sp \<and> b = sp)) s"
  shows "successively tidy_pair (rx_sub rx_line [nl] p s) \<and> set (rx_sub rx_line [nl] p s) \<subseteq> set s \<and>
    (s \<noteq> [] \<and> hd s \<noteq> sp \<longrightarrow> rx_sub rx_line [nl] p s \<noteq> [] \<and> hd (rx_sub rx_line [nl] p s) = hd s)"
  using assms
proof (induction "length s" arbitrary: p s rule: less_induct)
  case less
  let ?f = "rx_sub rx_line [nl]"
  have nsp: "nl \<noteq> sp" by (simp add: nl_def sp_def)
  show ?case
  proof (cases s)
    case (Cons c cs)
    show ?thesis
    proof (cases "\<exists>t. dropWhile (\<lambda>c. c = sp) (c # cs) = nl # t")
      case True
      then obtain t where t: "dropWhile (\<lambda>c. c = sp) (c # cs) = nl # t" ..
      let ?u = "dropWhile (\<lambda>c. c = sp) t"
      note u = dropWhile_twice(1,2) [OF t, of "\<lambda>c. c = sp"] dropWhile_twice(3) [OF t]
      have l: "length ?u < length s" using u(1) Cons by simp
      have s': "successively (\<lambda>a b. \<not> (a = sp \<and> b = sp)) ?u"
      proof -
        have "successively (\<lambda>a b. \<not> (a = sp \<and> b = sp)) (dropWhile (\<lambda>c. c = sp) (c # cs))"
          using less.prems unfolding Cons by (rule successively_dropWhile)
        then show ?thesis unfolding t by (auto simp: successively_Cons intro: successively_dropWhile)
      qed
      have hu: "?u = [] \<or> hd ?u \<noteq> sp" using hd_dropWhile by blast
      have hc: "c \<noteq> sp \<Longrightarrow> c = nl" using t by simp
      have eq: "?f p (c # cs) = nl # ?f p ?u" unfolding line_sub t by (simp del: rx_sub.simps)
      show ?thesis
      proof -
        let ?g = "?f p ?u"
        note IH = less.hyps [OF l s', of p]
        have "successively tidy_pair (nl # ?g)"
        proof (cases "?u = []")
          case True
          then show ?thesis by (simp only: rx_sub.simps) simp
        next
          case False
          with IH hu have g: "successively tidy_pair ?g" "hd ?g = hd ?u" "hd ?u \<noteq> sp" by blast+
          from g(2,3) have "hd ?g \<noteq> sp" by (rule ssubst)
          then show ?thesis using nsp g(1) by (cases ?g) (simp_all add: tidy_pair_def)
        qed
        moreover have "set (nl # ?g) \<subseteq> set s" using IH u(2,3) Cons by (simp del: rx_sub.simps) blast
        ultimately show ?thesis unfolding Cons eq using hc by auto
      qed
    next
      case False
      have eq: "?f p (c # cs) = c # ?f (Some c) cs"
      proof -
        obtain D where D: "dropWhile (\<lambda>c. c = sp) (c # cs) = D" by blast
        show ?thesis using False unfolding line_sub D by (cases D) auto
      qed
      have s': "successively (\<lambda>a b. \<not> (a = sp \<and> b = sp)) cs"
        using less.prems Cons by (auto simp: successively_Cons)
      have l: "length cs < length s" using Cons by simp
      have c: "cs = [] \<or> tidy_pair c (hd cs) \<and> (c = sp \<longrightarrow> hd cs \<noteq> sp)" "c \<noteq> nl"
      proof -
        show c0: "c \<noteq> nl"
        proof
          assume "c = nl"
          then have "dropWhile (\<lambda>c. c = sp) (c # cs) = nl # cs" using nsp by simp
          with False show False by blast
        qed
        show "cs = [] \<or> tidy_pair c (hd cs) \<and> (c = sp \<longrightarrow> hd cs \<noteq> sp)"
        proof (cases cs)
          case (Cons d ds)
          have "c = sp \<longrightarrow> d \<noteq> sp" using less.prems \<open>s = c # cs\<close> Cons by simp
          moreover have "c = sp \<longrightarrow> d \<noteq> nl"
          proof (rule impI, rule notI)
            assume "c = sp" "d = nl"
            then have "dropWhile (\<lambda>c. c = sp) (c # cs) = nl # ds" using nsp Cons by simp
            with False show False by blast
          qed
          ultimately show ?thesis using c0 Cons by (simp add: tidy_pair_def)
        qed simp
      qed
      show ?thesis
      proof -
        let ?g = "?f (Some c) cs"
        note IH = less.hyps [OF l s', of "Some c"]
        have "successively tidy_pair (c # ?g)"
        proof (cases "cs = []")
          case True
          then show ?thesis by (simp only: rx_sub.simps) simp
        next
          case False
          then have p: "c = sp \<longrightarrow> hd ?g = hd cs" "successively tidy_pair ?g" using IH c(1) by blast+
          then have "c = sp \<longrightarrow> tidy_pair c (hd ?g)" using c(1) False by auto
          then have "tidy_pair c (hd ?g)" using c(2) by (auto simp: tidy_pair_def)
          then show ?thesis using p(2) by (cases ?g) simp_all
        qed
        moreover have "set (c # ?g) \<subseteq> set s" using IH Cons by auto
        ultimately show ?thesis unfolding Cons eq by simp
      qed
    qed
  qed simp
qed

lemma py_strip_infix: "\<exists>a b. s = a @ py_strip s @ b"
proof -
  let ?t = "dropWhile is_space s"
  have "rev ?t = takeWhile is_space (rev ?t) @ dropWhile is_space (rev ?t)" by simp
  then have "?t = rev (dropWhile is_space (rev ?t)) @ rev (takeWhile is_space (rev ?t))"
    by (metis rev_append rev_rev_ident)
  then have "s = takeWhile is_space s @ py_strip s @ rev (takeWhile is_space (rev ?t))"
    unfolding py_strip_def by (metis takeWhile_dropWhile_id)
  then show ?thesis by blast
qed

lemma collapse_tidy:
  "successively tidy_pair (collapse_whitespace text) \<and>
   (\<forall>c \<in> set (collapse_whitespace text). is_blank_char c \<longrightarrow> c = sp)"
proof -
  define a where "a = rx_sub (Rep is_blank_char 1 None) [sp] None text"
  define b where "b = rx_sub (Rep (\<lambda>c. c = nl) 3 None) [nl, nl] None a"
  define c where "c = rx_sub rx_line [nl] None b"
  have e: "collapse_whitespace text = py_strip c"
    by (simp only: collapse_whitespace_def a_def b_def c_def Let_def)
  note A = squeeze_blank [of None "text", folded a_def]
  note B = cap_blank [OF A [THEN conjunct1], of None, folded b_def]
  note C = trim_tidy [OF B [THEN conjunct1], of None, folded c_def]
  have "\<forall>x \<in> set c. is_blank_char x \<longrightarrow> x = sp" using A B C by blast
  moreover obtain u v where "c = u @ py_strip c @ v" using py_strip_infix by blast
  ultimately show ?thesis
    unfolding e using C by (metis Un_iff set_append successively_append_iff)
qed

section \<open>Normalization by source type\<close>

datatype source_type = WEB | PDF | RSS | DOCX | RTF | UPLOAD | OTHER

fun source_type_value :: "source_type \<Rightarrow> string" where
  "source_type_value WEB = ''web''"
| "source_type_value PDF = ''pdf''"
| "source_type_value RSS = ''rss''"
| "source_type_value DOCX = ''docx''"
| "source_type_value RTF = ''rtf''"
| "source_type_value UPLOAD = ''upload''"
| "source_type_value OTHER = ''other''"

record parsers =
  \<comment> \<open>what the format libraries extract from the bytes of a document\<close>
  html_blocks :: "bytes \<Rightarrow> string list"    \<comment> \<open>text of each block element, scripts and styles removed\<close>
  html_text :: "bytes \<Rightarrow> string"           \<comment> \<open>text of the whole document\<close>
  pdf_pages :: "bytes \<Rightarrow> string option list"
  docx_paragraphs :: "bytes \<Rightarrow> string list"
  rtf_to_text :: "bytes \<Rightarrow> exn + string"

definition gap :: string where "gap = [nl, nl]"

definition normalize_html :: "parsers \<Rightarrow> bytes \<Rightarrow> string" where
  "normalize_html P content =
     (let blocks = filter (\<lambda>t. t \<noteq> []) (map collapse_whitespace (html_blocks P content));
          blocks' = (if blocks = [] then filter (\<lambda>t. t \<noteq> []) [collapse_whitespace (html_text P content)] else blocks)
      in join gap blocks')"

definition normalize_pdf :: "parsers \<Rightarrow> bytes \<Rightarrow> string" where
  "normalize_pdf P content =
     collapse_whitespace (join gap (map (\<lambda>p. case p of None \<Rightarrow> [] | Some t \<Rightarrow> t) (pdf_pages P content)))"

definition normalize_docx :: "parsers \<Rightarrow> bytes \<Rightarrow> string" where
  "normalize_docx P content = collapse_whitespace (join gap (docx_paragraphs P content))"

definition decode_ascii_ignore :: "bytes \<Rightarrow> string" where
  "decode_ascii_ignore content = filter (\<lambda>c. cp c < 128) content"

definition normalize_rtf :: "parsers \<Rightarrow> bytes \<Rightarrow> string result" where
  "normalize_rtf P content =
     (case rtf_to_text P (decode_ascii_ignore content) of
        Inl e \<Rightarrow> Inl (ValueError (''could not parse RTF content: '' @ exn_message e))
      | Inr text \<Rightarrow> Inr (collapse_whitespace text))"

definition supported_types :: "string list" where
  "supported_types = [''docx'', ''pdf'', ''rtf'', ''web'']"

definition normalize :: "parsers \<Rightarrow> string \<Rightarrow> bytes \<Rightarrow> string result" where
  "normalize P key content =
     (if key = ''web'' then Inr (redact_secrets (normalize_html P content))
      else if key = ''pdf'' then Inr (redact_secrets (normalize_pdf P content))
      else if key = ''docx'' then Inr (redact_secrets (normalize_docx P content))
      else if key = ''rtf'' then result_bind (normalize_rtf P content) (\<lambda>t. Inr (redact_secrets t))
      else Inl (ValueError (''unsupported source_type '' @ quoted key @ '' (supported: '' @
             join '', '' supported_types @ '')'')))"

section \<open>Classification of a response\<close>

definition content_type_map :: "(string \<times> source_type) list" where
  "content_type_map =
     [(''text/html'', WEB), (''text/plain'', WEB), (''application/xhtml'', WEB), (''application/rss+xml'', WEB),
      (''application/xml'', WEB), (''application/pdf'', PDF), (''application/rtf'', RTF), (''text/rtf'', RTF),
      (''application/vnd.openxmlformats-officedocument.wordprocessingml.document'', DOCX)]"

fun first_needle :: "string \<Rightarrow> (string \<times> 'a) list \<Rightarrow> 'a option" where
  "first_needle s [] = None"
| "first_needle s ((needle, x) # rest) = (if py_in needle s then Some x else first_needle s rest)"

definition classify_source :: "string \<Rightarrow> string \<Rightarrow> source_type" where
  "classify_source content_type uri =
     (case first_needle (py_lower content_type) content_type_map of
        Some t \<Rightarrow> t
      | None \<Rightarrow>
          let path = py_lower (before_last_char CHR ''#'' (before_char CHR ''?'' uri))
          in if endswith ''.pdf'' path then PDF
             else if endswith ''.docx'' path then DOCX
             else if endswith ''.rtf'' path then RTF
             else WEB)"

section \<open>Unsafe content\<close>

definition unsafe_terms :: "string list" where
  "unsafe_terms = [''bomb-making'']"

definition contains_unsafe_content :: "string \<Rightarrow> bool" where
  "contains_unsafe_content text = (\<exists>t \<in> set unsafe_terms. py_in t (py_lower text))"

definition unsafe_categories :: "(string \<times> string list) list" where
  "unsafe_categories =
     [(''violence'', [''bomb-making'', ''pipe bomb'', ''explosive device'', ''how to build a bomb'']),
      (''hate'', [''ethnic cleansing'', ''hate speech'', ''white supremacist'']),
      (''sexual'', [''child sexual abuse'', ''sexual exploitation of minors'']),
      (''illicit'', [''darknet market'', ''illegal drug manufacture'', ''credit card fraud''])]"

definition find_unsafe_categories :: "string \<Rightarrow> string list" where
  "find_unsafe_categories text =
     (let haystack = py_casefold text
      in map fst (filter (\<lambda>(category, phrases). \<exists>p \<in> set phrases. py_in p haystack) unsafe_categories))"

definition is_unsafe :: "string \<Rightarrow> bool" where
  "is_unsafe text \<longleftrightarrow> find_unsafe_categories text \<noteq> []"

definition unsafe_reason :: "string \<Rightarrow> string" where
  "unsafe_reason text =
     (let categories = find_unsafe_categories text
      in if categories = [] then ''content flagged as unsafe: no categories''
         else ''content flagged as unsafe: '' @ join '', '' categories)"

section \<open>Redaction of bytes\<close>

record utf8 =
  utf8_decode :: "bytes \<Rightarrow> string option"
  utf8_encode :: "string \<Rightarrow> bytes"

definition redact_bytes_for_storage :: "utf8 \<Rightarrow> bytes \<Rightarrow> bytes" where
  "redact_bytes_for_storage U content =
     (case utf8_decode U content of
        None \<Rightarrow> content
      | Some decoded \<Rightarrow> utf8_encode U (redact_secrets decoded))"

section \<open>Properties\<close>

text \<open>
  Collapsed whitespace holds no tab, carriage return, form feed or vertical tab, no two
  adjacent spaces and no space next to a newline.
\<close>
theorem collapse_whitespace_tidy:
  "successively tidy_pair (collapse_whitespace text) \<and>
   (\<forall>c. c \<in> set (collapse_whitespace text) \<and> is_blank_char c \<longrightarrow> c = sp)"
  using collapse_tidy by blast

theorem collapse_whitespace_tidy_witness:
  "successively tidy_pair (collapse_whitespace [CHR ''a'', sp, sp, nl, CHR ''b''])"
  using collapse_whitespace_tidy by blast

text \<open>
  Newlines are not capped at a paragraph break when blanks stand between them: three newlines
  separated by spaces survive, although the docstring promises the cap.
\<close>
theorem collapse_keeps_blank_lines:
  "collapse_whitespace [CHR ''a'', nl, sp, nl, sp, nl, CHR ''b''] = [CHR ''a'', nl, nl, nl, CHR ''b'']"
  by (simp add: collapse_whitespace_def rx_line_def is_blank_char_def py_strip_def is_space_def sp_def nl_def
      cp_def Let_def prev_after_def)

lemma normalize_ok:
  "key \<in> {''web'', ''pdf'', ''docx''} \<Longrightarrow> \<exists>t. normalize P key content = Inr (redact_secrets t)"
  by (auto simp: normalize_def)

lemma normalize_Inr: "normalize P key content = Inr t \<Longrightarrow> \<exists>u. t = redact_secrets u"
  by (auto simp: normalize_def result_bind_ok split: if_splits)

text \<open>
  Whatever the parsers extract, normalized text contains no secret.
\<close>
theorem normalize_secret_free:
  "normalize P key content = Inr t \<Longrightarrow> secret_free t"
  using normalize_Inr redact_secret_free by blast

theorem normalize_secret_free_witness:
  "secret_free (redact_secrets (normalize_docx
     \<lparr>html_blocks = \<lambda>b. [b], html_text = id, pdf_pages = \<lambda>b. [Some b], docx_paragraphs = \<lambda>b. [b],
       rtf_to_text = Inr\<rparr> ''token=abc''))"
  by (rule normalize_secret_free [where key = "''docx''"]) (simp add: normalize_def)

lemma first_needle_mem: "first_needle s xs = Some t \<Longrightarrow> t \<in> snd ` set xs"
  by (induction s xs rule: first_needle.induct) (auto split: if_splits)

lemma classify_range: "classify_source ct uri \<in> {WEB, PDF, RTF, DOCX}"
  unfolding classify_source_def
  by (auto simp: Let_def content_type_map_def dest!: first_needle_mem split: option.splits)

text \<open>
  Every response is classified as a type that \<open>normalize\<close> supports: normalizing content
  under its classified type fails only when the RTF parser rejects the content.
\<close>
theorem classified_source_is_normalized:
  "case normalize P (source_type_value (classify_source content_type uri)) content of
     Inr t \<Rightarrow> secret_free t
   | Inl e \<Rightarrow> classify_source content_type uri = RTF \<and>
       (\<exists>e'. rtf_to_text P (decode_ascii_ignore content) = Inl e')"
  using classify_range [of content_type uri]
  by (auto simp: normalize_def normalize_rtf_def redact_secret_free split: sum.splits)

lemma py_in_mono: "py_in p s \<Longrightarrow> py_in p (a @ s @ b)"
  unfolding py_in_iff by (metis append.assoc)

lemma casefold_lower_char: "py_casefold [lower_char c] = casefold_char c"
proof (cases "cp c = 223")
  case True
  then have "lower_char c = c" by (simp add: cp_inject [symmetric] cp_lower_char Let_def)
  then show ?thesis by (simp add: py_casefold_def)
next
  case False
  then have "cp (lower_char c) \<noteq> 223" by (auto simp: cp_lower_char Let_def split: if_splits)
  with False show ?thesis by (simp add: py_casefold_def casefold_char_def)
qed

lemma casefold_lower: "py_casefold (py_lower s) = py_casefold s"
proof (induction s)
  case (Cons c s)
  have "py_casefold (py_lower (c # s)) = py_casefold [lower_char c] @ py_casefold (py_lower s)"
    by (simp add: py_lower_def py_casefold_def)
  then show ?case using Cons casefold_lower_char [of c] by (simp add: py_casefold_def)
qed (simp add: py_lower_def)

lemma casefold_ascii: "\<forall>c \<in> set s. cp c \<noteq> 223 \<Longrightarrow> py_casefold s = py_lower s"
  by (induction s) (auto simp: py_casefold_def py_lower_def casefold_char_def)

lemma find_unsafe_iff:
  "c \<in> set (find_unsafe_categories t) \<longleftrightarrow>
     (\<exists>ps. (c, ps) \<in> set unsafe_categories \<and> (\<exists>p \<in> set ps. py_in p (py_casefold t)))"
  by (force simp: find_unsafe_categories_def)

text \<open>
  The safety filter cannot be evaded by case or by surrounding text: a category found in a
  text is found in every text that contains it, whatever the case.
\<close>
theorem unsafe_categories_monotone:
  "set (find_unsafe_categories t) \<subseteq> set (find_unsafe_categories (a @ py_lower t @ b))"
  using py_in_mono by (fastforce simp: find_unsafe_iff py_casefold_append casefold_lower)

text \<open>
  The content filter flags everything the older one-term filter of the normalizer flags.
\<close>
theorem unsafe_filters_agree:
  assumes "contains_unsafe_content t"
  shows "''violence'' \<in> set (find_unsafe_categories t) \<and> is_unsafe t"
proof -
  let ?p = "''bomb-making''"
  from assms obtain a b where ab: "py_lower t = a @ ?p @ b"
    by (auto simp: contains_unsafe_content_def unsafe_terms_def py_in_iff)
  have "py_casefold ?p = ?p"
    by (simp add: py_casefold_def casefold_char_def lower_char_def cp_def)
  then have "py_casefold t = py_casefold a @ ?p @ py_casefold b"
    using casefold_lower [of t] by (simp only: ab py_casefold_append)
  then have "py_in ?p (py_casefold t)" using py_in_iff by blast
  then have "''violence'' \<in> set (find_unsafe_categories t)"
    unfolding find_unsafe_iff unsafe_categories_def by auto
  then show ?thesis by (auto simp: is_unsafe_def)
qed

theorem unsafe_filters_agree_witness: "is_unsafe ''a Bomb-Making guide''"
proof -
  have "lower_char CHR ''B'' = CHR ''b''" "lower_char CHR ''M'' = CHR ''m''"
    by (simp_all only: cp_inject [symmetric] cp_lower_char) (simp_all add: cp_def)
  then have "contains_unsafe_content ''a Bomb-Making guide''"
    by (simp add: contains_unsafe_content_def unsafe_terms_def py_lower_def lower_char_def cp_def startswith_def)
  then show ?thesis using unsafe_filters_agree by blast
qed

text \<open>
  With a codec whose decoder inverts its encoder, redacting bytes twice changes nothing more,
  decodable bytes decode to secret-free text afterwards, and undecodable bytes pass unchanged.
\<close>
theorem redact_bytes_stable:
  assumes codec: "\<And>s. utf8_decode U (utf8_encode U s) = Some s"
  shows "redact_bytes_for_storage U (redact_bytes_for_storage U c) = redact_bytes_for_storage U c \<and>
    (case utf8_decode U c of
       None \<Rightarrow> redact_bytes_for_storage U c = c
     | Some s \<Rightarrow> utf8_decode U (redact_bytes_for_storage U c) = Some (redact_secrets s))"
  by (simp add: redact_bytes_for_storage_def codec redact_idem split: option.split)

theorem redact_bytes_stable_witness:
  "redact_bytes_for_storage \<lparr>utf8_decode = Some, utf8_encode = id\<rparr>
     (redact_bytes_for_storage \<lparr>utf8_decode = Some, utf8_encode = id\<rparr> ''x'') =
   redact_bytes_for_storage \<lparr>utf8_decode = Some, utf8_encode = id\<rparr> ''x''"
  by (rule redact_bytes_stable [THEN conjunct1]) simp

end
