(* ===== verification/Tables.thy ===== *)
theory Tables
  imports Json Overlap Normalizer
begin

text \<open>
  The relational core: \<open>app/db/models.py\<close>, \<open>app/db/base.py\<close> and the status values of
  \<open>app/db/enums.py\<close>. A table is the list of its rows in insertion order. A transaction is
  the list of changes a session has collected; \<open>commit\<close> applies them all or none, raising
  \<open>IntegrityError\<close> when a declared constraint would be violated and
  \<open>AppendOnlyViolation\<close> when a change edits a row of an append-only table.
  Identifiers are numbers (printed by \<open>str_uuid\<close>), times are microseconds.
\<close>

section \<open>Status values\<close>

datatype statement_status = DRAFT | VERIFIED | QUARANTINED

fun statement_status_value :: "statement_status \<Rightarrow> string" where
  "statement_status_value DRAFT = ''draft''"
| "statement_status_value VERIFIED = ''verified''"
| "statement_status_value QUARANTINED = ''quarantined''"

datatype source_status = PENDING | FETCHED | FAILED | NORMALIZED | SOURCE_QUARANTINED

datatype contradiction_status = FLAGGED | CONFIRMED | REJECTED

definition run_statuses :: "string list" where
  "run_statuses = [''submitted'', ''planning'', ''searching'', ''collecting'', ''storing'', ''extracting'',
     ''comparing'', ''verifying'', ''detecting'', ''concluding'', ''tracing'', ''completed'', ''failed'',
     ''paused'', ''cancelled'']"

section \<open>Rows\<close>

type_synonym uuid = nat
type_synonym time = int

record tenant =
  t_id :: uuid
  t_name :: string
  t_namespace :: string

record run =
  r_id :: uuid
  r_tenant :: uuid
  r_question :: string
  r_status :: string
  r_stage :: "string option"
  r_progress :: rat
  r_budget :: rat
  r_spent :: rat
  r_checkpoint :: "json option"
  r_created :: time
  r_completed :: "time option"

record source =
  src_id :: uuid
  src_run :: uuid
  src_uri :: string
  src_title :: "string option"
  src_type :: string
  src_fetched_at :: "time option"
  src_hash :: string
  src_raw_ref :: "string option"
  src_allowlisted :: bool
  src_status :: source_status

record passage =
  p_id :: uuid
  p_source :: uuid
  p_seq :: nat
  p_text :: string
  p_start :: "nat option"
  p_end :: "nat option"
  p_hash :: string

record statement =
  s_id :: uuid
  s_passage :: uuid
  s_run :: uuid
  s_text :: string
  s_status :: statement_status
  s_confidence :: "rat option"

record evidence_link =
  l_id :: uuid
  l_statement :: uuid
  l_passage :: uuid
  l_run :: uuid
  l_score :: evidence_score
  l_method :: string
  l_created :: time

record finding =
  f_id :: uuid
  f_run :: uuid
  f_title :: string
  f_tier :: string
  f_tags :: "string list"
  f_summary :: "string option"
  f_confidence :: "rat option"

record contradiction =
  c_id :: uuid
  c_run :: uuid
  c_a :: uuid
  c_b :: uuid
  c_status :: contradiction_status
  c_evidence :: "json option"
  c_confirmed_at :: "time option"
  c_created :: time

record conclusion =
  k_id :: uuid
  k_run :: uuid
  k_text :: string
  k_confidence :: "rat option"
  k_review :: bool
  k_created :: time

record audit_row =
  a_id :: uuid
  a_run :: uuid
  a_entity_type :: string
  a_entity_id :: "string option"
  a_action :: string
  a_actor :: "string option"
  a_decision :: "string option"
  a_reason :: "string option"
  a_evidence :: "json option"
  a_ts :: time

record checkpoint =
  cp_id :: uuid
  cp_run :: uuid
  cp_stage :: string
  cp_state :: "json option"
  cp_ts :: time

record kv_entry =
  kv_key :: string
  kv_model :: string
  kv_prompt_hash :: string
  kv_payload :: json
  kv_expires :: "time option"

record db =
  tenants :: "tenant list"
  runs :: "run list"
  sources :: "source list"
  passages :: "passage list"
  statements :: "statement list"
  links :: "evidence_link list"
  findings :: "finding list"
  finding_statements :: "(uuid \<times> uuid) list"
  contradictions :: "contradiction list"
  conclusions :: "conclusion list"
  conclusion_evidence :: "(uuid \<times> uuid) list"
  audit :: "audit_row list"
  checkpoints :: "checkpoint list"
  kv :: "kv_entry list"

definition empty_db :: db where
  "empty_db = \<lparr>tenants = [], runs = [], sources = [], passages = [], statements = [], links = [],
     findings = [], finding_statements = [], contradictions = [], conclusions = [],
     conclusion_evidence = [], audit = [], checkpoints = [], kv = []\<rparr>"

section \<open>Constraints\<close>

definition unit_interval :: "rat option \<Rightarrow> bool" where
  "unit_interval c = (case c of None \<Rightarrow> True | Some x \<Rightarrow> 0 \<le> x \<and> x \<le> 1)"

definition run_ok :: "run \<Rightarrow> bool" where
  "run_ok r \<longleftrightarrow> r_status r \<in> set run_statuses \<and> 0 \<le> r_progress r \<and> r_progress r \<le> 1 \<and> 0 \<le> r_spent r"

definition keys_ok :: "db \<Rightarrow> bool" where
  \<comment> \<open>primary keys and unique constraints\<close>
  "keys_ok d \<longleftrightarrow>
     distinct (map t_id (tenants d)) \<and> distinct (map t_namespace (tenants d)) \<and>
     distinct (map r_id (runs d)) \<and> distinct (map src_id (sources d)) \<and>
     distinct (map (\<lambda>s. (src_run s, src_hash s)) (sources d)) \<and>
     distinct (map p_id (passages d)) \<and> distinct (map (\<lambda>p. (p_source p, p_seq p)) (passages d)) \<and>
     distinct (map s_id (statements d)) \<and> distinct (map l_id (links d)) \<and>
     distinct (map f_id (findings d)) \<and> distinct (finding_statements d) \<and>
     distinct (map c_id (contradictions d)) \<and> distinct (map k_id (conclusions d)) \<and>
     distinct (conclusion_evidence d) \<and> distinct (map a_id (audit d)) \<and>
     distinct (map cp_id (checkpoints d)) \<and>
     distinct (map (\<lambda>c. (cp_run c, cp_stage c)) (checkpoints d)) \<and> distinct (map kv_key (kv d))"

definition checks_ok :: "db \<Rightarrow> bool" where
  \<comment> \<open>check constraints; the status columns whose values are datatypes here need none\<close>
  "checks_ok d \<longleftrightarrow> list_all run_ok (runs d) \<and> list_all (\<lambda>s. unit_interval (s_confidence s)) (statements d) \<and>
     list_all (\<lambda>f. unit_interval (f_confidence f) \<and> f_tier f \<in> {''t1'', ''t2'', ''t3'', ''t4''}) (findings d) \<and>
     list_all (\<lambda>k. unit_interval (k_confidence k)) (conclusions d) \<and>
     list_all (\<lambda>s. src_type s \<in> set (map source_type_value [WEB, PDF, RSS, DOCX, RTF, UPLOAD, OTHER])) (sources d)"

definition refs_ok :: "db \<Rightarrow> bool" where
  \<comment> \<open>foreign keys\<close>
  "refs_ok d \<longleftrightarrow>
     list_all (\<lambda>r. r_tenant r \<in> set (map t_id (tenants d))) (runs d) \<and>
     list_all (\<lambda>s. src_run s \<in> set (map r_id (runs d))) (sources d) \<and>
     list_all (\<lambda>p. p_source p \<in> set (map src_id (sources d))) (passages d) \<and>
     list_all (\<lambda>s. s_passage s \<in> set (map p_id (passages d)) \<and> s_run s \<in> set (map r_id (runs d))) (statements d) \<and>
     list_all (\<lambda>l. l_statement l \<in> set (map s_id (statements d)) \<and> l_passage l \<in> set (map p_id (passages d)) \<and>
       l_run l \<in> set (map r_id (runs d))) (links d) \<and>
     list_all (\<lambda>f. f_run f \<in> set (map r_id (runs d))) (findings d) \<and>
     list_all (\<lambda>(f, s). f \<in> set (map f_id (findings d)) \<and> s \<in> set (map s_id (statements d))) (finding_statements d) \<and>
     list_all (\<lambda>c. c_a c \<in> set (map s_id (statements d)) \<and> c_b c \<in> set (map s_id (statements d)) \<and>
       c_run c \<in> set (map r_id (runs d))) (contradictions d) \<and>
     list_all (\<lambda>k. k_run k \<in> set (map r_id (runs d))) (conclusions d) \<and>
     list_all (\<lambda>(k, s). k \<in> set (map k_id (conclusions d)) \<and> s \<in> set (map s_id (statements d))) (conclusion_evidence d) \<and>
     list_all (\<lambda>a. a_run a \<in> set (map r_id (runs d))) (audit d) \<and>
     list_all (\<lambda>c. cp_run c \<in> set (map r_id (runs d))) (checkpoints d)"

definition db_ok :: "db \<Rightarrow> bool" where
  "db_ok d \<longleftrightarrow> keys_ok d \<and> checks_ok d \<and> refs_ok d"

section \<open>Changes and transactions\<close>

datatype change =
    AddTenant tenant
  | AddRun run
  | UpdRun uuid "run \<Rightarrow> run"
  | AddSource source
  | UpdSource uuid "source \<Rightarrow> source"
  | AddPassage passage
  | AddStatement statement
  | UpdStatement uuid "statement \<Rightarrow> statement"
  | AddLink evidence_link
  | EditLink uuid                 \<comment> \<open>any UPDATE or DELETE of an evidence link\<close>
  | AddFinding finding
  | AddFindingStatement uuid uuid
  | AddContradiction contradiction
  | AddConclusion conclusion
  | AddConclusionEvidence uuid uuid
  | AddAudit audit_row
  | EditAudit uuid                \<comment> \<open>any UPDATE or DELETE of an audit row\<close>
  | AddCheckpoint checkpoint
  | UpdCheckpoint uuid "json option"
  | AddKV kv_entry
  | UpdKV kv_entry
  | DelKV string

definition upd_where :: "('a \<Rightarrow> bool) \<Rightarrow> ('a \<Rightarrow> 'a) \<Rightarrow> 'a list \<Rightarrow> 'a list" where
  "upd_where P f xs = map (\<lambda>x. if P x then f x else x) xs"

lemma map_upd_where: "(\<And>x. P x \<Longrightarrow> k (f x) = k x) \<Longrightarrow> map k (upd_where P f xs) = map k xs"
  by (induction xs) (auto simp: upd_where_def)

fun block_update_or_delete :: "string \<Rightarrow> exn" where
  "block_update_or_delete name = AppendOnlyViolation (name @
     '' is append-only: in-place UPDATE/DELETE is forbidden. '' @
     ''Versioning and correction happen via new rows (design doc 7.2).'')"

fun apply_change :: "change \<Rightarrow> db \<Rightarrow> db result" where
  "apply_change (AddTenant x) d = Inr (d\<lparr>tenants := tenants d @ [x]\<rparr>)"
| "apply_change (AddRun x) d = Inr (d\<lparr>runs := runs d @ [x]\<rparr>)"
| "apply_change (UpdRun i f) d =      \<comment> \<open>no update assigns the primary key\<close>
     Inr (d\<lparr>runs := upd_where (\<lambda>r. r_id r = i) (\<lambda>r. (f r)\<lparr>r_id := i\<rparr>) (runs d)\<rparr>)"
| "apply_change (AddSource x) d = Inr (d\<lparr>sources := sources d @ [x]\<rparr>)"
| "apply_change (UpdSource i f) d = Inr (d\<lparr>sources := upd_where (\<lambda>s. src_id s = i) f (sources d)\<rparr>)"
| "apply_change (AddPassage x) d = Inr (d\<lparr>passages := passages d @ [x]\<rparr>)"
| "apply_change (AddStatement x) d = Inr (d\<lparr>statements := statements d @ [x]\<rparr>)"
| "apply_change (UpdStatement i f) d = Inr (d\<lparr>statements := upd_where (\<lambda>s. s_id s = i) f (statements d)\<rparr>)"
| "apply_change (AddLink x) d = Inr (d\<lparr>links := links d @ [x]\<rparr>)"
| "apply_change (EditLink i) d = Inl (block_update_or_delete ''EvidenceLink'')"
| "apply_change (AddFinding x) d = Inr (d\<lparr>findings := findings d @ [x]\<rparr>)"
| "apply_change (AddFindingStatement f s) d = Inr (d\<lparr>finding_statements := finding_statements d @ [(f, s)]\<rparr>)"
| "apply_change (AddContradiction x) d = Inr (d\<lparr>contradictions := contradictions d @ [x]\<rparr>)"
| "apply_change (AddConclusion x) d = Inr (d\<lparr>conclusions := conclusions d @ [x]\<rparr>)"
| "apply_change (AddConclusionEvidence k s) d = Inr (d\<lparr>conclusion_evidence := conclusion_evidence d @ [(k, s)]\<rparr>)"
| "apply_change (AddAudit x) d = Inr (d\<lparr>audit := audit d @ [x]\<rparr>)"
| "apply_change (EditAudit i) d = Inl (block_update_or_delete ''AuditTrace'')"
| "apply_change (AddCheckpoint x) d = Inr (d\<lparr>checkpoints := checkpoints d @ [x]\<rparr>)"
| "apply_change (UpdCheckpoint i st) d =
     Inr (d\<lparr>checkpoints := upd_where (\<lambda>c. cp_id c = i) (\<lambda>c. c\<lparr>cp_state := st\<rparr>) (checkpoints d)\<rparr>)"
| "apply_change (AddKV x) d = Inr (d\<lparr>kv := kv d @ [x]\<rparr>)"
| "apply_change (UpdKV x) d = Inr (d\<lparr>kv := upd_where (\<lambda>e. kv_key e = kv_key x) (\<lambda>_. x) (kv d)\<rparr>)"
| "apply_change (DelKV k) d = Inr (d\<lparr>kv := filter (\<lambda>e. kv_key e \<noteq> k) (kv d)\<rparr>)"

fun apply_all :: "('op \<Rightarrow> 's \<Rightarrow> 's result) \<Rightarrow> 'op list \<Rightarrow> 's \<Rightarrow> 's result" where
  "apply_all step [] s = Inr s"
| "apply_all step (x # xs) s = result_bind (step x s) (apply_all step xs)"

definition commit :: "change list \<Rightarrow> db \<Rightarrow> db result" where
  "commit changes d = result_bind (apply_all apply_change changes d)
     (\<lambda>d'. if db_ok d' then Inr d' else Inl (IntegrityError ''constraint violated''))"

section \<open>Append-only logs\<close>

locale append_log =
  fixes log :: "'s \<Rightarrow> 'r list" and step :: "'op \<Rightarrow> 's \<Rightarrow> 's result"
  assumes step_extends: "step x s = Inr s' \<Longrightarrow> prefix (log s) (log s')"
begin

lemma all_extend: "apply_all step xs s = Inr s' \<Longrightarrow> prefix (log s) (log s')"
proof (induction xs arbitrary: s)
  case (Cons x xs)
  then obtain t where "step x s = Inr t" "apply_all step xs t = Inr s'" by (auto simp: result_bind_ok)
  with Cons.IH step_extends show ?case by (meson prefix_order.trans)
qed simp

lemma all_keep: "apply_all step xs s = Inr s' \<Longrightarrow> r \<in> set (log s) \<Longrightarrow> r \<in> set (log s')"
  using all_extend prefix_set by blast

end

lemma apply_links: "apply_change c d = Inr d' \<Longrightarrow> prefix (links d) (links d')"
  by (cases c) auto

lemma apply_audit: "apply_change c d = Inr d' \<Longrightarrow> prefix (audit d) (audit d')"
  by (cases c) auto

interpretation link_log: append_log links apply_change
  by unfold_locales (rule apply_links)

interpretation audit_log: append_log audit apply_change
  by unfold_locales (rule apply_audit)

lemma commit_ok: "commit cs d = Inr d' \<longleftrightarrow> apply_all apply_change cs d = Inr d' \<and> db_ok d'"
  by (auto simp: commit_def result_bind_ok)

lemma commit_logs:
  "commit cs d = Inr d' \<Longrightarrow> prefix (links d) (links d') \<and> prefix (audit d) (audit d')"
  using link_log.all_extend audit_log.all_extend unfolding commit_ok by blast

definition run_keys :: "db \<Rightarrow> uuid list" where
  "run_keys d = map r_id (runs d)"

definition checkpoint_keys :: "db \<Rightarrow> (uuid \<times> string) list" where
  "checkpoint_keys d = map (\<lambda>c. (cp_run c, cp_stage c)) (checkpoints d)"

lemma apply_run_keys: "apply_change c d = Inr d' \<Longrightarrow> prefix (run_keys d) (run_keys d')"
proof (cases c)
  fix i f assume "apply_change c d = Inr d'" and c: "c = UpdRun i f"
  then have d': "d' = d\<lparr>runs := upd_where (\<lambda>r. r_id r = i) (\<lambda>r. (f r)\<lparr>r_id := i\<rparr>) (runs d)\<rparr>" by simp
  have r: "runs d' = upd_where (\<lambda>r. r_id r = i) (\<lambda>r. (f r)\<lparr>r_id := i\<rparr>) (runs d)" by (simp add: d')
  show ?thesis unfolding run_keys_def r by (subst map_upd_where) auto
qed (auto simp: run_keys_def)

lemma apply_checkpoint_keys: "apply_change c d = Inr d' \<Longrightarrow> prefix (checkpoint_keys d) (checkpoint_keys d')"
proof (cases c)
  fix i st assume "apply_change c d = Inr d'" and c: "c = UpdCheckpoint i st"
  then have d': "d' = d\<lparr>checkpoints := upd_where (\<lambda>c. cp_id c = i) (\<lambda>c. c\<lparr>cp_state := st\<rparr>) (checkpoints d)\<rparr>" by simp
  have r: "checkpoints d' = upd_where (\<lambda>c. cp_id c = i) (\<lambda>c. c\<lparr>cp_state := st\<rparr>) (checkpoints d)" by (simp add: d')
  show ?thesis unfolding checkpoint_keys_def r by (subst map_upd_where) auto
qed (auto simp: checkpoint_keys_def)

interpretation run_log: append_log run_keys apply_change
  by unfold_locales (rule apply_run_keys)

interpretation checkpoint_log: append_log checkpoint_keys apply_change
  by unfold_locales (rule apply_checkpoint_keys)

lemma commit_keys:
  "commit cs d = Inr d' \<Longrightarrow> prefix (run_keys d) (run_keys d') \<and> prefix (checkpoint_keys d) (checkpoint_keys d')"
  using run_log.all_extend checkpoint_log.all_extend unfolding commit_ok by blast

lemma empty_db_ok: "db_ok empty_db"
  by (simp add: db_ok_def keys_ok_def checks_ok_def refs_ok_def empty_db_def)

lemma apply_all_append:
  "apply_all step (xs @ ys) s = result_bind (apply_all step xs s) (apply_all step ys)"
proof (induction xs arbitrary: s)
  case (Cons x xs)
  then show ?case by (cases "step x s") auto
qed simp

lemma apply_all_err: "apply_all apply_change cs d = Inl e \<Longrightarrow> \<exists>m. e = AppendOnlyViolation m"
proof (induction cs arbitrary: d)
  case (Cons c cs)
  then show ?case by (cases c) (auto simp: result_bind_err)
qed simp

lemma commit_err:
  "commit cs d = Inl e \<Longrightarrow> (\<exists>m. e = AppendOnlyViolation m) \<or> (\<exists>m. e = IntegrityError m)"
  using apply_all_err by (auto simp: commit_def result_bind_err split: if_splits)

text \<open>
  C2. Whatever a transaction holds, committing it keeps the evidence links and the audit trail as
  they are and only adds rows at their end; a transaction that edits a row of either table is
  refused as a whole; and a commit leaves every declared constraint satisfied.
\<close>
theorem commit_append_only:
  "case commit cs d of
     Inr d' \<Rightarrow> prefix (links d) (links d') \<and> prefix (audit d) (audit d') \<and> db_ok d' \<and>
       (\<forall>i. EditLink i \<notin> set cs \<and> EditAudit i \<notin> set cs)
   | Inl e \<Rightarrow> (\<exists>m. e = AppendOnlyViolation m) \<or> (\<exists>m. e = IntegrityError m)"
proof -
  have edit: "apply_all apply_change cs d = Inr d' \<Longrightarrow> EditLink i \<notin> set cs \<and> EditAudit i \<notin> set cs" for d d' i
  proof (induction cs arbitrary: d)
    case (Cons c cs)
    then show ?case by (cases c) (auto simp: result_bind_ok)
  qed simp
  show ?thesis
  proof (cases "commit cs d")
    case (Inl e)
    then show ?thesis using commit_err by simp
  next
    case (Inr d')
    then have "apply_all apply_change cs d = Inr d'" "db_ok d'" by (simp_all add: commit_ok)
    with Inr commit_logs [OF Inr] edit show ?thesis by auto
  qed
qed

end
