(* ===== verification/Egress.thy ===== *)
theory Egress
  imports Errors "HOL-Library.Char_ord" "HOL-Library.List_Lexorder"
begin

text \<open>
  The egress gate: \<open>app/services/allowlist.py\<close>, with the part of \<open>urllib.parse\<close> it
  reads (the scheme, the network location and the host of a URI). The standard library validates a
  bracketed host with its IP address parser; that check is the parameter \<open>brackets_ok\<close>.
\<close>

section \<open>The host of a URI\<close>

definition is_scheme_char :: "char \<Rightarrow> bool" where
  "is_scheme_char c \<longleftrightarrow> is_upper_az c \<or> is_lower_az c \<or> is_digit c \<or> c \<in> set ''+-.''"

definition clean_url :: "string \<Rightarrow> string" where
  \<comment> \<open>leading control characters and blanks are stripped, tabs and line ends removed\<close>
  "clean_url url = filter (\<lambda>c. cp c \<noteq> 9 \<and> cp c \<noteq> 10 \<and> cp c \<noteq> 13) (dropWhile (\<lambda>c. cp c \<le> 32) url)"

definition after_scheme :: "string \<Rightarrow> string" where
  "after_scheme url =
     (case find_char CHR '':'' url of
        None \<Rightarrow> url
      | Some i \<Rightarrow>
          if 0 < i \<and> (is_upper_az (hd url) \<or> is_lower_az (hd url)) \<and> list_all is_scheme_char (take i url)
          then drop (Suc i) url else url)"

definition url_netloc :: "string \<Rightarrow> string" where
  "url_netloc url =
     (let rest = after_scheme (clean_url url)
      in if startswith ''//'' rest then takeWhile (\<lambda>c. c \<notin> set ''/?#'') (drop 2 rest) else [])"

definition url_hostname :: "(string \<Rightarrow> bool) \<Rightarrow> string \<Rightarrow> string result" where
  \<comment> \<open>\<open>urlparse(uri).hostname or \"\"\<close>\<close>
  "url_hostname brackets_ok url =
     (let netloc = url_netloc url; lb = CHR ''['' \<in> set netloc; rb = CHR '']'' \<in> set netloc
      in if lb \<noteq> rb then Inl (ValueError ''Invalid IPv6 URL'')
         else if lb \<and> \<not> brackets_ok netloc then Inl (ValueError ''Invalid IPv6 URL'')
         else
           let hostinfo = after_last_char CHR ''@'' netloc;
               host = (if CHR ''['' \<in> set hostinfo then before_char CHR '']'' (after_char CHR ''['' hostinfo)
                       else before_char CHR '':'' hostinfo)
           in Inr (if CHR ''%'' \<in> set host
                   then py_lower (before_char CHR ''%'' host) @ CHR ''%'' # after_char CHR ''%'' host
                   else py_lower host))"

section \<open>The allowlist\<close>

definition allowlist_domains :: "string list \<Rightarrow> string list" where
  \<comment> \<open>\<open>Allowlist.__init__\<close>: the sorted set of normalized entries\<close>
  "allowlist_domains domains =
     sort (remdups (map (\<lambda>d. py_lstrip_set ''*.'' (py_lower (py_strip d))) (filter (\<lambda>d. \<not> blank d) domains)))"

definition allowlist_from_settings :: "string \<Rightarrow> string list" where
  "allowlist_from_settings allowed_domains =
     allowlist_domains (map py_strip (filter (\<lambda>p. \<not> blank p) (split_char CHR '','' allowed_domains)))"

definition allows :: "string list \<Rightarrow> string \<Rightarrow> bool" where
  "allows domains host =
     (let h = py_lower (py_strip host)
      in if h = [] then False
         else list_ex (\<lambda>d. h = d \<or> endswith (CHR ''.'' # d) h) domains)"

definition allowlist_check :: "(string \<Rightarrow> bool) \<Rightarrow> string list \<Rightarrow> string \<Rightarrow> string result" where
  "allowlist_check brackets_ok domains uri =
     result_bind (url_hostname brackets_ok uri) (\<lambda>hostname.
       let host = py_lower hostname
       in if host = [] \<or> \<not> allows domains host
          then Inl (AllowlistDeniedError (''URI host '' @ quoted (if host = [] then ''(none)'' else host) @
            '' is not on the ALLOWED_DOMAINS egress allowlist (G-06)''))
          else Inr uri)"

section \<open>Labels\<close>

lemma split_char_nonempty [simp]: "split_char c s \<noteq> []"
  by (induction s) (auto split: list.split)

lemma split_char_append: "split_char c (p @ c # d) = split_char c p @ split_char c d"
  by (induction p) (auto split: list.split)

lemma allows_iff:
  "allows domains host \<longleftrightarrow> py_lower (py_strip host) \<noteq> [] \<and>
     (\<exists>d \<in> set domains. \<exists>p. py_lower (py_strip host) = d \<or> py_lower (py_strip host) = p @ CHR ''.'' # d)"
  by (auto simp: allows_def Let_def list_ex_iff endswith_iff)

lemma check_ok_iff:
  "allowlist_check b domains uri = Inr u \<longleftrightarrow>
     u = uri \<and> (\<exists>h. url_hostname b uri = Inr h \<and> py_lower h \<noteq> [] \<and> allows domains (py_lower h))"
  by (auto simp: allowlist_check_def result_bind_ok Let_def split: if_splits)

lemma check_error:
  "allowlist_check b domains uri = Inl e \<Longrightarrow> (\<exists>m. e = AllowlistDeniedError m) \<or> e = ValueError ''Invalid IPv6 URL''"
  by (auto simp: allowlist_check_def url_hostname_def result_bind_err Let_def split: if_splits)

section \<open>Properties\<close>

text \<open>
  C27. The gate matches whole labels: an admitted URI is returned unchanged, and the labels of its
  host end with the labels of an allowlisted domain, so a host that merely ends in the domain's
  text is refused.
\<close>
theorem admitted_host_has_allowed_labels:
  assumes "allowlist_check brackets_ok domains uri = Inr u"
  shows "u = uri \<and> (\<exists>h d. url_hostname brackets_ok uri = Inr h \<and> d \<in> set domains \<and>
    suffix (split_char CHR ''.'' d) (split_char CHR ''.'' (py_lower (py_strip (py_lower h)))))"
proof -
  from assms obtain h where h: "u = uri" "url_hostname brackets_ok uri = Inr h" "allows domains (py_lower h)"
    by (auto simp: check_ok_iff)
  then obtain d p where "d \<in> set domains"
      "py_lower (py_strip (py_lower h)) = d \<or> py_lower (py_strip (py_lower h)) = p @ CHR ''.'' # d"
    by (auto simp: allows_iff)
  then have "d \<in> set domains"
      "suffix (split_char CHR ''.'' d) (split_char CHR ''.'' (py_lower (py_strip (py_lower h))))"
    by (auto simp: split_char_append suffix_def)
  with h show ?thesis by blast
qed

theorem admitted_host_has_allowed_labels_witness:
  "allowlist_check (\<lambda>_. False) [''a.org''] ''http://x.a.org/p'' = Inr ''http://x.a.org/p'' \<and>
   \<not> is_ok (allowlist_check (\<lambda>_. False) [''a.org''] ''http://xa.org/p'')"
proof -
  have "allowlist_check (\<lambda>_. False) [''a.org''] ''http://x.a.org/p'' = Inr ''http://x.a.org/p''" by code_simp
  from admitted_host_has_allowed_labels [OF this] and this
  have "allowlist_check (\<lambda>_. False) [''a.org''] ''http://x.a.org/p'' = Inr ''http://x.a.org/p''" by blast
  moreover have "\<not> is_ok (allowlist_check (\<lambda>_. False) [''a.org''] ''http://xa.org/p'')" by code_simp
  ultimately show ?thesis by blast
qed

text \<open>
  Default deny: without configured domains no URI is admitted; a URI whose host is malformed
  raises \<open>ValueError\<close>, not the denial that the collect stage handles.
\<close>
theorem egress_default_deny:
  "(\<forall>uri. \<not> is_ok (allowlist_check brackets_ok (allowlist_from_settings []) uri)) \<and>
   allowlist_check brackets_ok domains ''http://[a'' = Inl (ValueError ''Invalid IPv6 URL'')"
proof -
  have "allowlist_from_settings [] = []"
    by (simp add: allowlist_from_settings_def allowlist_domains_def blank_def)
  then have "\<not> is_ok (allowlist_check brackets_ok (allowlist_from_settings []) uri)" for uri
    by (auto simp: is_ok_iff check_ok_iff allows_def Let_def)
  moreover have "url_netloc ''http://[a'' = ''[a''" by code_simp
  then have "allowlist_check brackets_ok domains ''http://[a'' = Inl (ValueError ''Invalid IPv6 URL'')"
    by (simp add: allowlist_check_def url_hostname_def)
  ultimately show ?thesis by blast
qed

text \<open>
  A wildcard entry is normalized to the empty domain, and that entry admits every host written
  with its trailing dot.
\<close>
theorem wildcard_admits_rooted_hosts:
  "allowlist_from_settings ''*'' = [[]] \<and> allows (allowlist_from_settings ''*'') (h @ ''.'')"
proof -
  have w: "allowlist_from_settings ''*'' = [[]]" by code_simp
  have dot: "\<not> is_space CHR ''.''" by (simp add: is_space_def cp_def)
  then obtain p where "dropWhile is_space (h @ ''.'') = p @ ''.''"
    by (metis append_Nil dropWhile.simps dropWhile_append dropWhile_append1)
  with dot have "py_strip (h @ ''.'') = p @ ''.''" by (simp add: py_strip_def)
  then have "py_lower (py_strip (h @ ''.'')) = py_lower p @ ''.''"
    by (simp add: py_lower_def lower_char_def cp_def)
  with w show ?thesis unfolding allows_iff by simp
qed

end
