(* ===== verification/World.thy ===== *)
theory World
  imports Tables Egress Settings
begin

text \<open>
  The state a running process works on, and programs over it. A program takes the world to a
  result and the world it leaves: \<open>and_then\<close> is statement sequence (an exception skips the
  rest), \<open>attempt\<close> is \<open>try/except\<close>, \<open>tx\<close> commits the changes a session has collected
  and leaves the database alone when the commit fails. What lies outside the source (the LLM
  provider, the network, the file system, the clock's progress during a call, JSON text, hashes)
  is the record \<open>env\<close>.

  \<open>keeps Q p\<close> says that program \<open>p\<close>, finished or failed, relates the databases before and
  after by \<open>Q\<close>. The locales \<open>db_preorder\<close> and \<open>db_relation\<close> are the interface
  the components' \<open>keeps\<close> lemmas are proved against, once for every such relation.
\<close>

section \<open>The outside world\<close>

record message =
  msg_role :: string
  msg_content :: string

record request =
  rq_model :: string
  rq_messages :: "message list"
  rq_json_mode :: bool              \<comment> \<open>\<open>response_format\<close> is \<open>json_object\<close>\<close>
  rq_temperature :: "rat option"
  rq_max_tokens :: "nat option"

record response =
  resp_choices :: "string option list"                       \<comment> \<open>\<open>choices[i].message.content\<close>\<close>
  resp_usage :: "(int option \<times> int option) option"      \<comment> \<open>prompt and completion tokens\<close>

record http_response =
  http_status :: nat
  http_body :: bytes
  http_content_type :: "string option"

datatype xml = Element (xml_tag: string) (xml_attrib: "(string \<times> string) list") (xml_text: "string option") (xml_children: "xml list")

record env =
  provider :: "nat \<Rightarrow> request \<Rightarrow> response result"      \<comment> \<open>reply to the n-th call\<close>
  provider_time :: "nat \<Rightarrow> nat"                        \<comment> \<open>microseconds the n-th call takes\<close>
  completion_cost :: "response \<Rightarrow> string \<Rightarrow> rat option"  \<comment> \<open>LiteLLM's price, if it knows one\<close>
  tiktoken_len :: "string \<Rightarrow> string \<Rightarrow> nat option"   \<comment> \<open>\<open>None\<close> without tiktoken\<close>
  json_loads :: "string \<Rightarrow> json option"
  json_dumps :: "json \<Rightarrow> string"                        \<comment> \<open>sorted keys\<close>
  sha256 :: "bytes \<Rightarrow> string"
  utf8 :: utf8
  utf16_decode :: "bytes \<Rightarrow> string option"
  brackets_ok :: "string \<Rightarrow> bool"
  http_get :: "nat \<Rightarrow> string \<Rightarrow> http_response result"  \<comment> \<open>the n-th request\<close>
  http_time :: "nat \<Rightarrow> nat"                            \<comment> \<open>microseconds it takes\<close>
  read_file :: "string \<Rightarrow> bytes result option"     \<comment> \<open>\<open>None\<close> when nothing exists at the path\<close>
  data_dir :: "string option"                         \<comment> \<open>the variable ECRKE_DATA_DIR\<close>
  ddgs_text :: "string \<Rightarrow> int \<Rightarrow> json list result" \<comment> \<open>the search library's result objects\<close>
  parse_xml :: "bytes \<Rightarrow> xml result"                \<comment> \<open>\<open>OtherError\<close> is the parser's \<open>ParseError\<close>\<close>
  format_parsers :: parsers
  fixed3 :: "rat \<Rightarrow> string"                             \<comment> \<open>three decimals\<close>
  fixed2 :: "rat \<Rightarrow> string"                             \<comment> \<open>two decimals\<close>
  isoformat :: "time \<Rightarrow> string"
  model_time :: "time \<Rightarrow> string"                     \<comment> \<open>a timestamp in a Pydantic dump\<close>
  show_decimal :: "rat \<Rightarrow> string"
  show_json :: "json \<Rightarrow> string"                       \<comment> \<open>\<open>str\<close> of a value that is not a string\<close>

section \<open>The state\<close>

record world =
  w_db :: db
  w_blobs :: "string \<Rightarrow> bytes option"
  w_now :: time
  w_next :: uuid                    \<comment> \<open>the next fresh identifier\<close>
  w_stamps :: "time list"           \<comment> \<open>\<open>LLMGateway._call_timestamps\<close>\<close>
  w_sent :: "(time \<times> request) list" \<comment> \<open>every request made to the provider, and when\<close>
  w_last_fetch :: "string \<Rightarrow> time option"
  w_requests :: "string list"       \<comment> \<open>every URI requested over the network\<close>
  w_events :: "(string \<times> json) list" \<comment> \<open>emitted lifecycle events\<close>

type_synonym 'a prog = "world \<Rightarrow> 'a result \<times> world"

section \<open>Programs\<close>

definition ret :: "'a \<Rightarrow> 'a prog" where
  "ret x w = (Inr x, w)"

definition throw :: "exn \<Rightarrow> 'a prog" where
  "throw e w = (Inl e, w)"

definition lift :: "'a result \<Rightarrow> 'a prog" where
  "lift r w = (r, w)"

definition and_then :: "'a prog \<Rightarrow> ('a \<Rightarrow> 'b prog) \<Rightarrow> 'b prog" where
  "and_then p f w = (case p w of (Inl e, w') \<Rightarrow> (Inl e, w') | (Inr x, w') \<Rightarrow> f x w')"

definition attempt :: "'a prog \<Rightarrow> (exn \<Rightarrow> 'a prog) \<Rightarrow> 'a prog" where
  "attempt p h w = (case p w of (Inl e, w') \<Rightarrow> h e w' | (Inr x, w') \<Rightarrow> (Inr x, w'))"

definition reads :: "(world \<Rightarrow> 'a) \<Rightarrow> 'a prog" where
  "reads f w = (Inr (f w), w)"

definition fetch_db :: "(db \<Rightarrow> 'a) \<Rightarrow> 'a prog" where
  "fetch_db f w = (Inr (f (w_db w)), w)"

definition sleep :: "int \<Rightarrow> unit prog" where
  "sleep t w = (Inr (), w\<lparr>w_now := w_now w + max 0 t\<rparr>)"

definition uuid4 :: "uuid prog" where
  "uuid4 w = (Inr (w_next w), w\<lparr>w_next := Suc (w_next w)\<rparr>)"

definition tx :: "change list \<Rightarrow> unit prog" where
  "tx changes w = (case commit changes (w_db w) of Inl e \<Rightarrow> (Inl e, w) | Inr d \<Rightarrow> (Inr (), w\<lparr>w_db := d\<rparr>))"

definition guard :: "bool \<Rightarrow> exn \<Rightarrow> unit prog" where
  "guard b e = (if b then ret () else throw e)"

fun each :: "('a \<Rightarrow> 'b prog) \<Rightarrow> 'a list \<Rightarrow> 'b list prog" where
  \<comment> \<open>run the body for each element and collect the results\<close>
  "each f [] = ret []"
| "each f (x # xs) = and_then (f x) (\<lambda>y. and_then (each f xs) (\<lambda>ys. ret (y # ys)))"

lemmas each_code [code] = each.simps [THEN fun_cong] guard_def [THEN fun_cong]

definition seconds :: "int \<Rightarrow> int" where
  "seconds n = n * 1000000"

named_theorems keeps_rules \<open>programs relate the databases before and after\<close>

lemma and_then_run [run_simps]:
  "p w = (Inl e, w') \<Longrightarrow> and_then p f w = (Inl e, w')"
  "p w = (Inr x, w') \<Longrightarrow> and_then p f w = f x w'"
  by (simp_all add: and_then_def)

lemma prog_simps [run_simps, simp]:
  "ret x w = (Inr x, w)"
  "throw e w = (Inl e, w)"
  "lift r w = (r, w)"
  "reads g w = (Inr (g w), w)"
  "fetch_db h w = (Inr (h (w_db w)), w)"
  "uuid4 w = (Inr (w_next w), w\<lparr>w_next := Suc (w_next w)\<rparr>)"
  "sleep t w = (Inr (), w\<lparr>w_now := w_now w + max 0 t\<rparr>)"
  by (simp_all add: ret_def throw_def lift_def reads_def fetch_db_def uuid4_def sleep_def)

lemma and_then_Inr:
  "and_then p f w = (Inr y, w'') \<longleftrightarrow> (\<exists>x w'. p w = (Inr x, w') \<and> f x w' = (Inr y, w''))"
  by (auto simp: and_then_def split: prod.split sum.split)

lemma and_then_Inl:
  "and_then p f w = (Inl e, w'') \<longleftrightarrow>
     p w = (Inl e, w'') \<or> (\<exists>x w'. p w = (Inr x, w') \<and> f x w' = (Inl e, w''))"
  by (auto simp: and_then_def split: prod.split sum.split)

lemma attempt_Inr:
  "attempt p h w = (Inr y, w'') \<longleftrightarrow>
     p w = (Inr y, w'') \<or> (\<exists>e w'. p w = (Inl e, w') \<and> h e w' = (Inr y, w''))"
  by (auto simp: attempt_def split: prod.split sum.split)

lemma attempt_Inl:
  "attempt p h w = (Inl e, w'') \<longleftrightarrow> (\<exists>e' w'. p w = (Inl e', w') \<and> h e' w' = (Inl e, w''))"
  by (auto simp: attempt_def split: prod.split sum.split)

lemma guard_iff:
  "guard b e w = (Inr u, w') \<longleftrightarrow> b \<and> w' = w"
  "guard b e w = (Inl e', w') \<longleftrightarrow> \<not> b \<and> e' = e \<and> w' = w"
  by (auto simp: guard_def)

lemma tx_Inr: "tx cs w = (Inr u, w') \<longleftrightarrow> (\<exists>d. commit cs (w_db w) = Inr d \<and> w' = w\<lparr>w_db := d\<rparr>)"
  by (auto simp: tx_def split: sum.splits)

lemma tx_Inl: "tx cs w = (Inl e, w') \<longleftrightarrow> commit cs (w_db w) = Inl e \<and> w' = w"
  by (auto simp: tx_def split: sum.splits)

lemmas prog_results = and_then_Inr and_then_Inl attempt_Inr attempt_Inl guard_iff tx_Inr tx_Inl

section \<open>Relations between databases\<close>

definition keeps :: "(db \<Rightarrow> db \<Rightarrow> bool) \<Rightarrow> 'a prog \<Rightarrow> bool" where
  "keeps Q p \<longleftrightarrow> (\<forall>w. Q (w_db w) (w_db (snd (p w))))"

lemma keepsD: "keeps Q p \<Longrightarrow> p w = (r, w') \<Longrightarrow> Q (w_db w) (w_db w')"
  unfolding keeps_def by (metis snd_conv)

locale db_preorder =
  fixes Q :: "db \<Rightarrow> db \<Rightarrow> bool"
  assumes Q_refl: "Q d d" and Q_trans: "Q a b \<Longrightarrow> Q b c \<Longrightarrow> Q a c"
begin

lemma same_db: "(\<And>w. w_db (snd (p w)) = w_db w) \<Longrightarrow> keeps Q p"
  by (simp add: keeps_def Q_refl)

lemma keeps_basic [keeps_rules]:
  "keeps Q (ret x)" "keeps Q (throw e)" "keeps Q (lift r)" "keeps Q (reads g)" "keeps Q (fetch_db h)"
  "keeps Q uuid4" "keeps Q (sleep t)" "keeps Q (guard b e)"
  by (rule same_db; simp add: guard_def)+

lemma keeps_and_then [keeps_rules]:
  assumes "keeps Q p" and "\<And>x. keeps Q (f x)"
  shows "keeps Q (and_then p f)"
  unfolding keeps_def
proof
  fix w
  obtain r w' where p: "p w = (r, w')" by fastforce
  have "Q (w_db w) (w_db w')" using keepsD [OF assms(1) p] .
  moreover have "Q (w_db w') (w_db (snd (f x w')))" for x
    using assms(2) unfolding keeps_def by blast
  ultimately show "Q (w_db w) (w_db (snd (and_then p f w)))"
    using p Q_trans by (cases r) (auto simp: and_then_def)
qed

lemma keeps_attempt [keeps_rules]:
  assumes "keeps Q p" and "\<And>e. keeps Q (h e)"
  shows "keeps Q (attempt p h)"
  unfolding keeps_def
proof
  fix w
  obtain r w' where p: "p w = (r, w')" by fastforce
  have "Q (w_db w) (w_db w')" using keepsD [OF assms(1) p] .
  moreover have "Q (w_db w') (w_db (snd (h e w')))" for e
    using assms(2) unfolding keeps_def by blast
  ultimately show "Q (w_db w) (w_db (snd (attempt p h w)))"
    using p Q_trans by (cases r) (auto simp: attempt_def)
qed

lemma keeps_each [keeps_rules]: "(\<And>x. keeps Q (f x)) \<Longrightarrow> keeps Q (each f xs)"
  by (induction xs) (auto intro!: keeps_rules)

lemma keeps_if [keeps_rules]: "keeps Q p \<Longrightarrow> keeps Q q \<Longrightarrow> keeps Q (if b then p else q)"
  by simp

lemma keeps_option [keeps_rules]:
  "keeps Q p \<Longrightarrow> (\<And>x. keeps Q (f x)) \<Longrightarrow> keeps Q (case v of None \<Rightarrow> p | Some x \<Rightarrow> f x)"
  by (cases v) simp_all

lemma keeps_sum [keeps_rules]:
  "(\<And>e. keeps Q (f e)) \<Longrightarrow> (\<And>x. keeps Q (g x)) \<Longrightarrow> keeps Q (case v of Inl e \<Rightarrow> f e | Inr x \<Rightarrow> g x)"
  by (cases v) simp_all

lemma keeps_prod [keeps_rules]: "(\<And>a b. keeps Q (f a b)) \<Longrightarrow> keeps Q (case v of (a, b) \<Rightarrow> f a b)"
  by (cases v) simp

lemma keeps_list [keeps_rules]:
  "keeps Q p \<Longrightarrow> (\<And>x xs. keeps Q (f x xs)) \<Longrightarrow> keeps Q (case v of [] \<Rightarrow> p | x # xs \<Rightarrow> f x xs)"
  by (cases v) simp_all

lemma keeps_let [keeps_rules]: "(\<And>x. keeps Q (f x)) \<Longrightarrow> keeps Q (Let v f)"
  by simp

end

locale db_relation = db_preorder +
  assumes Q_commit: "commit cs d = Inr d' \<Longrightarrow> Q d d'"
begin

lemma keeps_tx [keeps_rules]: "keeps Q (tx cs)"
  by (auto simp: keeps_def tx_def Q_refl Q_commit split: sum.split)

end

section \<open>The relations the properties use\<close>

definition logs_grow :: "db \<Rightarrow> db \<Rightarrow> bool" where
  "logs_grow d d' \<longleftrightarrow> prefix (links d) (links d') \<and> prefix (audit d) (audit d')"

definition stays_ok :: "db \<Rightarrow> db \<Rightarrow> bool" where
  "stays_ok d d' \<longleftrightarrow> (db_ok d \<longrightarrow> db_ok d')"

interpretation grow: db_relation logs_grow
proof
  show "logs_grow d d" for d by (simp add: logs_grow_def)
  show "logs_grow a b \<Longrightarrow> logs_grow b c \<Longrightarrow> logs_grow a c" for a b c
    unfolding logs_grow_def by (meson prefix_order.trans)
  show "commit cs d = Inr d' \<Longrightarrow> logs_grow d d'" for cs d d'
    unfolding logs_grow_def by (rule commit_logs)
qed

definition keys_grow :: "db \<Rightarrow> db \<Rightarrow> bool" where
  \<comment> \<open>no run and no checkpoint disappears\<close>
  "keys_grow d d' \<longleftrightarrow> prefix (run_keys d) (run_keys d') \<and> prefix (checkpoint_keys d) (checkpoint_keys d')"

interpretation keyed: db_relation keys_grow
proof
  show "keys_grow d d" for d by (simp add: keys_grow_def)
  show "keys_grow a b \<Longrightarrow> keys_grow b c \<Longrightarrow> keys_grow a c" for a b c
    unfolding keys_grow_def by (meson prefix_order.trans)
  show "commit cs d = Inr d' \<Longrightarrow> keys_grow d d'" for cs d d'
    unfolding keys_grow_def by (rule commit_keys)
qed

interpretation okay: db_relation stays_ok
  by unfold_locales (auto simp: stays_ok_def commit_ok)

definition core_same :: "db \<Rightarrow> db \<Rightarrow> bool" where
  \<comment> \<open>nothing but the metered cost of runs differs\<close>
  "core_same d d' \<longleftrightarrow> d'\<lparr>runs := []\<rparr> = d\<lparr>runs := []\<rparr> \<and>
     map (r_spent_update (\<lambda>_. 0)) (runs d') = map (r_spent_update (\<lambda>_. 0)) (runs d)"

interpretation core: db_preorder core_same
  by unfold_locales (auto simp: core_same_def)

lemma core_same_tables:
  assumes "core_same d d'"
  shows "tenants d' = tenants d" "sources d' = sources d" "passages d' = passages d"
    "statements d' = statements d" "links d' = links d" "findings d' = findings d"
    "finding_statements d' = finding_statements d" "contradictions d' = contradictions d"
    "conclusions d' = conclusions d" "conclusion_evidence d' = conclusion_evidence d"
    "audit d' = audit d" "checkpoints d' = checkpoints d" "kv d' = kv d"
  using assms by (cases d; cases d'; simp add: core_same_def)+

section \<open>Concrete worlds for the witnesses\<close>

definition world_of :: "db \<Rightarrow> world" where
  "world_of d = \<lparr>w_db = d, w_blobs = (\<lambda>_. None), w_now = 0, w_next = 100, w_stamps = [], w_sent = [],
     w_last_fetch = (\<lambda>_. None), w_requests = [], w_events = []\<rparr>"

definition one_run_db :: db where
  \<comment> \<open>a tenant and a freshly submitted run\<close>
  "one_run_db = empty_db\<lparr>
     tenants := [\<lparr>t_id = 1, t_name = ''Default'', t_namespace = ''default''\<rparr>],
     runs := [\<lparr>r_id = 2, r_tenant = 1, r_question = ''q'', r_status = ''submitted'', r_stage = None, r_progress = 0,
       r_budget = 2, r_spent = 0, r_checkpoint = None, r_created = 0, r_completed = None\<rparr>]\<rparr>"

definition one_run_world :: world where
  "one_run_world = world_of one_run_db"

definition scripted_env :: "(nat \<Rightarrow> response result) \<Rightarrow> (string \<Rightarrow> json option) \<Rightarrow> env" where
  \<comment> \<open>a world whose provider follows a script and whose other services are empty\<close>
  "scripted_env reply loads = \<lparr>provider = (\<lambda>n _. reply n), provider_time = (\<lambda>_. 1000), completion_cost = (\<lambda>_ _. None),
     tiktoken_len = (\<lambda>_ _. None), json_loads = loads, json_dumps = (\<lambda>_. ''{}''), sha256 = id,
     utf8 = \<lparr>utf8_decode = Some, utf8_encode = id\<rparr>, utf16_decode = (\<lambda>_. None), brackets_ok = (\<lambda>_. False),
     http_get = (\<lambda>_ _. Inl (OtherError ''offline'')), http_time = (\<lambda>_. 0), read_file = (\<lambda>_. None), data_dir = None,
     ddgs_text = (\<lambda>_ _. Inr []), parse_xml = (\<lambda>_. Inl (OtherError ''no XML'')),
     format_parsers = \<lparr>html_blocks = (\<lambda>b. [b]), html_text = id, pdf_pages = (\<lambda>b. [Some b]),
       docx_paragraphs = (\<lambda>b. [b]), rtf_to_text = Inr\<rparr>,
     fixed3 = (\<lambda>_. ''0.000''), fixed2 = (\<lambda>_. ''0.00''), isoformat = (\<lambda>_. ''t''), model_time = (\<lambda>_. ''t''), show_decimal = (\<lambda>_. ''d''),
     show_json = (\<lambda>_. ''j'')\<rparr>"

definition reply_text :: "string \<Rightarrow> response result" where
  "reply_text s = Inr \<lparr>resp_choices = [Some s], resp_usage = None\<rparr>"

lemma one_run_ok: "db_ok one_run_db"
  by code_simp

lemma one_run_tables [simp]:
  "w_db one_run_world = one_run_db" "audit one_run_db = []" "links one_run_db = []" "statements one_run_db = []"
  "w_sent one_run_world = []" "w_now one_run_world = 0"
  by (simp_all add: one_run_world_def world_of_def one_run_db_def empty_db_def)

lemma run_result: "fst x = r \<Longrightarrow> x = (r, snd x)"
  by (metis prod.collapse)

lemma ok_result: "(case fst p of Inr x \<Rightarrow> P x | Inl e \<Rightarrow> False) \<Longrightarrow> \<exists>x w'. p = (Inr x, w') \<and> P x"
  by (cases p) (auto split: sum.splits)

end
