(* ===== verification/Cache.thy ===== *)
theory Cache
  imports World
begin

text \<open>
  \<open>app/services/kv_cache.py\<close> and the checkpoint store \<open>app/pipeline/checkpoint.py\<close>: two
  tables used as keyed stores. The locale \<open>keyed_store\<close> is the contract both offer their
  clients; the checkpoint store returns the redacted form of what was put.
\<close>

section \<open>Keyed stores\<close>

locale keyed_store =
  fixes inv :: "'s \<Rightarrow> bool"
    and get :: "'s \<Rightarrow> 'k \<Rightarrow> 'v option"
    and put :: "'k \<Rightarrow> 'v \<Rightarrow> 's \<Rightarrow> 's result"
    and norm :: "'v \<Rightarrow> 'v"
  assumes put_inv: "inv s \<Longrightarrow> put k v s = Inr s' \<Longrightarrow> inv s'"
    and get_same: "inv s \<Longrightarrow> put k v s = Inr s' \<Longrightarrow> get s' k = Some (norm v)"
    and get_other: "inv s \<Longrightarrow> put k v s = Inr s' \<Longrightarrow> k' \<noteq> k \<Longrightarrow> get s' k' = get s k'"
begin

lemma get_put: "inv s \<Longrightarrow> put k v s = Inr s' \<Longrightarrow> get s' k' = (if k' = k then Some (norm v) else get s k')"
  using get_same get_other by auto

lemma last_put_wins:
  "inv s \<Longrightarrow> put k v s = Inr t \<Longrightarrow> put k u t = Inr s' \<Longrightarrow> get s' k = Some (norm u)"
  using put_inv get_same by blast

lemma dom_put: "inv s \<Longrightarrow> put k v s = Inr s' \<Longrightarrow> dom (get s') = insert k (dom (get s))"
  by (auto simp: get_put dom_def)

end

lemma find_upd_where:
  assumes "\<And>x. P x \<Longrightarrow> P (f x)" and "\<exists>x \<in> set xs. P x"
  shows "find P (upd_where P f xs) = map_option f (find P xs)"
  using assms(2) by (induction xs) (auto simp: upd_where_def assms(1))

lemma find_upd_where_other:
  assumes "\<And>x. P x \<Longrightarrow> \<not> R x" and "\<And>x. P x \<Longrightarrow> \<not> R (f x)"
  shows "find R (upd_where P f xs) = find R xs"
  by (induction xs) (auto simp: upd_where_def assms)

lemma find_append: "find P (xs @ ys) = (case find P xs of None \<Rightarrow> find P ys | Some x \<Rightarrow> Some x)"
  by (induction xs) auto

section \<open>The repeat-call cache\<close>

definition secret_key_hints :: "string list" where
  "secret_key_hints = [''password'', ''passwd'', ''secret'', ''token'', ''credential'', ''authorization'',
     ''api_key'', ''apikey'', ''_key'']"

definition is_secret_key :: "string \<Rightarrow> bool" where
  "is_secret_key key \<longleftrightarrow> (\<exists>hint \<in> set secret_key_hints. py_in hint (py_lower key))"

definition build_key :: "env \<Rightarrow> string \<Rightarrow> string \<Rightarrow> json \<Rightarrow> string" where
  "build_key E model prompt inputs =
     sha256 E (utf8_encode (utf8 E) (model @ ''|'' @ prompt @ ''|'' @ json_dumps E inputs))"

definition build_prompt_hash :: "env \<Rightarrow> string \<Rightarrow> json \<Rightarrow> string" where
  "build_prompt_hash E prompt inputs =
     sha256 E (utf8_encode (utf8 E) (prompt @ ''|'' @ json_dumps E inputs))"

fun payload_keys :: "json \<Rightarrow> string list" where
  "payload_keys (JObj kvs) = map fst kvs"
| "payload_keys _ = []"

definition assert_no_secret_payload :: "json \<Rightarrow> unit result" where
  "assert_no_secret_payload payload =
     (case find is_secret_key (payload_keys payload) of
        None \<Rightarrow> Inr ()
      | Some key \<Rightarrow> Inl (ValueError (''Cache payload key '' @ quoted key @
          '' looks like a secret/credential; '' @
          ''credentials must never be persisted in the kv_cache (Rule 01, G-05).'')))"

definition kv_lookup :: "string \<Rightarrow> db \<Rightarrow> kv_entry option" where
  "kv_lookup key d = find (\<lambda>e. kv_key e = key) (kv d)"

definition kv_expired :: "time \<Rightarrow> kv_entry \<Rightarrow> bool" where
  "kv_expired t e = (case kv_expires e of None \<Rightarrow> False | Some x \<Rightarrow> x \<le> t)"

definition kv_get :: "string \<Rightarrow> json option prog" where
  "kv_get key = and_then (fetch_db (kv_lookup key)) (\<lambda>entry.
     case entry of
       None \<Rightarrow> ret None
     | Some e \<Rightarrow> and_then (reads w_now) (\<lambda>t.
         if kv_expired t e then and_then (tx [DelKV key]) (\<lambda>_. ret None)
         else ret (Some (kv_payload e))))"

definition kv_upsert :: "kv_entry \<Rightarrow> db \<Rightarrow> change" where
  "kv_upsert e d = (case kv_lookup (kv_key e) d of None \<Rightarrow> AddKV e | Some _ \<Rightarrow> UpdKV e)"

definition kv_set :: "string \<Rightarrow> string \<Rightarrow> string \<Rightarrow> json \<Rightarrow> int option \<Rightarrow> unit prog" where
  "kv_set key model prompt_hash payload ttl_seconds =
     and_then (lift (assert_no_secret_payload payload)) (\<lambda>_.
     and_then (reads w_now) (\<lambda>t.
       let expires = map_option (\<lambda>ttl. t + seconds ttl) ttl_seconds
       in and_then (fetch_db (kv_upsert \<lparr>kv_key = key, kv_model = model, kv_prompt_hash = prompt_hash,
              kv_payload = payload, kv_expires = expires\<rparr>)) (\<lambda>change. tx [change])))"

definition kv_delete :: "string \<Rightarrow> unit prog" where
  "kv_delete key = and_then (fetch_db (kv_lookup key)) (\<lambda>entry.
     case entry of None \<Rightarrow> ret () | Some _ \<Rightarrow> tx [DelKV key])"

definition kv_put :: "string \<Rightarrow> kv_entry \<Rightarrow> db \<Rightarrow> db result" where
  \<comment> \<open>the transaction of \<open>kv_set\<close> as a function of the database\<close>
  "kv_put key e d = commit [kv_upsert (e\<lparr>kv_key := key\<rparr>) d] d"

definition kv_view :: "db \<Rightarrow> string \<Rightarrow> (string \<times> string \<times> json \<times> time option) option" where
  "kv_view d key = map_option (\<lambda>e. (kv_model e, kv_prompt_hash e, kv_payload e, kv_expires e)) (kv_lookup key d)"

definition kv_put_view :: "string \<Rightarrow> string \<times> string \<times> json \<times> time option \<Rightarrow> db \<Rightarrow> db result" where
  "kv_put_view key v d = (case v of (m, h, p, x) \<Rightarrow>
     kv_put key \<lparr>kv_key = key, kv_model = m, kv_prompt_hash = h, kv_payload = p, kv_expires = x\<rparr> d)"

lemma kv_lookup_key: "kv_lookup k d = Some e \<Longrightarrow> kv_key e = k \<and> e \<in> set (kv d)"
  by (auto simp: kv_lookup_def find_Some_iff)

lemma kv_put_lookup:
  assumes "kv_put key e d = Inr d'"
  shows "kv_lookup k d' = (if k = key then Some (e\<lparr>kv_key := key\<rparr>) else kv_lookup k d)"
proof (cases "kv_lookup key d")
  case None
  with assms have "kv d' = kv d @ [e\<lparr>kv_key := key\<rparr>]"
    by (auto simp: kv_put_def kv_upsert_def commit_ok)
  with None show ?thesis by (auto simp: kv_lookup_def find_append split: option.split)
next
  case (Some o)
  with assms have d': "kv d' = upd_where (\<lambda>x. kv_key x = key) (\<lambda>_. e\<lparr>kv_key := key\<rparr>) (kv d)"
    by (auto simp: kv_put_def kv_upsert_def commit_ok)
  have "\<exists>x \<in> set (kv d). kv_key x = key" using kv_lookup_key [OF Some] by blast
  with Some show ?thesis
    unfolding kv_lookup_def d' by (simp add: find_upd_where find_upd_where_other)
qed

interpretation kv_store: keyed_store "\<lambda>_. True" kv_view kv_put_view id
  by unfold_locales (auto simp: kv_view_def kv_put_view_def kv_put_lookup split: prod.splits)

lemma kv_set_run:
  "kv_set key m h p ttl w = (Inr u, w') \<longleftrightarrow>
     assert_no_secret_payload p = Inr () \<and>
     (\<exists>d. kv_put_view key (m, h, p, map_option (\<lambda>s. w_now w + seconds s) ttl) (w_db w) = Inr d \<and> w' = w\<lparr>w_db := d\<rparr>)"
  by (auto simp: kv_set_def prog_results kv_put_view_def kv_put_def Let_def)

section \<open>Checkpoints\<close>

definition cp_lookup :: "uuid \<Rightarrow> string \<Rightarrow> db \<Rightarrow> checkpoint option" where
  "cp_lookup run_id stage d = find (\<lambda>c. (cp_run c, cp_stage c) = (run_id, stage)) (checkpoints d)"

definition cp_save :: "uuid \<Rightarrow> string \<Rightarrow> json option \<Rightarrow> unit prog" where
  "cp_save run_id stage state =
     (let redacted = map_option redact_json state
      in and_then (fetch_db (cp_lookup run_id stage)) (\<lambda>existing.
         case existing of
           None \<Rightarrow> and_then uuid4 (\<lambda>i. and_then (reads w_now) (\<lambda>t.
             tx [AddCheckpoint \<lparr>cp_id = i, cp_run = run_id, cp_stage = stage, cp_state = redacted, cp_ts = t\<rparr>]))
         | Some row \<Rightarrow> tx [UpdCheckpoint (cp_id row) redacted]))"

definition cp_load :: "uuid \<Rightarrow> string \<Rightarrow> json option prog" where
  "cp_load run_id stage = fetch_db (\<lambda>d. Option.bind (cp_lookup run_id stage d) cp_state)"

definition completed_of :: "uuid \<Rightarrow> db \<Rightarrow> string set" where
  "completed_of run_id d = set (map cp_stage (filter (\<lambda>c. cp_run c = run_id) (checkpoints d)))"

definition completed_stages :: "uuid \<Rightarrow> string set prog" where
  "completed_stages run_id = fetch_db (completed_of run_id)"

text \<open>Programs are evaluated only when they meet a world.\<close>

lemmas cache_code [code] =
  kv_get_def [THEN fun_cong] kv_set_def [THEN fun_cong] kv_delete_def [THEN fun_cong]
  cp_save_def [THEN fun_cong] cp_load_def [THEN fun_cong] completed_stages_def [THEN fun_cong]

definition cp_view :: "db \<Rightarrow> uuid \<times> string \<Rightarrow> json option option" where
  "cp_view d k = map_option cp_state (cp_lookup (fst k) (snd k) d)"

definition cp_put :: "uuid \<times> time \<Rightarrow> uuid \<times> string \<Rightarrow> json option \<Rightarrow> db \<Rightarrow> db result" where
  \<comment> \<open>the transaction of \<open>cp_save\<close>, given the identifier and time it would use\<close>
  "cp_put it k state d =
     (case cp_lookup (fst k) (snd k) d of
        None \<Rightarrow> commit [AddCheckpoint \<lparr>cp_id = fst it, cp_run = fst k, cp_stage = snd k,
                   cp_state = map_option redact_json state, cp_ts = snd it\<rparr>] d
      | Some row \<Rightarrow> commit [UpdCheckpoint (cp_id row) (map_option redact_json state)] d)"

lemma cp_put_view:
  assumes "cp_put it key st d = Inr d'" and ok: "db_ok d"
  shows "cp_view d' k = (if k = key then Some (map_option redact_json st) else cp_view d k)"
proof -
  obtain r s where key: "key = (r, s)" by fastforce
  obtain r' s' where k: "k = (r', s')" by fastforce
  show ?thesis
  proof (cases "cp_lookup r s d")
    case None
    with assms have "checkpoints d' = checkpoints d @ [\<lparr>cp_id = fst it, cp_run = r, cp_stage = s,
        cp_state = map_option redact_json st, cp_ts = snd it\<rparr>]"
      by (auto simp: cp_put_def commit_ok key)
    with None show ?thesis
      by (auto simp: cp_view_def cp_lookup_def find_append key k split: option.split)
  next
    case (Some row)
    let ?f = "\<lambda>c. c\<lparr>cp_state := map_option redact_json st\<rparr>"
    have row: "row \<in> set (checkpoints d)" "cp_run row = r" "cp_stage row = s"
      using Some by (auto simp: cp_lookup_def find_Some_iff)
    have ids: "distinct (map cp_id (checkpoints d))" "distinct (map (\<lambda>c. (cp_run c, cp_stage c)) (checkpoints d))"
      using ok by (simp_all add: db_ok_def keys_ok_def)
    have same: "c = row" if "c \<in> set (checkpoints d)" "cp_id c = cp_id row \<or> (cp_run c, cp_stage c) = (r, s)" for c
      using that row ids unfolding distinct_map inj_on_def by auto
    have "checkpoints d' = upd_where (\<lambda>c. cp_id c = cp_id row) ?f (checkpoints d)"
      using assms Some by (auto simp: cp_put_def commit_ok key)
    also have "\<dots> = upd_where (\<lambda>c. (cp_run c, cp_stage c) = (r, s)) ?f (checkpoints d)"
      unfolding upd_where_def using same row by (auto intro!: map_cong)
    finally have d': "checkpoints d' = upd_where (\<lambda>c. (cp_run c, cp_stage c) = (r, s)) ?f (checkpoints d)" .
    show ?thesis
    proof (cases "k = key")
      case True
      have "\<exists>c \<in> set (checkpoints d). (cp_run c, cp_stage c) = (r, s)" using row by blast
      then have "cp_lookup r s d' = map_option ?f (cp_lookup r s d)"
        unfolding cp_lookup_def d' by (intro find_upd_where) auto
      with True Some show ?thesis by (simp add: cp_view_def key)
    next
      case False
      then have "cp_lookup r' s' d' = cp_lookup r' s' d"
        unfolding cp_lookup_def d' by (intro find_upd_where_other) (auto simp: key k)
      with False show ?thesis by (simp add: cp_view_def k)
    qed
  qed
qed

interpretation cp_store: keyed_store db_ok cp_view "cp_put it" "map_option redact_json"
proof
  fix k k' v s s'
  show "db_ok s \<Longrightarrow> cp_put it k v s = Inr s' \<Longrightarrow> db_ok s'"
    by (auto simp: cp_put_def commit_ok split: option.splits)
  show "db_ok s \<Longrightarrow> cp_put it k v s = Inr s' \<Longrightarrow> cp_view s' k = Some (map_option redact_json v)"
    by (simp add: cp_put_view)
  show "db_ok s \<Longrightarrow> cp_put it k v s = Inr s' \<Longrightarrow> k' \<noteq> k \<Longrightarrow> cp_view s' k' = cp_view s k'"
    by (simp add: cp_put_view)
qed

lemma completed_view: "completed_of r d = {s. (r, s) \<in> dom (cp_view d)}"
  by (force simp: completed_of_def cp_view_def cp_lookup_def dom_def find_None_iff)

lemma cp_save_run:
  assumes "cp_save r s st w = (Inr u, w')"
  shows "\<exists>it. cp_put it (r, s) st (w_db w) = Inr (w_db w')"
proof (cases "cp_lookup r s (w_db w)")
  case None
  with assms have "cp_put (w_next w, w_now w) (r, s) st (w_db w) = Inr (w_db w')"
    by (auto simp: cp_save_def cp_put_def prog_results Let_def)
  then show ?thesis by blast
next
  case (Some row)
  with assms show ?thesis by (auto simp: cp_save_def cp_put_def prog_results Let_def)
qed

lemma cp_load_view: "cp_load r s w = (Inr (Option.bind (cp_view (w_db w) (r, s)) id), w)"
  by (cases "cp_lookup r s (w_db w)") (simp_all add: cp_load_def cp_view_def)

section \<open>Preservation\<close>

context db_relation
begin

lemma cache_keeps [keeps_rules]:
  "keeps Q (kv_get key)" "keeps Q (kv_set key m h p ttl)" "keeps Q (kv_delete key)"
  "keeps Q (cp_save r s st)" "keeps Q (cp_load r s)" "keeps Q (completed_stages r)"
  unfolding kv_get_def kv_set_def kv_delete_def cp_save_def cp_load_def completed_stages_def Let_def
  by (intro keeps_rules)+

end

section \<open>Properties\<close>

text \<open>
  C21. A saved checkpoint loads back as its redacted state, free of secrets; saving it again
  replaces the state; every other checkpoint is untouched; and the completed stages of the run
  grow by exactly the saved stage, those of other runs not at all.
\<close>
theorem checkpoint_roundtrip:
  assumes ok: "db_ok (w_db w)" and saved: "cp_save r s st w = (Inr u, w')"
  shows "cp_load r s w' = (Inr (map_option redact_json st), w') \<and>
    (\<forall>j. fst (cp_load r s w') = Inr (Some j) \<longrightarrow> json_secret_free j) \<and>
    (\<forall>r' s'. (r', s') \<noteq> (r, s) \<longrightarrow> fst (cp_load r' s' w') = fst (cp_load r' s' w)) \<and>
    completed_of r (w_db w') = insert s (completed_of r (w_db w)) \<and>
    (\<forall>r'. r' \<noteq> r \<longrightarrow> completed_of r' (w_db w') = completed_of r' (w_db w)) \<and> db_ok (w_db w')"
proof -
  from cp_save_run [OF saved] obtain it where put: "cp_put it (r, s) st (w_db w) = Inr (w_db w')" by blast
  note get = cp_store.get_put [OF ok put]
  have load: "cp_load r s w' = (Inr (map_option redact_json st), w')"
    by (simp add: cp_load_view get)
  moreover have "\<forall>j. fst (cp_load r s w') = Inr (Some j) \<longrightarrow> json_secret_free j"
    unfolding load using redact_json_free by auto
  moreover have "completed_of r' (w_db w') = (if r' = r then insert s (completed_of r (w_db w)) else completed_of r' (w_db w))" for r'
    using cp_store.dom_put [OF ok put] by (auto simp: completed_view)
  ultimately show ?thesis
    using cp_store.put_inv [OF ok put] by (simp add: cp_load_view get)
qed

theorem checkpoint_roundtrip_witness:
  "cp_load 2 ''define'' (snd (cp_save 2 ''define'' (Some (JObj [])) one_run_world)) =
   (Inr (Some (JObj [])), snd (cp_save 2 ''define'' (Some (JObj [])) one_run_world))"
proof -
  have "fst (cp_save 2 ''define'' (Some (JObj [])) one_run_world) = Inr ()" by code_simp
  from checkpoint_roundtrip [OF _ run_result [OF this]] one_run_ok show ?thesis
    by (simp add: one_run_world_def world_of_def)
qed

text \<open>
  A cached payload is returned until its expiry and never after; the first look-up after the
  expiry removes the entry; entries under other keys are unaffected; and a payload one of whose
  keys hints at a credential is refused without a write.
\<close>
theorem cache_expiry:
  assumes set: "kv_set key m h payload ttl w = (Inr u, w1)"
  shows "(let w2 = w1\<lparr>w_now := t\<rparr>; x = map_option (\<lambda>s. w_now w + seconds s) ttl
     in if x = None \<or> t < the x then kv_get key w2 = (Inr (Some payload), w2)
        else (\<forall>r w3. kv_get key w2 = (Inr r, w3) \<longrightarrow> r = None \<and> kv_lookup key (w_db w3) = None)) \<and>
    (\<forall>k. k \<noteq> key \<longrightarrow> kv_view (w_db w1) k = kv_view (w_db w) k) \<and>
    (\<forall>f \<in> set (payload_keys payload). \<not> is_secret_key f)"
proof -
  let ?x = "map_option (\<lambda>s. w_now w + seconds s) ttl"
  from set obtain d where safe: "assert_no_secret_payload payload = Inr ()"
      and put: "kv_put_view key (m, h, payload, ?x) (w_db w) = Inr d" and w1: "w1 = w\<lparr>w_db := d\<rparr>"
    by (auto simp: kv_set_run)
  have "kv_view d key = Some (m, h, payload, ?x)" using kv_store.get_same [OF TrueI put] by simp
  then obtain e where e: "kv_lookup key d = Some e" "kv_payload e = payload" "kv_expires e = ?x"
    by (auto simp: kv_view_def)
  have keys: "\<forall>f \<in> set (payload_keys payload). \<not> is_secret_key f"
    using safe by (auto simp: assert_no_secret_payload_def find_None_iff split: option.splits)
  have others: "\<forall>k. k \<noteq> key \<longrightarrow> kv_view d k = kv_view (w_db w) k"
    using kv_store.get_other [OF TrueI put] by blast
  have gone: "kv_lookup key d' = None" if "commit [DelKV key] d = Inr d'" for d'
    using that by (auto simp: commit_ok kv_lookup_def find_None_iff)
  show ?thesis
    using e keys others gone unfolding w1 Let_def
    by (cases ttl) (auto simp: kv_get_def kv_expired_def prog_results run_simps)
qed

theorem cache_expiry_witness:
  "kv_view (w_db (snd (kv_set ''k'' ''m'' ''h'' (JObj []) (Some 5) one_run_world))) ''j'' =
   kv_view (w_db one_run_world) ''j''"
proof -
  have "fst (kv_set ''k'' ''m'' ''h'' (JObj []) (Some 5) one_run_world) = Inr ()" by code_simp
  from cache_expiry [OF run_result [OF this]] show ?thesis by simp
qed

end
