(* ===== verification/Gateway.thy ===== *)
theory Gateway
  imports Cache
begin

text \<open>
  \<open>app/services/cost_meter.py\<close> and \<open>app/services/llm_gateway.py\<close>: metering a call onto
  its run, the rate-limited call with its back-off, and \<open>complete\<close> with cache, retries on
  invalid output and quarantine. A Pydantic response model is the record \<open>response_model\<close>:
  its schema text, its validation and its dump. Money is exact rationals, quantized to four places
  as the source does.
\<close>

section \<open>The cost meter\<close>

definition default_usd_per_1k_tokens :: rat where "default_usd_per_1k_tokens = 2 / 1000"
definition usd_per_token :: rat where "usd_per_token = default_usd_per_1k_tokens / 1000"

definition quantize4 :: "rat \<Rightarrow> rat" where
  \<comment> \<open>\<open>cost.quantize(Decimal(0.0001), rounding=ROUND_HALF_UP)\<close>: halves away from zero\<close>
  "quantize4 x = (if 0 \<le> x then of_int \<lfloor>x * 10000 + 1 / 2\<rfloor> / 10000 else - (of_int \<lfloor>- x * 10000 + 1 / 2\<rfloor> / 10000))"

definition litellm_cost :: "env \<Rightarrow> response \<Rightarrow> string \<Rightarrow> rat option" where
  "litellm_cost E response model =
     (case completion_cost E response model of
        None \<Rightarrow> None
      | Some cost \<Rightarrow> if cost < 0 then None else Some cost)"

definition estimate_tokens :: "env \<Rightarrow> string \<Rightarrow> string \<Rightarrow> int" where
  "estimate_tokens E model text =
     (case tiktoken_len E model text of
        Some n \<Rightarrow> int n
      | None \<Rightarrow> max 1 (int (length text) div 4))"

definition text_tokens :: "env \<Rightarrow> string \<Rightarrow> int option \<Rightarrow> string option \<Rightarrow> int" where
  "text_tokens E model tokens text =
     (case tokens of
        Some n \<Rightarrow> n
      | None \<Rightarrow> (case text of None \<Rightarrow> 0 | Some t \<Rightarrow> if t = [] then 0 else estimate_tokens E model t))"

definition estimate_cost :: "env \<Rightarrow> string \<Rightarrow> int option \<Rightarrow> int option \<Rightarrow> string option \<Rightarrow> string option \<Rightarrow> rat" where
  "estimate_cost E model prompt_tokens completion_tokens prompt completion =
     of_int (max 0 (text_tokens E model prompt_tokens prompt) +
       max 0 (text_tokens E model completion_tokens completion)) * usd_per_token"

definition usage_tokens :: "response option \<Rightarrow> int option \<times> int option" where
  "usage_tokens response =
     (case response of None \<Rightarrow> (None, None)
      | Some r \<Rightarrow> (case resp_usage r of None \<Rightarrow> (None, None) | Some u \<Rightarrow> u))"

record call_cost =
  \<comment> \<open>the arguments of \<open>record_call\<close> other than the model and the run\<close>
  cc_cost_usd :: "rat option"
  cc_response :: "response option"
  cc_prompt :: "string option"
  cc_completion :: "string option"
  cc_prompt_tokens :: "int option"
  cc_completion_tokens :: "int option"

definition metered_cost :: "env \<Rightarrow> string \<Rightarrow> call_cost \<Rightarrow> rat" where
  \<comment> \<open>the cost before quantization\<close>
  "metered_cost E model c =
     (case cc_cost_usd c of
        Some usd \<Rightarrow> usd
      | None \<Rightarrow>
          (case Option.bind (cc_response c) (\<lambda>r. litellm_cost E r model) of
             Some cost \<Rightarrow> cost
           | None \<Rightarrow>
               let (pt, ct) = (if cc_prompt_tokens c = None \<and> cc_completion_tokens c = None
                               then usage_tokens (cc_response c)
                               else (cc_prompt_tokens c, cc_completion_tokens c))
               in estimate_cost E model pt ct (cc_prompt c) (cc_completion c)))"

definition run_lookup :: "uuid \<Rightarrow> db \<Rightarrow> run option" where
  \<comment> \<open>\<open>session.get(Run, run_id)\<close>\<close>
  "run_lookup i d = find (\<lambda>r. r_id r = i) (runs d)"

definition record_call :: "env \<Rightarrow> string \<Rightarrow> uuid option \<Rightarrow> call_cost \<Rightarrow> rat prog" where
  "record_call E model run_id c =
     (let cost = quantize4 (metered_cost E model c)
      in if cost < 0 then throw (NegativeCostError (''cost must never be negative, got '' @ show_decimal E cost))
         else case run_id of
             None \<Rightarrow> ret cost
           | Some i \<Rightarrow> and_then (fetch_db (run_lookup i)) (\<lambda>run.
               case run of
                 None \<Rightarrow> throw (RunNotFoundError (''no Run row for run_id='' @ str_uuid i))
               | Some _ \<Rightarrow> and_then (tx [UpdRun i (\<lambda>r. r\<lparr>r_spent := r_spent r + cost\<rparr>)]) (\<lambda>_. ret cost)))"

lemma quantize4_nonneg: "0 \<le> x \<Longrightarrow> 0 \<le> quantize4 x"
  by (simp add: quantize4_def floor_le_iff le_floor_iff)

lemma quantize4_near: "\<bar>quantize4 x - x\<bar> \<le> 1 / 20000"
proof -
  have near: "\<bar>(of_int \<lfloor>y * 10000 + 1 / 2\<rfloor> / 10000 :: rat) - y\<bar> \<le> 1 / 20000" for y :: rat
  proof -
    let ?k = "of_int \<lfloor>y * 10000 + 1 / 2\<rfloor> :: rat"
    have "?k \<le> y * 10000 + 1 / 2" "y * 10000 + 1 / 2 < ?k + 1" by linarith+
    then show ?thesis by (simp only: abs_le_iff) linarith
  qed
  show ?thesis
  proof (cases "0 \<le> x")
    case True
    then show ?thesis using near [of x] by (simp add: quantize4_def)
  next
    case False
    then have "quantize4 x = - (of_int \<lfloor>- x * 10000 + 1 / 2\<rfloor> / 10000)" by (simp add: quantize4_def)
    then show ?thesis using near [of "- x"] by (simp only: abs_le_iff) linarith
  qed
qed

lemma quantize4_places: "\<exists>k :: int. quantize4 x = of_int k / 10000"
  unfolding quantize4_def by (metis (no_types) minus_divide_left of_int_minus)

lemma estimate_nonneg: "0 \<le> estimate_cost E m pt ct p c"
  by (simp add: estimate_cost_def usd_per_token_def default_usd_per_1k_tokens_def)

lemma metered_nonneg: "cc_cost_usd c = None \<Longrightarrow> 0 \<le> metered_cost E m c"
  by (auto simp: metered_cost_def litellm_cost_def estimate_nonneg split: option.splits prod.splits bind_splits if_splits)

lemma commit_spent:
  assumes "commit [UpdRun i (\<lambda>r. r\<lparr>r_spent := r_spent r + c\<rparr>)] d = Inr d'"
  shows "core_same d d'" and "run_lookup j d' = map_option (\<lambda>r. if j = i then r\<lparr>r_spent := r_spent r + c\<rparr> else r) (run_lookup j d)"
proof -
  let ?f = "\<lambda>r. r\<lparr>r_spent := r_spent r + c\<rparr>"
  have same: "r_id r = i \<Longrightarrow> (?f r)\<lparr>r_id := i\<rparr> = ?f r" for r :: run by (cases r) simp
  have "upd_where (\<lambda>r. r_id r = i) (\<lambda>r. (?f r)\<lparr>r_id := i\<rparr>) (runs d) = upd_where (\<lambda>r. r_id r = i) ?f (runs d)"
    unfolding upd_where_def using same by (intro map_cong refl) simp
  with assms have d': "d' = d\<lparr>runs := upd_where (\<lambda>r. r_id r = i) ?f (runs d)\<rparr>" by (auto simp: commit_ok)
  show "core_same d d'" by (simp add: d' core_same_def upd_where_def)
  have find: "find (\<lambda>r. r_id r = j) (upd_where (\<lambda>r. r_id r = i) ?f rs) =
      map_option (\<lambda>r. if j = i then ?f r else r) (find (\<lambda>r. r_id r = j) rs)" for rs
    by (induction rs) (auto simp: upd_where_def)
  show "run_lookup j d' = map_option (\<lambda>r. if j = i then ?f r else r) (run_lookup j d)"
    by (simp add: d' run_lookup_def find)
qed

lemma record_call_core [keeps_rules]: "keeps core_same (record_call E m i c)"
proof -
  have "keeps core_same (tx [UpdRun j (\<lambda>r. r\<lparr>r_spent := r_spent r + x\<rparr>)])" for j x
    by (auto simp: keeps_def tx_def core.Q_refl dest: commit_spent(1) split: sum.split)
  then show ?thesis
    unfolding record_call_def Let_def by (intro keeps_rules)
qed

section \<open>The rate-limited call\<close>

definition quota_markers :: "string list" where
  "quota_markers = [''RESOURCE_EXHAUSTED'', ''exceeded your current quota'', ''quota exceeded'', ''exceeds your quota'']"

definition quota_exhausted :: "string \<Rightarrow> bool" where
  "quota_exhausted msg \<longleftrightarrow> (\<exists>m \<in> set quota_markers. py_in (py_lower m) (py_lower msg))"

definition provider_call :: "env \<Rightarrow> request \<Rightarrow> response prog" where
  \<comment> \<open>one call to the provider: it is logged, takes time and answers or raises\<close>
  "provider_call E rq w =
     (let n = length (w_sent w)
      in (provider E n rq,
          w\<lparr>w_sent := w_sent w @ [(w_now w, rq)], w_now := w_now w + int (provider_time E n)\<rparr>))"

definition stamp_call :: "unit prog" where
  \<comment> \<open>append the time and keep the last sixty seconds\<close>
  "stamp_call w = (Inr (), w\<lparr>w_stamps := filter (\<lambda>t. t > w_now w - seconds 60) (w_stamps w @ [w_now w])\<rparr>)"

definition min_call_interval :: int where "min_call_interval = seconds 60 div 15"

definition retry_delays :: "(int \<times> int) list" where
  \<comment> \<open>per retry: after a rate-limit error, and after an unavailable service or connection\<close>
  "retry_delays = [(15, 10), (30, 20), (60, 40)]"

fun call_attempts :: "env \<Rightarrow> request \<Rightarrow> (int \<times> int) list \<Rightarrow> response prog" where
  "call_attempts E rq delays w =
     (case provider_call E rq w of
        (Inr response, w1) \<Rightarrow> and_then stamp_call (\<lambda>_. ret response) w1
      | (Inl e, w1) \<Rightarrow>
          (case e of
             RateLimitError msg \<Rightarrow>
               if quota_exhausted msg then (Inl e, w1)
               else (case delays of [] \<Rightarrow> (Inl e, w1)
                     | (rl, _) # rest \<Rightarrow> call_attempts E rq rest (snd (sleep (seconds rl) w1)))
           | ServiceUnavailableError msg \<Rightarrow>
               (case delays of [] \<Rightarrow> (Inl e, w1)
                | (_, su) # rest \<Rightarrow> call_attempts E rq rest (snd (sleep (seconds su) w1)))
           | APIConnectionError msg \<Rightarrow>
               (case delays of [] \<Rightarrow> (Inl e, w1)
                | (_, su) # rest \<Rightarrow> call_attempts E rq rest (snd (sleep (seconds su) w1)))
           | _ \<Rightarrow> (Inl e, w1)))"

declare call_attempts.simps [simp del]

definition call_with_rate_limit_retry :: "env \<Rightarrow> request \<Rightarrow> response prog" where
  "call_with_rate_limit_retry E rq =
     and_then (reads (\<lambda>w. (w_now w, w_stamps w))) (\<lambda>(t, stamps).
     and_then (if stamps \<noteq> [] \<and> t - last stamps < min_call_interval
               then sleep (min_call_interval - (t - last stamps)) else ret ()) (\<lambda>_.
     call_attempts E rq retry_delays))"

lemma call_attempts_frame:
  assumes "call_attempts E rq ds w = (r, w')"
  shows "w_db w' = w_db w \<and> w_blobs w' = w_blobs w \<and> w_next w' = w_next w \<and> w_now w \<le> w_now w' \<and>
    (\<exists>log. w_sent w' = w_sent w @ log \<and> 1 \<le> length log \<and> length log \<le> Suc (length ds) \<and>
       fst (hd log) = w_now w \<and> (\<forall>x \<in> set log. snd x = rq))"
  using assms
proof (induction ds arbitrary: w r w')
  case Nil
  then show ?case
    by (subst (asm) call_attempts.simps)
      (auto simp: provider_call_def stamp_call_def and_then_def Let_def split: sum.splits exn.splits if_splits)
next
  case (Cons p ds)
  obtain q w1 where q: "provider_call E rq w = (q, w1)" by fastforce
  then have w1: "w_db w1 = w_db w" "w_blobs w1 = w_blobs w" "w_next w1 = w_next w" "w_now w \<le> w_now w1"
      "w_sent w1 = w_sent w @ [(w_now w, rq)]"
    by (auto simp: provider_call_def Let_def)
  have step: ?case if "call_attempts E rq ds (snd (sleep t w1)) = (r, w')" for t
  proof -
    from Cons.IH [OF that] obtain log where log: "w_sent w' = w_sent w1 @ log" "length log \<le> Suc (length ds)"
        "\<forall>x \<in> set log. snd x = rq"
      and rest: "w_db w' = w_db w" "w_blobs w' = w_blobs w" "w_next w' = w_next w" "w_now w \<le> w_now w'"
      using w1 by auto
    have "w_sent w' = w_sent w @ (w_now w, rq) # log" using log(1) w1(5) by simp
    with log rest show ?thesis by (intro conjI exI [of _ "(w_now w, rq) # log"]) simp_all
  qed
  have stop: ?case if "w_db w' = w_db w1" "w_blobs w' = w_blobs w1" "w_next w' = w_next w1" "w_now w1 \<le> w_now w'"
      "w_sent w' = w_sent w1"
    using that w1 by auto
  obtain rl su where p: "p = (rl, su)" by fastforce
  show ?case
  proof (cases q)
    case (Inr x)
    have "w' = snd (stamp_call w1)"
      using Cons.prems
      unfolding call_attempts.simps [of E rq "p # ds"] q Inr by (simp add: and_then_def stamp_call_def)
    then show ?thesis by (intro stop) (simp_all add: stamp_call_def)
  next
    case (Inl e)
    have "(r, w') = (Inl e, w1) \<or> (\<exists>t. call_attempts E rq ds (snd (sleep t w1)) = (r, w'))"
      using Cons.prems [unfolded p, unfolded call_attempts.simps [of E rq "(rl, su) # ds"], unfolded q Inl]
      by (cases e) (auto split: if_splits simp del: prog_simps)
    then show ?thesis
    proof
      assume "(r, w') = (Inl e, w1)"
      then show ?thesis by (intro stop) simp_all
    next
      assume "\<exists>t. call_attempts E rq ds (snd (sleep t w1)) = (r, w')"
      then show ?thesis using step by blast
    qed
  qed
qed

lemma rate_limited_frame:
  assumes "call_with_rate_limit_retry E rq w = (r, w')"
  shows "w_db w' = w_db w \<and> w_blobs w' = w_blobs w \<and> w_next w' = w_next w \<and> w_now w \<le> w_now w' \<and>
    (\<exists>log. w_sent w' = w_sent w @ log \<and> 1 \<le> length log \<and> length log \<le> 4 \<and>
       (\<forall>x \<in> set log. snd x = rq) \<and>
       (w_stamps w \<noteq> [] \<longrightarrow> last (w_stamps w) + min_call_interval \<le> fst (hd log)))"
proof -
  define gap where "gap = min_call_interval - (w_now w - last (w_stamps w))"
  define w1 where "w1 = (if w_stamps w \<noteq> [] \<and> w_now w - last (w_stamps w) < min_call_interval
      then w\<lparr>w_now := w_now w + max 0 gap\<rparr> else w)"
  have "call_attempts E rq retry_delays w1 = (r, w')"
    using assms by (auto simp: call_with_rate_limit_retry_def and_then_def w1_def gap_def split: if_splits)
  moreover have "w_db w1 = w_db w" "w_blobs w1 = w_blobs w" "w_next w1 = w_next w" "w_now w \<le> w_now w1"
      "w_sent w1 = w_sent w" "w_stamps w \<noteq> [] \<longrightarrow> last (w_stamps w) + min_call_interval \<le> w_now w1"
    by (auto simp: w1_def gap_def)
  ultimately show ?thesis
    using call_attempts_frame [of E rq retry_delays w1 r w'] by (auto simp: retry_delays_def)
qed

section \<open>Response models and requests\<close>

record 'm response_model =
  rm_schema :: string
  rm_validate :: "json \<Rightarrow> 'm result"
  rm_dump :: "'m \<Rightarrow> json"

datatype 'm reply_data = RText string | RModel 'm

record call_context =
  ctx_model :: string
  ctx_tier :: string
  ctx_messages :: "message list"
  ctx_run :: "uuid option"
  ctx_cache_key :: string
  ctx_attempt :: nat

record gateway =
  gw_settings :: settings
  gw_max_retries :: nat
  gw_hooks :: "(call_context \<Rightarrow> unit prog) list"

record call_args =
  ca_tier :: string
  ca_prompt :: "string option"
  ca_messages :: "message list option"
  ca_system :: "string option"
  ca_run :: "uuid option"
  ca_use_cache :: bool
  ca_ttl :: "int option"
  ca_inputs :: json
  ca_temperature :: "rat option"
  ca_max_tokens :: "nat option"

record 'm gateway_result =
  gr_content :: string
  gr_data :: "'m reply_data"
  gr_model :: string
  gr_tier :: string
  gr_cost :: "rat option"
  gr_cached :: bool
  gr_cache_key :: string
  gr_prompt_tokens :: "int option"
  gr_completion_tokens :: "int option"

definition resolve_model :: "settings \<Rightarrow> string \<Rightarrow> string result" where
  "resolve_model S tier =
     (if tier = ''cheap'' then Inr (llm_model_cheap S)
      else if tier = ''strong'' then Inr (llm_model_strong S)
      else Inl (ModelTierError (''unknown model tier '' @ quoted tier @ ''; expected '' @ quoted ''cheap'' @
        '' or '' @ quoted ''strong'')))"

definition build_messages :: "call_args \<Rightarrow> message list result" where
  "build_messages a =
     (if ca_prompt a = None \<and> ca_messages a = None
      then Inl (ValueError ''complete() requires either prompt or messages'')
      else
        let sys = (case ca_system a of None \<Rightarrow> [] | Some s \<Rightarrow> if s = [] then [] else [\<lparr>msg_role = ''system'', msg_content = s\<rparr>])
        in Inr (sys @ (case ca_messages a of
             Some ms \<Rightarrow> ms
           | None \<Rightarrow> [\<lparr>msg_role = ''user'', msg_content = the (ca_prompt a)\<rparr>])))"

definition messages_json :: "message list \<Rightarrow> json" where
  "messages_json ms = JList (map (\<lambda>m. JObj [(''role'', JStr (msg_role m)), (''content'', JStr (msg_content m))]) ms)"

definition schema_instruction :: "string \<Rightarrow> nat \<Rightarrow> string" where
  "schema_instruction schema n =
     (if n = 0
      then ''Return a single JSON object (no prose, no markdown fences) that matches this JSON schema exactly: '' @ schema
      else if n = 1
      then ''Return only a valid JSON object matching this schema, with no surrounding text or code fences: '' @ schema
      else ''Return a single JSON object matching this schema; if any field is unknown, use a sensible default. '' @
        ''Do not wrap in markdown fences. Schema: '' @ schema)"

definition attempt_request :: "string \<Rightarrow> message list \<Rightarrow> string option \<Rightarrow> call_args \<Rightarrow> nat \<Rightarrow> request" where
  \<comment> \<open>messages and keyword arguments of one attempt, \<open>_attempt_kwargs\<close> included\<close>
  "attempt_request model base schema a n =
     (case schema of
        None \<Rightarrow> \<lparr>rq_model = model, rq_messages = base, rq_json_mode = False,
          rq_temperature = ca_temperature a, rq_max_tokens = ca_max_tokens a\<rparr>
      | Some s \<Rightarrow> \<lparr>rq_model = model,
          rq_messages = base @ [\<lparr>msg_role = ''system'', msg_content = schema_instruction s n\<rparr>],
          rq_json_mode = (1 \<le> n),
          rq_temperature = (if 2 \<le> n then Some 0 else ca_temperature a),
          rq_max_tokens = ca_max_tokens a\<rparr>)"

definition extract_content :: "response \<Rightarrow> string result" where
  \<comment> \<open>\<open>str(choices[0].message.content)\<close>\<close>
  "extract_content r =
     (case resp_choices r of
        [] \<Rightarrow> Inl (OtherError ''list index out of range'')
      | c # _ \<Rightarrow> Inr (case c of None \<Rightarrow> ''None'' | Some s \<Rightarrow> s))"

definition as_object :: "json option \<Rightarrow> json result" where
  "as_object j =
     (case j of
        None \<Rightarrow> Inl (ValueError ''invalid JSON'')
      | Some (JObj kvs) \<Rightarrow> Inr (JObj kvs)
      | Some _ \<Rightarrow> Inl (ValueError ''assistant response is not a JSON object''))"

definition parse_json_strict :: "env \<Rightarrow> string \<Rightarrow> json result" where
  "parse_json_strict E content = as_object (json_loads E content)"

definition parse_json_lenient :: "env \<Rightarrow> string \<Rightarrow> json result" where
  "parse_json_lenient E content =
     (case (find_char CHR ''{'' content, rfind_char CHR ''}'' content) of
        (Some start, Some stop) \<Rightarrow>
          if stop \<le> start then Inl (ValueError ''no JSON object found in assistant response'')
          else as_object (json_loads E (slice content start (stop + 1)))
      | _ \<Rightarrow> Inl (ValueError ''no JSON object found in assistant response''))"

definition validate_content :: "env \<Rightarrow> 'm response_model \<Rightarrow> nat \<Rightarrow> string \<Rightarrow> 'm result" where
  "validate_content E rm n content =
     result_bind (if n < 2 then parse_json_strict E content else parse_json_lenient E content) (rm_validate rm)"

fun is_schema_failure :: "exn \<Rightarrow> bool" where
  \<comment> \<open>\<open>except (ValueError, KeyError, TypeError)\<close>\<close>
  "is_schema_failure (KeyErr _) = True"
| "is_schema_failure (BlobNotFoundError _) = True"
| "is_schema_failure (TypeErr _) = True"
| "is_schema_failure e = is_value_error e"

section \<open>Completion\<close>

fun run_hooks :: "(call_context \<Rightarrow> unit prog) list \<Rightarrow> call_context \<Rightarrow> unit prog" where
  "run_hooks [] ctx = ret ()"
| "run_hooks (h # hs) ctx = and_then (h ctx) (\<lambda>_. run_hooks hs ctx)"

definition quarantine_error :: "nat \<Rightarrow> exn" where
  "quarantine_error n = QuarantineError (''LLM returned output that failed JSON schema validation after '' @
     str_int (int n) @
     '' attempts (different approaches per attempt, G-11); quarantine the offending input.'')"

fun attempts_loop ::
  "env \<Rightarrow> gateway \<Rightarrow> call_args \<Rightarrow> 'm response_model option \<Rightarrow> string \<Rightarrow> message list \<Rightarrow> string \<Rightarrow> nat list \<Rightarrow>
     (response \<times> string \<times> 'm reply_data) prog" where
  "attempts_loop E G a rm model base key [] = throw (quarantine_error (gw_max_retries G + 1))"
| "attempts_loop E G a rm model base key (n # ns) =
     and_then (run_hooks (gw_hooks G) \<lparr>ctx_model = model, ctx_tier = ca_tier a, ctx_messages = base,
        ctx_run = ca_run a, ctx_cache_key = key, ctx_attempt = n\<rparr>) (\<lambda>_.
     and_then (call_with_rate_limit_retry E (attempt_request model base (map_option rm_schema rm) a n)) (\<lambda>response.
     and_then (lift (extract_content response)) (\<lambda>content.
       case rm of
         None \<Rightarrow> ret (response, content, RText content)
       | Some m \<Rightarrow>
           (case validate_content E m n content of
              Inr d \<Rightarrow> ret (response, content, RModel d)
            | Inl e \<Rightarrow> if is_schema_failure e then attempts_loop E G a rm model base key ns else throw e))))"

declare attempts_loop.simps [simp del]

definition cached_result ::
  "'m response_model option \<Rightarrow> string \<Rightarrow> string \<Rightarrow> json \<Rightarrow> 'm gateway_result result" where
  \<comment> \<open>payloads are written by \<open>complete\<close> only, with text members \<open>content\<close> and \<open>model\<close>\<close>
  "cached_result rm tier key payload =
     (case (jget ''content'' payload, jget ''model'' payload) of
        (Some (JStr content), Some (JStr model)) \<Rightarrow>
          result_bind (case (rm, jget ''data'' payload) of
              (Some m, Some d) \<Rightarrow> result_bind (rm_validate m d) (\<lambda>x. Inr (RModel x))
            | _ \<Rightarrow> Inr (RText content))
          (\<lambda>d. Inr \<lparr>gr_content = content, gr_data = d, gr_model = model, gr_tier = tier, gr_cost = Some 0,
             gr_cached = True, gr_cache_key = key, gr_prompt_tokens = None, gr_completion_tokens = None\<rparr>)
      | _ \<Rightarrow> Inl (KeyErr ''content''))"

definition complete_uncached ::
  "env \<Rightarrow> gateway \<Rightarrow> call_args \<Rightarrow> 'm response_model option \<Rightarrow> string \<Rightarrow> message list \<Rightarrow> string \<Rightarrow> string \<Rightarrow>
     'm gateway_result prog" where
  "complete_uncached E G a rm model base prompt_str key =
     and_then (attempts_loop E G a rm model base key [0..<gw_max_retries G + 1]) (\<lambda>(response, content, d).
       let (pt, ct) = usage_tokens (Some response)
       in and_then (record_call E model (ca_run a) \<lparr>cc_cost_usd = None, cc_response = Some response,
             cc_prompt = Some prompt_str, cc_completion = Some content, cc_prompt_tokens = pt,
             cc_completion_tokens = ct\<rparr>) (\<lambda>cost.
          and_then (if ca_use_cache a
             then kv_set key model (build_prompt_hash E prompt_str (ca_inputs a))
               (JObj ([(''content'', JStr content), (''model'', JStr model)] @
                  (case (rm, d) of (Some m, RModel x) \<Rightarrow> [(''data'', rm_dump m x)] | _ \<Rightarrow> []))) (ca_ttl a)
             else ret ()) (\<lambda>_.
          ret \<lparr>gr_content = content, gr_data = d, gr_model = model, gr_tier = ca_tier a, gr_cost = Some cost,
            gr_cached = False, gr_cache_key = key, gr_prompt_tokens = pt, gr_completion_tokens = ct\<rparr>)))"

definition complete ::
  "env \<Rightarrow> gateway \<Rightarrow> 'm response_model option \<Rightarrow> call_args \<Rightarrow> 'm gateway_result prog" where
  "complete E G rm a =
     and_then (lift (resolve_model (gw_settings G) (ca_tier a))) (\<lambda>model.
     and_then (lift (build_messages a)) (\<lambda>base.
       let prompt_str = (case ca_prompt a of
             Some p \<Rightarrow> if p = [] then json_dumps E (messages_json base) else p
           | None \<Rightarrow> json_dumps E (messages_json base));
           key = build_key E model prompt_str (ca_inputs a)
       in if ca_use_cache a then
            and_then (kv_get key) (\<lambda>hit.
              case hit of
                Some payload \<Rightarrow> lift (cached_result rm (ca_tier a) key payload)
              | None \<Rightarrow> complete_uncached E G a rm model base prompt_str key)
          else complete_uncached E G a rm model base prompt_str key))"

text \<open>Programs are evaluated only when they meet a world.\<close>

lemmas gateway_code [code] =
  record_call_def [THEN fun_cong] call_with_rate_limit_retry_def [THEN fun_cong]
  complete_uncached_def [THEN fun_cong] complete_def [THEN fun_cong] run_hooks.simps [THEN fun_cong]
  attempts_loop.simps [THEN fun_cong]

definition build_gateway :: "settings \<Rightarrow> gateway" where
  \<comment> \<open>\<open>LLMGateway(settings=settings, cache=cache, meter=meter)\<close>: two retries, no hook registered\<close>
  "build_gateway S = \<lparr>gw_settings = S, gw_max_retries = 2, gw_hooks = []\<rparr>"

lemma build_gateway_simps [simp]:
  "gw_settings (build_gateway S) = S" "gw_max_retries (build_gateway S) = 2" "gw_hooks (build_gateway S) = []"
  by (simp_all add: build_gateway_def)

section \<open>What a completion leaves alone\<close>

lemma attempt_request_messages: "prefix base (rq_messages (attempt_request model base sc a n))"
  by (auto simp: attempt_request_def split: option.split)

lemma attempts_loop_step:
  assumes "gw_hooks G = []"
  shows "attempts_loop E G a rm model base key (n # ns) w =
    (case call_with_rate_limit_retry E (attempt_request model base (map_option rm_schema rm) a n) w of
       (Inl e, w1) \<Rightarrow> (Inl e, w1)
     | (Inr response, w1) \<Rightarrow>
         (case extract_content response of
            Inl e \<Rightarrow> (Inl e, w1)
          | Inr content \<Rightarrow>
              (case rm of
                 None \<Rightarrow> (Inr (response, content, RText content), w1)
               | Some m \<Rightarrow>
                   (case validate_content E m n content of
                      Inr d \<Rightarrow> (Inr (response, content, RModel d), w1)
                    | Inl e \<Rightarrow> if is_schema_failure e then attempts_loop E G a rm model base key ns w1 else (Inl e, w1)))))"
  by (simp add: attempts_loop.simps assms and_then_def split: prod.split sum.split option.split)

lemma attempts_loop_frame:
  assumes hooks: "gw_hooks G = []"
  shows "attempts_loop E G a rm model base key ns w = (r, w') \<Longrightarrow>
    w_db w' = w_db w \<and> w_blobs w' = w_blobs w \<and> w_next w' = w_next w \<and> w_now w \<le> w_now w' \<and>
    (\<exists>log. w_sent w' = w_sent w @ log \<and> length log \<le> 4 * length ns \<and>
       (\<forall>x \<in> set log. prefix base (rq_messages (snd x)))) \<and>
    (\<forall>resp content d. r = Inr (resp, content, d) \<longrightarrow>
       (case rm of None \<Rightarrow> d = RText content
        | Some m \<Rightarrow> \<exists>n \<in> set ns. \<exists>x. d = RModel x \<and> validate_content E m n content = Inr x))"
proof (induction ns arbitrary: w r w')
  case Nil
  then show ?case by (auto simp: attempts_loop.simps)
next
  case (Cons n ns)
  let ?rq = "attempt_request model base (map_option rm_schema rm) a n"
  obtain q w1 where q: "call_with_rate_limit_retry E ?rq w = (q, w1)" by fastforce
  from rate_limited_frame [OF q] obtain log where
    w1: "w_db w1 = w_db w" "w_blobs w1 = w_blobs w" "w_next w1 = w_next w" "w_now w \<le> w_now w1"
      "w_sent w1 = w_sent w @ log" "length log \<le> 4" "\<forall>x \<in> set log. prefix base (rq_messages (snd x))"
    using attempt_request_messages by auto
  note run = Cons.prems [unfolded attempts_loop_step [OF hooks] q]
  have stop: ?case if "w' = w1" and
      "\<forall>resp content d. r = Inr (resp, content, d) \<longrightarrow> (case rm of None \<Rightarrow> d = RText content
        | Some m \<Rightarrow> \<exists>x. d = RModel x \<and> validate_content E m n content = Inr x)"
    using that w1 by (auto split: option.splits)
  have again: ?case if "attempts_loop E G a rm model base key ns w1 = (r, w')"
  proof -
    from Cons.IH [OF that] obtain log' where
      "w_sent w' = w_sent w1 @ log'" "length log' \<le> 4 * length ns" "\<forall>x \<in> set log'. prefix base (rq_messages (snd x))"
      by blast
    with w1 have "w_sent w' = w_sent w @ (log @ log')" "length (log @ log') \<le> 4 * length (n # ns)"
        "\<forall>x \<in> set (log @ log'). prefix base (rq_messages (snd x))" by auto
    moreover have "w_db w' = w_db w \<and> w_blobs w' = w_blobs w \<and> w_next w' = w_next w \<and> w_now w \<le> w_now w'"
      using Cons.IH [OF that] w1 by auto
    moreover have "\<forall>resp content d. r = Inr (resp, content, d) \<longrightarrow> (case rm of None \<Rightarrow> d = RText content
        | Some m \<Rightarrow> \<exists>k \<in> set (n # ns). \<exists>x. d = RModel x \<and> validate_content E m k content = Inr x)"
      using Cons.IH [OF that] by (auto split: option.splits)
    ultimately show ?thesis by blast
  qed
  show ?case
  proof (cases "attempts_loop E G a rm model base key ns w1 = (r, w')")
    case True
    then show ?thesis by (rule again)
  next
    case False
    with run show ?thesis
      by (intro stop) (auto split: sum.splits option.splits if_splits)
  qed
qed

lemma complete_frame:
  assumes nc: "\<not> ca_use_cache a" and hooks: "gw_hooks G = []" and run: "complete E G rm a w = (r, w')"
  shows "core_same (w_db w) (w_db w') \<and> w_blobs w' = w_blobs w \<and> w_next w' = w_next w \<and> w_now w \<le> w_now w' \<and>
    (\<exists>log. w_sent w' = w_sent w @ log \<and> length log \<le> 4 * (gw_max_retries G + 1)) \<and>
    (\<forall>e. r = Inl (QuarantineError e) \<longrightarrow> w_db w' = w_db w) \<and>
    (\<forall>g. r = Inr g \<longrightarrow> \<not> gr_cached g \<and> (case rm of None \<Rightarrow> gr_data g = RText (gr_content g)
        | Some m \<Rightarrow> \<exists>n x. gr_data g = RModel x \<and> validate_content E m n (gr_content g) = Inr x))"
proof (cases "\<exists>model base. resolve_model (gw_settings G) (ca_tier a) = Inr model \<and> build_messages a = Inr base")
  case False
  then have "w' = w" "\<exists>e. r = Inl e"
    using run by (auto simp: complete_def and_then_def split: sum.splits)
  then show ?thesis using core.Q_refl by auto
next
  case True
  then obtain model base prompt_str key where
    unc: "complete_uncached E G a rm model base prompt_str key w = (r, w')"
    using run nc by (auto simp: complete_def and_then_def Let_def)
  obtain q w1 where q: "attempts_loop E G a rm model base key [0..<gw_max_retries G + 1] w = (q, w1)" by fastforce
  note loop = attempts_loop_frame [OF hooks q]
  show ?thesis
  proof (cases q)
    case (Inl e)
    with unc q have "r = Inl e" "w' = w1" by (auto simp: complete_uncached_def and_then_def)
    with loop show ?thesis by (auto simp: core.Q_refl)
  next
    case (Inr t)
    obtain response content d where t: "t = (response, content, d)" by (cases t) auto
    let ?c = "\<lparr>cc_cost_usd = None, cc_response = Some response, cc_prompt = Some prompt_str, cc_completion = Some content,
        cc_prompt_tokens = fst (usage_tokens (Some response)), cc_completion_tokens = snd (usage_tokens (Some response))\<rparr>"
    obtain k w2 where k: "record_call E model (ca_run a) ?c w1 = (k, w2)" by fastforce
    have core: "core_same (w_db w1) (w_db w2)" using keepsD [OF record_call_core k] .
    have other: "w_blobs w2 = w_blobs w1 \<and> w_next w2 = w_next w1 \<and> w_now w2 = w_now w1 \<and> w_sent w2 = w_sent w1 \<and>
        (\<forall>e. k \<noteq> Inl (QuarantineError e))"
      using k by (auto simp: record_call_def Let_def and_then_def tx_def
          split: if_splits option.splits sum.splits dest!: commit_err)
    have res: "w' = w2" "(\<exists>e. k = Inl e \<and> r = Inl e) \<or> (\<exists>c g. k = Inr c \<and> r = Inr g \<and> gr_content g = content \<and> gr_data g = d \<and> \<not> gr_cached g)"
      using unc q k nc unfolding Inr t
      by (auto simp: complete_uncached_def and_then_def split_def Let_def split: sum.splits)
    then show ?thesis
      using loop core other unfolding Inr t by (auto split: option.splits)
  qed
qed

lemma complete_core: "\<not> ca_use_cache a \<Longrightarrow> gw_hooks G = [] \<Longrightarrow> keeps core_same (complete E G rm a)"
  unfolding keeps_def by (metis complete_frame prod.collapse)

lemma same_db_call: "w_db (snd (call_with_rate_limit_retry E rq w)) = w_db w"
  by (metis rate_limited_frame prod.collapse)

context db_relation
begin

lemma call_keeps [keeps_rules]: "keeps Q (call_with_rate_limit_retry E rq)"
  by (rule same_db) (rule same_db_call)

lemma record_call_keeps [keeps_rules]: "keeps Q (record_call E m i c)"
  unfolding record_call_def Let_def by (intro keeps_rules)

lemma hooks_keep: "\<forall>h \<in> set hs. \<forall>c. keeps Q (h c) \<Longrightarrow> keeps Q (run_hooks hs ctx)"
  by (induction hs) (auto intro!: keeps_rules)

lemma attempts_keep:
  assumes "\<forall>h \<in> set (gw_hooks G). \<forall>c. keeps Q (h c)"
  shows "keeps Q (attempts_loop E G a rm model base key ns)"
proof (induction ns)
  case Nil
  show ?case unfolding attempts_loop.simps by (rule keeps_rules)
next
  case (Cons n ns)
  show ?case unfolding attempts_loop.simps by (intro keeps_rules hooks_keep assms Cons)
qed

lemma complete_keeps:
  assumes "\<forall>h \<in> set (gw_hooks G). \<forall>c. keeps Q (h c)"
  shows "keeps Q (complete E G rm a)"
  unfolding complete_def complete_uncached_def Let_def
  by (intro keeps_rules attempts_keep assms)

lemma gateway_keeps [keeps_rules]: "keeps Q (complete E (build_gateway S) rm a)"
  by (rule complete_keeps) simp

end

section \<open>Properties\<close>

text \<open>
  C36. Metering a call never lowers a run's spend: a recorded cost is non-negative, has four
  decimal places, lies within half a place of the price, and is added to that run alone, with
  every other table unchanged.
\<close>
theorem metering_accumulates:
  assumes run: "record_call E model (Some i) c w = (Inr cost, w')"
  shows "0 \<le> cost \<and> (\<exists>k :: int. cost = of_int k / 10000) \<and> \<bar>cost - metered_cost E model c\<bar> \<le> 1 / 20000 \<and>
    (\<exists>r. run_lookup i (w_db w) = Some r \<and> run_lookup i (w_db w') = Some (r\<lparr>r_spent := r_spent r + cost\<rparr>)) \<and>
    (\<forall>j. j \<noteq> i \<longrightarrow> run_lookup j (w_db w') = run_lookup j (w_db w)) \<and> core_same (w_db w) (w_db w')"
proof -
  let ?q = "quantize4 (metered_cost E model c)"
  from run obtain r d where rd: "0 \<le> ?q" "cost = ?q" "run_lookup i (w_db w) = Some r" "w' = w\<lparr>w_db := d\<rparr>"
      "commit [UpdRun i (\<lambda>r. r\<lparr>r_spent := r_spent r + cost\<rparr>)] (w_db w) = Inr d"
    by (auto simp: record_call_def Let_def prog_results split: if_splits option.splits)
  from commit_spent [OF rd(5)] rd show ?thesis
    using quantize4_near quantize4_places by (auto simp: option.map_ident)
qed

theorem metering_accumulates_witness:
  "\<exists>w' :: world. run_lookup 2 (w_db w') = map_option (\<lambda>r. r\<lparr>r_spent := 1 / 8\<rparr>) (run_lookup 2 one_run_db)"
proof -
  let ?c = "\<lparr>cc_cost_usd = Some (1 / 8), cc_response = None, cc_prompt = None, cc_completion = None,
      cc_prompt_tokens = None, cc_completion_tokens = None\<rparr>"
  let ?p = "record_call (scripted_env (\<lambda>_. reply_text []) (\<lambda>_. None)) ''m'' (Some 2) ?c one_run_world"
  have "\<lfloor>2501 / 2 :: rat\<rfloor> = 1250" by (simp add: floor_eq_iff)
  then have q: "quantize4 (1 / 8) = 1 / 8" by (simp add: quantize4_def)
  have "is_ok (commit [UpdRun 2 (\<lambda>r. r\<lparr>r_spent := r_spent r + 1 / 8\<rparr>)] one_run_db)" by code_simp
  then obtain d where d: "commit [UpdRun 2 (\<lambda>r. r\<lparr>r_spent := r_spent r + 1 / 8\<rparr>)] one_run_db = Inr d"
    by (auto simp: is_ok_iff)
  have "run_lookup 2 one_run_db \<noteq> None" by (simp add: run_lookup_def one_run_db_def)
  then obtain r where "run_lookup 2 one_run_db = Some r" by blast
  with d have "fst ?p = Inr (1 / 8)"
    by (simp add: record_call_def metered_cost_def q and_then_def tx_def one_run_world_def world_of_def Let_def)
  from metering_accumulates [OF run_result [OF this]] obtain r where
    r: "run_lookup 2 (w_db one_run_world) = Some r"
      "run_lookup 2 (w_db (snd ?p)) = Some (r\<lparr>r_spent := r_spent r + 1 / 8\<rparr>)" by blast
  moreover have "r_spent r = 0"
    using r(1) by (auto simp: run_lookup_def one_run_world_def world_of_def one_run_db_def)
  ultimately show ?thesis
    by (intro exI [of _ "snd ?p"]) (simp add: one_run_world_def world_of_def)
qed

text \<open>
  Without a price reported by the caller the metered cost is never negative, so recording a
  gateway call can fail only because its run does not exist or because the database refuses the new
  total; a failed recording changes nothing.
\<close>
theorem metering_never_negative:
  assumes "cc_cost_usd c = None" and run: "record_call E model i c w = (r, w')"
  shows "case r of Inr cost \<Rightarrow> 0 \<le> cost
     | Inl e \<Rightarrow> w' = w \<and> ((\<exists>m. e = RunNotFoundError m) \<or> (\<exists>m. e = IntegrityError m) \<or> (\<exists>m. e = AppendOnlyViolation m))"
proof -
  have "0 \<le> quantize4 (metered_cost E model c)"
    by (rule quantize4_nonneg [OF metered_nonneg [OF assms(1)]])
  with run show ?thesis
    by (auto simp: record_call_def Let_def and_then_def tx_def
        split: if_splits option.splits sum.splits dest!: commit_err)
qed

theorem metering_never_negative_witness:
  "fst (record_call (scripted_env (\<lambda>_. reply_text []) (\<lambda>_. None)) ''m'' (Some 3) \<lparr>cc_cost_usd = None, cc_response = None,
      cc_prompt = Some ''p'', cc_completion = None, cc_prompt_tokens = None, cc_completion_tokens = None\<rparr>
      one_run_world) \<noteq> Inl (NegativeCostError [])"
proof -
  let ?c = "\<lparr>cc_cost_usd = None, cc_response = None, cc_prompt = Some ''p'', cc_completion = None,
      cc_prompt_tokens = None, cc_completion_tokens = None\<rparr>"
  let ?p = "record_call (scripted_env (\<lambda>_. reply_text []) (\<lambda>_. None)) ''m'' (Some 3) ?c one_run_world"
  have "cc_cost_usd ?c = None" "?p = (fst ?p, snd ?p)" by simp_all
  from metering_never_negative [OF this] show ?thesis by (cases "fst ?p") auto
qed



text \<open>
  A rate-limit error that reports an exhausted quota, and any error outside the three transient
  classes, is raised after a single call; a transient error is retried with the documented delays
  only for the rate limit: 15, 30 and 60 seconds, but 10, 20 and 40 for the other two classes.
\<close>
theorem retry_only_transient:
  assumes "provider_call E rq w = (Inl e, w1)"
  shows "(\<forall>m. e = RateLimitError m \<longrightarrow> quota_exhausted m) \<and> (\<forall>m. e \<noteq> ServiceUnavailableError m) \<and>
      (\<forall>m. e \<noteq> APIConnectionError m) \<longrightarrow> call_attempts E rq ds w = (Inl e, w1)"
    (is "?final \<longrightarrow> ?A")
  using assms by (subst call_attempts.simps) (auto split: exn.splits)

theorem retry_only_transient_witness:
  "\<exists>w1. call_attempts (scripted_env (\<lambda>_. Inl (RateLimitError ''Quota exceeded'')) (\<lambda>_. None))
      (attempt_request ''m'' [] None undefined 0) retry_delays one_run_world = (Inl (RateLimitError ''Quota exceeded''), w1)"
proof -
  let ?E = "scripted_env (\<lambda>_. Inl (RateLimitError ''Quota exceeded'')) (\<lambda>_. None)"
  let ?rq = "attempt_request ''m'' [] None undefined 0"
  have "provider_call ?E ?rq one_run_world =
      (Inl (RateLimitError ''Quota exceeded''), snd (provider_call ?E ?rq one_run_world))"
    by (simp add: provider_call_def scripted_env_def Let_def)
  moreover have "quota_exhausted ''Quota exceeded''" by code_simp
  ultimately show ?thesis using retry_only_transient by blast
qed


definition demo_args :: "string \<Rightarrow> call_args" where
  \<comment> \<open>a cheap uncached completion for run 2\<close>
  "demo_args prompt = \<lparr>ca_tier = ''cheap'', ca_prompt = Some prompt, ca_messages = None, ca_system = None,
     ca_run = Some 2, ca_use_cache = False, ca_ttl = None, ca_inputs = JObj [], ca_temperature = None, ca_max_tokens = None\<rparr>"


end
