(* ===== verification/Trail.thy ===== *)
theory Trail
  imports Gateway
begin

text \<open>
  \<open>app/services/audit_writer.py\<close>: the only path by which services add audit rows.
  \<open>audit_append\<close> validates and redacts the fields and returns the change for the caller's
  transaction; \<open>audit_record\<close> commits it alone. Arguments that are not strings are passed as
  the text \<open>str\<close> gives.
\<close>

definition max_field_len :: nat where "max_field_len = 64"
definition max_reason_len :: nat where "max_reason_len = 2000"

record audit_args =
  au_run :: "uuid option"
  au_entity_type :: string
  au_entity_id :: "string option"
  au_action :: string
  au_actor :: "string option"
  au_decision :: "string option"
  au_reason :: "string option"
  au_evidence :: "json option"

definition require_string :: "string \<Rightarrow> string \<Rightarrow> string result" where
  "require_string text field =
     (if blank text then Inl (ValueError (field @ '' is required''))
      else if length text > max_field_len
      then Inl (ValueError (field @ '' must be at most '' @ str_int (int max_field_len) @ '' characters''))
      else Inr text)"

definition optional_string :: "string option \<Rightarrow> string \<Rightarrow> string option result" where
  "optional_string value field =
     (case value of
        None \<Rightarrow> Inr None
      | Some text \<Rightarrow>
          if blank text then Inl (ValueError (field @ '' must be non-empty when provided''))
          else if length text > max_field_len
          then Inl (ValueError (field @ '' must be at most '' @ str_int (int max_field_len) @ '' characters''))
          else Inr (Some text))"

fun is_object :: "json \<Rightarrow> bool" where
  "is_object (JObj _) = True"
| "is_object _ = False"

definition audit_validate :: "audit_args \<Rightarrow> uuid result" where
  "audit_validate a =
     (case au_run a of
        None \<Rightarrow> Inl (ValueError ''run_id is required'')
      | Some run_id \<Rightarrow>
          result_bind (require_string (au_entity_type a) ''entity_type'') (\<lambda>_.
          result_bind (require_string (au_action a) ''action'') (\<lambda>_.
          result_bind (optional_string (au_entity_id a) ''entity_id'') (\<lambda>_.
          result_bind (optional_string (au_actor a) ''actor'') (\<lambda>_.
          result_bind (optional_string (au_decision a) ''decision'') (\<lambda>_.
          result_bind (case au_reason a of
               None \<Rightarrow> Inr ()
             | Some reason \<Rightarrow> if length reason > max_reason_len
                 then Inl (ValueError (''reason must be at most '' @ str_int (int max_reason_len) @ '' characters''))
                 else Inr ()) (\<lambda>_.
          case au_evidence a of
            None \<Rightarrow> Inr run_id
          | Some evidence \<Rightarrow> if is_object evidence then Inr run_id
              else Inl (ValueError ''evidence must be a JSON object''))))))))"

definition audit_row_of :: "uuid \<Rightarrow> time \<Rightarrow> uuid \<Rightarrow> audit_args \<Rightarrow> audit_row" where
  "audit_row_of i t run_id a = \<lparr>a_id = i, a_run = run_id,
     a_entity_type = redact_secrets (au_entity_type a),
     a_entity_id = map_option redact_secrets (au_entity_id a),
     a_action = redact_secrets (au_action a),
     a_actor = map_option redact_secrets (au_actor a),
     a_decision = map_option redact_secrets (au_decision a),
     a_reason = map_option redact_secrets (au_reason a),
     a_evidence = map_option redact_json (au_evidence a),
     a_ts = t\<rparr>"

definition audit_append :: "audit_args \<Rightarrow> audit_row prog" where
  "audit_append a =
     and_then (lift (audit_validate a)) (\<lambda>run_id.
     and_then uuid4 (\<lambda>i.
     and_then (reads w_now) (\<lambda>t.
     ret (audit_row_of i t run_id a))))"

definition audit_record :: "audit_args \<Rightarrow> audit_row prog" where
  "audit_record a = and_then (audit_append a) (\<lambda>row. and_then (tx [AddAudit row]) (\<lambda>_. ret row))"

text \<open>Programs are evaluated only when they meet a world.\<close>

lemmas trail_code [code] =
  audit_append_def [THEN fun_cong] audit_record_def [THEN fun_cong]

definition row_secret_free :: "audit_row \<Rightarrow> bool" where
  "row_secret_free r \<longleftrightarrow> secret_free (a_entity_type r) \<and> secret_free (a_action r) \<and>
     (\<forall>s \<in> set_option (a_entity_id r) \<union> set_option (a_actor r) \<union> set_option (a_decision r) \<union> set_option (a_reason r).
        secret_free s) \<and>
     (\<forall>j \<in> set_option (a_evidence r). json_secret_free j)"

lemma audit_row_secret_free: "row_secret_free (audit_row_of i t run_id a)"
  by (auto simp: row_secret_free_def audit_row_of_def redact_secret_free redact_json_free option.set_map)

lemma string_errors:
  "require_string t f = Inl e \<Longrightarrow> \<exists>m. e = ValueError m"
  "optional_string v f = Inl e \<Longrightarrow> \<exists>m. e = ValueError m"
  by (auto simp: require_string_def optional_string_def split: option.splits if_splits)

lemma bind_value_error:
  "(\<And>e. r = Inl e \<Longrightarrow> \<exists>m. e = ValueError m) \<Longrightarrow> (\<And>x e. f x = Inl e \<Longrightarrow> \<exists>m. e = ValueError m) \<Longrightarrow>
     result_bind r f = Inl e \<Longrightarrow> \<exists>m. e = ValueError m"
  by (cases r) auto

lemma audit_validate_err:
  assumes "audit_validate a = Inl e"
  shows "\<exists>m. e = ValueError m"
proof (cases "au_run a")
  case None
  with assms show ?thesis by (auto simp: audit_validate_def)
next
  case (Some i)
  note steps = assms [unfolded audit_validate_def Some option.case]
  show ?thesis
    by (rule bind_value_error [OF _ _ steps], erule string_errors,
        erule bind_value_error [OF _ _, rotated 2], erule string_errors,
        erule bind_value_error [OF _ _, rotated 2], erule string_errors,
        erule bind_value_error [OF _ _, rotated 2], erule string_errors,
        erule bind_value_error [OF _ _, rotated 2], erule string_errors,
        erule bind_value_error [OF _ _, rotated 2])
      (auto split: option.splits if_splits)
qed

lemma audit_append_run:
  "audit_append a w = (r, w') \<Longrightarrow>
     (case r of
        Inl e \<Rightarrow> (\<exists>m. e = ValueError m) \<and> audit_validate a = Inl e \<and> w' = w
      | Inr row \<Rightarrow> (\<exists>run_id. audit_validate a = Inr run_id \<and> row = audit_row_of (w_next w) (w_now w) run_id a \<and>
          w' = w\<lparr>w_next := Suc (w_next w)\<rparr>))"
  using audit_validate_err by (cases "audit_validate a") (auto simp: audit_append_def and_then_def)

lemma audit_validate_run: "audit_validate a = Inr i \<Longrightarrow> au_run a = Some i"
  by (auto simp: audit_validate_def result_bind_ok split: option.splits if_splits)

lemma audit_append_frame: "w_db (snd (audit_append a w)) = w_db w"
  using audit_append_run [of a w "fst (audit_append a w)" "snd (audit_append a w)"]
  by (auto split: sum.splits)

context db_preorder
begin

lemma audit_append_keeps [keeps_rules]: "keeps Q (audit_append a)"
  by (rule same_db) (rule audit_append_frame)

end

text \<open>
  C28. A recorded audit row is free of secrets in every text field and throughout its evidence,
  belongs to the run it was recorded for, and is the one row added to the trail; a refused
  recording leaves the database unchanged.
\<close>
theorem audit_record_redacted:
  assumes "audit_record a w = (r, w')"
  shows "case r of
      Inr row \<Rightarrow> row_secret_free row \<and> au_run a = Some (a_run row) \<and> audit (w_db w') = audit (w_db w) @ [row] \<and>
        links (w_db w') = links (w_db w) \<and> statements (w_db w') = statements (w_db w)
    | Inl e \<Rightarrow> w_db w' = w_db w"
proof (cases r)
  case (Inl e)
  with assms show ?thesis
    by (auto simp: audit_record_def prog_results dest!: audit_append_run)
next
  case (Inr row)
  with assms obtain w1 where a: "audit_append a w = (Inr row, w1)" "tx [AddAudit row] w1 = (Inr (), w')"
    by (auto simp: audit_record_def prog_results)
  from audit_append_run [OF a(1)] obtain i where i: "audit_validate a = Inr i"
      "row = audit_row_of (w_next w) (w_now w) i a" "w_db w1 = w_db w" by auto
  with a(2) have "audit (w_db w') = audit (w_db w) @ [row] \<and> links (w_db w') = links (w_db w) \<and>
      statements (w_db w') = statements (w_db w)"
    by (auto simp: tx_Inr commit_ok)
  moreover have "au_run a = Some (a_run row)" using audit_validate_run [OF i(1)] i(2) by (simp add: audit_row_of_def)
  ultimately show ?thesis using Inr i(2) audit_row_secret_free by simp
qed

theorem audit_record_redacted_witness:
  "\<exists>row (w' :: world). audit (w_db w') = [row] \<and> row_secret_free row \<and> a_run row = 2"
proof -
  let ?a = "\<lparr>au_run = Some 2, au_entity_type = ''run'', au_entity_id = None, au_action = ''note'', au_actor = None,
    au_decision = None, au_reason = Some ''password: hunter2'', au_evidence = Some (JObj [])\<rparr>"
  have "is_ok (fst (audit_record ?a one_run_world))" by code_simp
  then obtain row where "fst (audit_record ?a one_run_world) = Inr row" by (auto simp: is_ok_iff)
  from audit_record_redacted [OF run_result [OF this]] show ?thesis by auto
qed

end
