(* ===== verification/Planner.thy ===== *)
theory Planner
  imports Trail
begin

text \<open>
  \<open>app/services/plan_schema.py\<close>, \<open>app/services/statement_schema.py\<close>,
  \<open>app/services/planner.py\<close> and \<open>app/services/extractor.py\<close>. A Pydantic model is a
  record with its declared bounds; reading its fields from JSON is the library's work and enters
  as the coercions of the record \<open>schemas\<close>, after which the bounds are checked. The fixed
  system texts of the prompts are the record \<open>instructions\<close>.
\<close>

section \<open>Schemas\<close>

record research_plan =
  rp_topic :: string
  rp_sub_questions :: "string list"
  rp_hypotheses :: "string list"
  rp_taxonomy :: "string list"
  rp_domains :: "string list"

record extracted_statement =
  ex_text :: string
  ex_confidence :: "rat option"

record verdict =
  vd_supported :: bool
  vd_verdict :: string
  vd_reason :: string
  vd_confidence :: "rat option"

record flag_verdict =
  fl_contradictory :: bool
  fl_flag :: string
  fl_reason :: string
  fl_confidence :: "rat option"

record confirm_verdict =
  cv_contradictory :: bool
  cv_reason :: string
  cv_confidence :: "rat option"

record conclusion_draft =
  cd_text :: string
  cd_statement_ids :: "string list"
  cd_confidence :: "rat option"
  cd_one_sided :: bool
  cd_high_stakes :: bool

definition bounded :: "nat \<Rightarrow> nat \<Rightarrow> 'a list \<Rightarrow> bool" where
  \<comment> \<open>\<open>min_length\<close> and \<open>max_length\<close>\<close>
  "bounded lo hi xs \<longleftrightarrow> lo \<le> length xs \<and> length xs \<le> hi"

definition hint_list :: "string list \<Rightarrow> bool" where
  "hint_list xs \<longleftrightarrow> length xs \<le> 20 \<and> list_all (bounded 1 500) xs"

definition plan_bounds :: "research_plan \<Rightarrow> bool" where
  "plan_bounds p \<longleftrightarrow> bounded 1 500 (rp_topic p) \<and> bounded 3 20 (rp_sub_questions p) \<and>
     list_all (bounded 1 500) (rp_sub_questions p) \<and> hint_list (rp_hypotheses p) \<and>
     hint_list (rp_taxonomy p) \<and> hint_list (rp_domains p)"

definition extraction_bounds :: "extracted_statement list \<Rightarrow> bool" where
  "extraction_bounds xs \<longleftrightarrow> length xs \<le> 50 \<and>
     list_all (\<lambda>x. bounded 1 2000 (ex_text x) \<and> unit_interval (ex_confidence x)) xs"

definition verdict_bounds :: "verdict \<Rightarrow> bool" where
  "verdict_bounds v \<longleftrightarrow> vd_verdict v \<in> {''supported'', ''unsupported''} \<and> bounded 1 2000 (vd_reason v) \<and>
     unit_interval (vd_confidence v)"

definition flag_bounds :: "flag_verdict \<Rightarrow> bool" where
  "flag_bounds v \<longleftrightarrow> fl_flag v \<in> {''flag'', ''no_flag''} \<and> bounded 1 2000 (fl_reason v) \<and>
     unit_interval (fl_confidence v)"

definition confirm_bounds :: "confirm_verdict \<Rightarrow> bool" where
  "confirm_bounds v \<longleftrightarrow> bounded 1 2000 (cv_reason v) \<and> unit_interval (cv_confidence v)"

definition conclusions_bounds :: "conclusion_draft list \<Rightarrow> bool" where
  "conclusions_bounds xs \<longleftrightarrow> length xs \<le> 50 \<and>
     list_all (\<lambda>x. bounded 1 2000 (cd_text x) \<and> bounded 1 20 (cd_statement_ids x) \<and> unit_interval (cd_confidence x)) xs"

record schemas =
  \<comment> \<open>the fields Pydantic reads from a JSON value, \<open>None\<close> when it cannot, and the schema texts\<close>
  sc_plan :: "json \<Rightarrow> research_plan option"
  sc_extraction :: "json \<Rightarrow> extracted_statement list option"
  sc_verdict :: "json \<Rightarrow> verdict option"
  sc_flag :: "json \<Rightarrow> flag_verdict option"
  sc_confirm :: "json \<Rightarrow> confirm_verdict option"
  sc_conclusions :: "json \<Rightarrow> conclusion_draft list option"
  sc_text :: "string \<Rightarrow> string"

record instructions =
  in_plan :: string
  in_extract :: string
  in_judge :: string
  in_flag :: string
  in_confirm :: string
  in_synthesis :: string

record services =
  sv_env :: env
  sv_settings :: settings
  sv_schemas :: schemas
  sv_instructions :: instructions

definition checked :: "('m \<Rightarrow> bool) \<Rightarrow> 'm option \<Rightarrow> 'm result" where
  "checked bounds x =
     (case x of
        None \<Rightarrow> Inl (ValidationError ''validation error'')
      | Some m \<Rightarrow> if bounds m then Inr m else Inl (ValidationError ''validation error''))"

definition model_of :: "services \<Rightarrow> string \<Rightarrow> ('m \<Rightarrow> bool) \<Rightarrow> (json \<Rightarrow> 'm option) \<Rightarrow> 'm response_model" where
  \<comment> \<open>the dump is written to the cache only by cached calls, which no service makes\<close>
  "model_of V name bounds coerce =
     \<lparr>rm_schema = sc_text (sv_schemas V) name, rm_validate = (\<lambda>j. checked bounds (coerce j)), rm_dump = (\<lambda>_. JNull)\<rparr>"

definition plan_model :: "services \<Rightarrow> research_plan response_model" where
  "plan_model V = model_of V ''ResearchPlan'' plan_bounds (sc_plan (sv_schemas V))"

definition extraction_model :: "services \<Rightarrow> extracted_statement list response_model" where
  "extraction_model V = model_of V ''StatementExtraction'' extraction_bounds (sc_extraction (sv_schemas V))"

definition verdict_model :: "services \<Rightarrow> verdict response_model" where
  "verdict_model V = model_of V ''VerificationVerdict'' verdict_bounds (sc_verdict (sv_schemas V))"

definition flag_model :: "services \<Rightarrow> flag_verdict response_model" where
  "flag_model V = model_of V ''ContradictionFlag'' flag_bounds (sc_flag (sv_schemas V))"

definition confirm_model :: "services \<Rightarrow> confirm_verdict response_model" where
  "confirm_model V = model_of V ''ConfirmVerdict'' confirm_bounds (sc_confirm (sv_schemas V))"

definition conclusions_model :: "services \<Rightarrow> conclusion_draft list response_model" where
  "conclusions_model V = model_of V ''ConclusionExtraction'' conclusions_bounds (sc_conclusions (sv_schemas V))"

lemma checked_ok: "checked bounds x = Inr m \<longleftrightarrow> x = Some m \<and> bounds m"
  by (auto simp: checked_def split: option.split)

section \<open>Asking the model\<close>

definition llm_args :: "string \<Rightarrow> string \<Rightarrow> string \<Rightarrow> uuid \<Rightarrow> call_args" where
  \<comment> \<open>the keyword arguments every service passes: system text, data block, run, no cache\<close>
  "llm_args tier system data run_id = \<lparr>ca_tier = tier, ca_prompt = Some data, ca_messages = None,
     ca_system = Some system, ca_run = Some run_id, ca_use_cache = False, ca_ttl = None, ca_inputs = JObj [],
     ca_temperature = None, ca_max_tokens = None\<rparr>"

definition ask :: "services \<Rightarrow> 'm response_model \<Rightarrow> string \<Rightarrow> string \<Rightarrow> string \<Rightarrow> uuid \<Rightarrow> ('m \<times> string) prog" where
  \<comment> \<open>\<open>result = await gateway.complete(...)\<close>: \<open>result.data\<close> and \<open>result.model\<close>\<close>
  "ask V rm tier system data run_id =
     and_then (complete (sv_env V) (build_gateway (sv_settings V)) (Some rm) (llm_args tier system data run_id)) (\<lambda>g.
       case gr_data g of
         RModel m \<Rightarrow> ret (m, gr_model g)
       | RText _ \<Rightarrow> throw (OtherError ''no structured output''))"

lemma ask_frame:
  assumes "ask V (model_of V name bounds coerce) tier sys data i w = (r, w')"
  shows "core_same (w_db w) (w_db w') \<and> w_blobs w' = w_blobs w \<and> w_next w' = w_next w \<and> w_now w \<le> w_now w' \<and>
    (\<forall>m k. r = Inr (m, k) \<longrightarrow> bounds m)"
proof -
  let ?rm = "model_of V name bounds coerce"
  obtain q w1 where q: "complete (sv_env V) (build_gateway (sv_settings V)) (Some ?rm) (llm_args tier sys data i) w = (q, w1)"
    by fastforce
  have nc: "\<not> ca_use_cache (llm_args tier sys data i)" by (simp add: llm_args_def)
  from complete_frame [OF nc _ q] have fr: "core_same (w_db w) (w_db w1) \<and> w_blobs w1 = w_blobs w \<and>
      w_next w1 = w_next w \<and> w_now w \<le> w_now w1"
    and data: "\<And>g. q = Inr g \<Longrightarrow> \<exists>n x. gr_data g = RModel x \<and> validate_content (sv_env V) ?rm n (gr_content g) = Inr x"
    by auto
  show ?thesis
  proof (cases q)
    case (Inl e)
    with assms q fr show ?thesis by (auto simp: ask_def and_then_def)
  next
    case (Inr g)
    from data [OF this] obtain n x where x: "gr_data g = RModel x"
        "validate_content (sv_env V) ?rm n (gr_content g) = Inr x" by blast
    from x(2) have "bounds x" by (auto simp: validate_content_def result_bind_ok model_of_def checked_ok)
    with assms q Inr fr x(1) show ?thesis by (auto simp: ask_def and_then_def)
  qed
qed

lemma ask_core [keeps_rules]: "keeps core_same (ask V (model_of V name bounds coerce) tier sys data i)"
  unfolding keeps_def by (metis ask_frame prod.collapse)

context db_relation
begin

lemma ask_keeps [keeps_rules]: "keeps Q (ask V rm tier sys data i)"
proof -
  have "keeps Q (case d of RModel m \<Rightarrow> ret (m, k) | RText t \<Rightarrow> throw e)" for d :: "'x reply_data" and k :: string and e
    by (cases d) (auto intro: keeps_rules)
  then show ?thesis unfolding ask_def by (intro keeps_rules)
qed

end

section \<open>The planner\<close>

definition plan_ttl_seconds :: int where "plan_ttl_seconds = 30 * 24 * 60 * 60"

definition lines_of :: "string list \<Rightarrow> string" where
  \<comment> \<open>lines joined by newlines\<close>
  "lines_of xs = join [nl] xs"

definition build_plan_prompt :: "services \<Rightarrow> string \<Rightarrow> string \<times> string" where
  "build_plan_prompt V topic =
     (in_plan (sv_instructions V), lines_of [''<topic_data>'', topic, ''</topic_data>''])"

definition redact_plan :: "research_plan \<Rightarrow> research_plan result" where
  \<comment> \<open>the constructor validates the redacted fields again\<close>
  "redact_plan p = checked plan_bounds (Some \<lparr>rp_topic = redact_secrets (rp_topic p),
     rp_sub_questions = map redact_secrets (rp_sub_questions p),
     rp_hypotheses = map redact_secrets (rp_hypotheses p),
     rp_taxonomy = map redact_secrets (rp_taxonomy p),
     rp_domains = map redact_secrets (rp_domains p)\<rparr>)"

definition plan_key :: "uuid \<Rightarrow> string" where
  "plan_key run_id = ''research_plan:'' @ str_uuid run_id"

definition plan_json :: "research_plan \<Rightarrow> json" where
  \<comment> \<open>\<open>model_dump(mode=json)\<close>\<close>
  "plan_json p = JObj [(''topic'', JStr (rp_topic p)),
     (''sub_questions'', JList (map JStr (rp_sub_questions p))),
     (''hypotheses'', JList (map JStr (rp_hypotheses p))),
     (''taxonomy_hints'', JList (map JStr (rp_taxonomy p))),
     (''source_domain_hints'', JList (map JStr (rp_domains p)))]"

definition plan_run :: "services \<Rightarrow> string \<Rightarrow> uuid \<Rightarrow> research_plan prog" where
  "plan_run V topic run_id =
     (if blank topic then throw (ValueError ''topic must be a non-empty string'')
      else
        let safe_topic = redact_secrets (py_strip topic);
            (system, data) = build_plan_prompt V safe_topic
        in and_then (ask V (plan_model V) ''cheap'' system data run_id) (\<lambda>(plan, model).
           and_then (lift (redact_plan plan)) (\<lambda>redacted.
           and_then (kv_set (plan_key run_id) model (build_prompt_hash (sv_env V) data (JObj []))
              (plan_json redacted) (Some plan_ttl_seconds)) (\<lambda>_.
           ret redacted))))"

definition plan_strings :: "research_plan \<Rightarrow> string list" where
  "plan_strings p = rp_topic p # rp_sub_questions p @ rp_hypotheses p @ rp_taxonomy p @ rp_domains p"

lemma redact_plan_ok: "redact_plan p = Inr q \<Longrightarrow> plan_bounds q \<and> (\<forall>s \<in> set (plan_strings q). secret_free s)"
  by (auto simp: redact_plan_def checked_ok plan_strings_def redact_secret_free)

lemma json_strings_plan: "json_strings (plan_json p) = plan_strings p"
  by (simp add: plan_json_def plan_strings_def comp_def)

section \<open>The extractor\<close>

definition build_data_block :: "uuid \<Rightarrow> string \<Rightarrow> string" where
  "build_data_block passage_id text =
     lines_of [''<passage_data passage_id='' @ CHR 0x22 # str_uuid passage_id @ [CHR 0x22, CHR ''>''], text, ''</passage_data>'']"

definition draft_row :: "passage \<Rightarrow> uuid \<Rightarrow> extracted_statement \<Rightarrow> statement prog" where
  "draft_row passage run_id item = and_then uuid4 (\<lambda>i.
     ret \<lparr>s_id = i, s_passage = p_id passage, s_run = run_id, s_text = redact_secrets (ex_text item),
       s_status = DRAFT, s_confidence = ex_confidence item\<rparr>)"

definition new_link :: "uuid \<Rightarrow> uuid \<Rightarrow> uuid \<Rightarrow> evidence_score \<Rightarrow> string \<Rightarrow> evidence_link prog" where
  "new_link statement_id passage_id run_id score meth = and_then uuid4 (\<lambda>i. and_then (reads w_now) (\<lambda>t.
     ret \<lparr>l_id = i, l_statement = statement_id, l_passage = passage_id, l_run = run_id, l_score = score,
       l_method = meth, l_created = t\<rparr>))"

definition extract_run :: "services \<Rightarrow> passage \<Rightarrow> uuid \<Rightarrow> statement list prog" where
  "extract_run V passage run_id =
     (let text = redact_secrets (p_text passage)
      in if blank text then throw (ValueError ''cannot extract statements from an empty passage'')
         else
           and_then (ask V (extraction_model V) ''cheap'' (in_extract (sv_instructions V))
              (build_data_block (p_id passage) text) run_id) (\<lambda>(items, _).
           if items = [] then ret []
           else
             and_then (each (draft_row passage run_id) items) (\<lambda>rows.
             and_then (each (\<lambda>row. new_link (s_id row) (p_id passage) run_id NONE ''extract'') rows) (\<lambda>ls.
             and_then (tx (map AddStatement rows @ map AddLink ls)) (\<lambda>_.
             ret rows)))))"

text \<open>Programs are evaluated only when they meet a world.\<close>

lemmas planner_code [code] =
  ask_def [THEN fun_cong] plan_run_def [THEN fun_cong] draft_row_def [THEN fun_cong]
  new_link_def [THEN fun_cong] extract_run_def [THEN fun_cong]

lemma draft_row_run:
  "draft_row p run_id x w = (Inr \<lparr>s_id = w_next w, s_passage = p_id p, s_run = run_id,
     s_text = redact_secrets (ex_text x), s_status = DRAFT, s_confidence = ex_confidence x\<rparr>,
     w\<lparr>w_next := Suc (w_next w)\<rparr>)"
  by (simp add: draft_row_def and_then_def)

lemma new_link_run:
  "new_link sid pid run_id sc m w = (Inr \<lparr>l_id = w_next w, l_statement = sid, l_passage = pid, l_run = run_id,
     l_score = sc, l_method = m, l_created = w_now w\<rparr>, w\<lparr>w_next := Suc (w_next w)\<rparr>)"
  by (simp add: new_link_def and_then_def)

lemma each_draft:
  "each (draft_row p run_id) items w = (r, w') \<Longrightarrow>
     w' = w\<lparr>w_next := w_next w + length items\<rparr> \<and>
     (\<exists>rows. r = Inr rows \<and> map s_id rows = [w_next w..<w_next w + length items] \<and>
       map (\<lambda>s. (s_text s, s_confidence s)) rows = map (\<lambda>x. (redact_secrets (ex_text x), ex_confidence x)) items \<and>
       (\<forall>s \<in> set rows. s_passage s = p_id p \<and> s_run s = run_id \<and> s_status s = DRAFT))"
proof (induction items arbitrary: w r w')
  case (Cons x xs)
  let ?w1 = "w\<lparr>w_next := Suc (w_next w)\<rparr>"
  obtain q w2 where q: "each (draft_row p run_id) xs ?w1 = (q, w2)" by fastforce
  from Cons.prems have "and_then (each (draft_row p run_id) xs) (\<lambda>ys. ret (\<lparr>s_id = w_next w, s_passage = p_id p,
      s_run = run_id, s_text = redact_secrets (ex_text x), s_status = DRAFT, s_confidence = ex_confidence x\<rparr> # ys)) ?w1 = (r, w')"
    unfolding each.simps and_then_run(2) [OF draft_row_run] .
  with Cons.IH [OF q] q show ?case
    by (auto simp: and_then_def upt_conv_Cons simp del: upt_Suc)
qed simp

lemma each_link:
  "each (\<lambda>s. new_link (s_id s) pid run_id sc m) rows w = (r, w') \<Longrightarrow>
     w' = w\<lparr>w_next := w_next w + length rows\<rparr> \<and>
     (\<exists>ls. r = Inr ls \<and> map l_id ls = [w_next w..<w_next w + length rows] \<and> map l_statement ls = map s_id rows \<and>
       (\<forall>l \<in> set ls. l_passage l = pid \<and> l_run l = run_id \<and> l_score l = sc \<and> l_method l = m))"
proof (induction rows arbitrary: w r w')
  case (Cons x xs)
  let ?w1 = "w\<lparr>w_next := Suc (w_next w)\<rparr>"
  obtain q w2 where q: "each (\<lambda>s. new_link (s_id s) pid run_id sc m) xs ?w1 = (q, w2)" by fastforce
  from Cons.prems have "and_then (each (\<lambda>s. new_link (s_id s) pid run_id sc m) xs) (\<lambda>ys. ret (\<lparr>l_id = w_next w,
      l_statement = s_id x, l_passage = pid, l_run = run_id, l_score = sc, l_method = m, l_created = w_now w\<rparr> # ys)) ?w1 = (r, w')"
    unfolding each.simps and_then_run(2) [OF new_link_run] .
  with Cons.IH [OF q] q show ?case
    by (auto simp: and_then_def upt_conv_Cons simp del: upt_Suc)
qed simp

lemma apply_statements:
  "apply_all apply_change (map AddStatement rows) d = Inr (d\<lparr>statements := statements d @ rows\<rparr>)"
  by (induction rows arbitrary: d) simp_all

lemma apply_links_all:
  "apply_all apply_change (map AddLink ls) d = Inr (d\<lparr>links := links d @ ls\<rparr>)"
  by (induction ls arbitrary: d) simp_all

context db_relation
begin

lemma planner_keeps [keeps_rules]:
  "keeps Q (plan_run V topic i)" "keeps Q (draft_row p i x)" "keeps Q (new_link s pid i sc m)"
  unfolding plan_run_def draft_row_def new_link_def Let_def by (intro keeps_rules)+

lemma extract_keeps [keeps_rules]: "keeps Q (extract_run V p i)"
  unfolding extract_run_def Let_def by (intro keeps_rules)

end

lemma kv_set_result:
  assumes "kv_set key m h p (Some ttl) w = (s, w')"
  shows "case s of Inl e \<Rightarrow> w' = w | Inr u \<Rightarrow> kv_view (w_db w') key = Some (m, h, p, Some (w_now w + seconds ttl))"
proof (cases s)
  case (Inl e)
  with assms show ?thesis by (auto simp: kv_set_def prog_results Let_def)
next
  case (Inr u)
  with assms obtain d where "kv_put_view key (m, h, p, Some (w_now w + seconds ttl)) (w_db w) = Inr d" "w' = w\<lparr>w_db := d\<rparr>"
    by (auto simp: kv_set_run)
  with kv_store.get_same [OF TrueI this(1)] Inr show ?thesis by simp
qed

lemma draft_rows:
  assumes "each (draft_row passage run_id) items w = (a, w')"
  shows "w_db w' = w_db w \<and> (\<exists>rows. a = Inr rows \<and>
    (\<forall>s \<in> set rows. s_status s = DRAFT \<and> s_passage s = p_id passage \<and> s_run s = run_id \<and> secret_free (s_text s)))"
proof -
  from each_draft [OF assms] obtain rows where rows: "a = Inr rows" "w_db w' = w_db w"
      "map (\<lambda>s. (s_text s, s_confidence s)) rows = map (\<lambda>x. (redact_secrets (ex_text x), ex_confidence x)) items"
      "\<forall>s \<in> set rows. s_passage s = p_id passage \<and> s_run s = run_id \<and> s_status s = DRAFT" by auto
  have "secret_free (s_text s)" if "s \<in> set rows" for s
  proof -
    have "(s_text s, s_confidence s) \<in> set (map (\<lambda>x. (redact_secrets (ex_text x), ex_confidence x)) items)"
      using that rows(3) by (metis (no_types, lifting) image_eqI set_map)
    then show ?thesis by (auto simp: redact_secret_free)
  qed
  with rows show ?thesis by blast
qed

lemma tx_drafts:
  assumes "tx (map AddStatement rows @ map AddLink ls) w = (c, w')"
  shows "case c of Inl e \<Rightarrow> w' = w
    | Inr u \<Rightarrow> w_db w' = (w_db w)\<lparr>statements := statements (w_db w) @ rows, links := links (w_db w) @ ls\<rparr>"
  using assms by (cases c) (auto simp: tx_Inl tx_Inr commit_ok apply_all_append apply_statements apply_links_all)

section \<open>Properties\<close>

text \<open>
  C31. A plan that is returned satisfies the schema's bounds (between 3 and 20 sub-questions),
  contains no secret, and is stored under the run's key for thirty days as it was returned; when
  planning fails, no cache entry is written or changed.
\<close>
theorem plan_persisted_or_nothing:
  assumes "plan_run V topic run_id w = (r, w')"
  shows "case r of
      Inr p \<Rightarrow> plan_bounds p \<and> (\<forall>s. s \<in> set (plan_strings p) \<longrightarrow> secret_free s) \<and>
        (\<exists>m h x. kv_view (w_db w') (plan_key run_id) = Some (m, h, plan_json p, Some (x + seconds plan_ttl_seconds)) \<and> w_now w \<le> x)
    | Inl e \<Rightarrow> kv (w_db w') = kv (w_db w)"
proof (cases "blank topic")
  case True
  with assms show ?thesis by (auto simp: plan_run_def)
next
  case False
  obtain sys data where b: "build_plan_prompt V (redact_secrets (py_strip topic)) = (sys, data)" by fastforce
  obtain q w1 where q: "ask V (plan_model V) ''cheap'' sys data run_id w = (q, w1)" by fastforce
  note fr = ask_frame [OF q [unfolded plan_model_def]]
  have kv1: "kv (w_db w1) = kv (w_db w)" using core_same_tables(13) fr by blast
  show ?thesis
  proof (cases "\<exists>plan model p. q = Inr (plan, model) \<and> redact_plan plan = Inr p")
    case no: False
    then have "w' = w1 \<and> (\<exists>e. r = Inl e)"
      using assms False b q by (cases q) (auto simp: plan_run_def and_then_def dest: sym split: sum.splits)
    with kv1 show ?thesis by auto
  next
    case True
    then obtain plan model p where p: "q = Inr (plan, model)" "redact_plan plan = Inr p" by blast
    obtain s w2 where s: "kv_set (plan_key run_id) model (build_prompt_hash (sv_env V) data (JObj [])) (plan_json p)
        (Some plan_ttl_seconds) w1 = (s, w2)" by fastforce
    have "w' = w2" "(\<exists>e. s = Inl e \<and> r = Inl e) \<or> (s = Inr () \<and> r = Inr p)"
      using assms False b q p s by (auto simp: plan_run_def and_then_def split: sum.splits)
    with kv_set_result [OF s] redact_plan_ok [OF p(2)] kv1 fr show ?thesis by auto
  qed
qed

text \<open>
  C30. Extraction writes drafts only: on success the statements table grows by exactly the returned
  rows, each a secret-free draft of this passage and run, and each with one extractor link of
  score none; on failure statements, links and audit trail are unchanged.
\<close>
theorem extraction_writes_drafts:
  assumes "extract_run V passage run_id w = (r, w')"
  shows "case r of
      Inr rows \<Rightarrow> statements (w_db w') = statements (w_db w) @ rows \<and>
        (\<forall>s. s \<in> set rows \<longrightarrow> s_status s = DRAFT \<and> s_passage s = p_id passage \<and> s_run s = run_id \<and> secret_free (s_text s)) \<and>
        (\<exists>ls. links (w_db w') = links (w_db w) @ ls \<and> map l_statement ls = map s_id rows \<and>
           (\<forall>l. l \<in> set ls \<longrightarrow> l_score l = NONE \<and> l_method l = ''extract'' \<and> l_passage l = p_id passage))
    | Inl e \<Rightarrow> statements (w_db w') = statements (w_db w) \<and> links (w_db w') = links (w_db w) \<and> audit (w_db w') = audit (w_db w)"
proof (cases "blank (redact_secrets (p_text passage))")
  case True
  with assms show ?thesis by (auto simp: extract_run_def Let_def)
next
  case False
  obtain q w1 where q: "ask V (extraction_model V) ''cheap'' (in_extract (sv_instructions V))
      (build_data_block (p_id passage) (redact_secrets (p_text passage))) run_id w = (q, w1)" by fastforce
  have same: "statements (w_db w1) = statements (w_db w)" "links (w_db w1) = links (w_db w)" "audit (w_db w1) = audit (w_db w)"
    using ask_frame [OF q [unfolded extraction_model_def]] core_same_tables [of "w_db w" "w_db w1"] by auto
  show ?thesis
  proof (cases "\<exists>items k. q = Inr (items, k) \<and> items \<noteq> []")
    case no: False
    then have "w' = w1 \<and> ((\<exists>e. r = Inl e) \<or> r = Inr [])"
      using assms False q by (cases q) (auto simp: extract_run_def Let_def and_then_def)
    with same show ?thesis by auto
  next
    case True
    then obtain items k where items: "q = Inr (items, k)" "items \<noteq> []" by blast
    obtain a w2 where a: "each (draft_row passage run_id) items w1 = (a, w2)" by fastforce
    from draft_rows [OF a] obtain rows where rows: "a = Inr rows" "w_db w2 = w_db w1"
        "\<forall>s \<in> set rows. s_status s = DRAFT \<and> s_passage s = p_id passage \<and> s_run s = run_id \<and> secret_free (s_text s)" by blast
    obtain b w3 where b: "each (\<lambda>row. new_link (s_id row) (p_id passage) run_id NONE ''extract'') rows w2 = (b, w3)" by fastforce
    from each_link [OF b] obtain ls where ls: "b = Inr ls" "w_db w3 = w_db w2" "map l_statement ls = map s_id rows"
        "\<forall>l \<in> set ls. l_passage l = p_id passage \<and> l_run l = run_id \<and> l_score l = NONE \<and> l_method l = ''extract''" by auto
    obtain c w4 where c: "tx (map AddStatement rows @ map AddLink ls) w3 = (c, w4)" by fastforce
    have "w' = w4" "(\<exists>e. c = Inl e \<and> r = Inl e) \<or> (c = Inr () \<and> r = Inr rows)"
      using assms False q items a rows(1) b ls(1) c
      by (auto simp: extract_run_def Let_def and_then_def split: sum.splits)
    with tx_drafts [OF c] same rows(2,3) ls show ?thesis by auto
  qed
qed

definition demo_plan :: research_plan where
  "demo_plan = \<lparr>rp_topic = ''t'', rp_sub_questions = [''a'', ''b'', ''c''], rp_hypotheses = [], rp_taxonomy = [], rp_domains = []\<rparr>"

definition demo_services :: "env \<Rightarrow> services" where
  \<comment> \<open>services whose schemas read the same values from every JSON object\<close>
  "demo_services E = \<lparr>sv_env = E, sv_settings = demo_settings,
     sv_schemas = \<lparr>sc_plan = (\<lambda>_. Some demo_plan),
       sc_extraction = (\<lambda>_. Some [\<lparr>ex_text = ''a b'', ex_confidence = None\<rparr>]),
       sc_verdict = (\<lambda>_. Some \<lparr>vd_supported = True, vd_verdict = ''unsupported'', vd_reason = ''r'', vd_confidence = None\<rparr>),
       sc_flag = (\<lambda>_. Some \<lparr>fl_contradictory = True, fl_flag = ''flag'', fl_reason = ''r'', fl_confidence = None\<rparr>),
       sc_confirm = (\<lambda>_. Some \<lparr>cv_contradictory = True, cv_reason = ''r'', cv_confidence = None\<rparr>),
       sc_conclusions = (\<lambda>_. Some []), sc_text = id\<rparr>,
     sv_instructions = \<lparr>in_plan = [], in_extract = [], in_judge = [], in_flag = [], in_confirm = [], in_synthesis = []\<rparr>\<rparr>"

definition obliging_env :: env where
  \<comment> \<open>a provider that always answers an empty object\<close>
  "obliging_env = scripted_env (\<lambda>_. reply_text ''{}'') (\<lambda>_. Some (JObj []))"

theorem plan_persisted_or_nothing_witness:
  "\<exists>p. fst (plan_run (demo_services obliging_env) ''topic'' 2 one_run_world) = Inr p \<and> plan_bounds p"
proof -
  let ?r = "plan_run (demo_services obliging_env) ''topic'' 2 one_run_world"
  have "is_ok (fst ?r)" by code_simp
  then obtain p where p: "fst ?r = Inr p" by (auto simp: is_ok_iff)
  from plan_persisted_or_nothing [OF run_result [OF p]] p show ?thesis by auto
qed

definition extracted_world :: world where
  \<comment> \<open>run 2 with one normalized source, its passage and one draft statement\<close>
  "extracted_world = world_of (one_run_db\<lparr>
     sources := [\<lparr>src_id = 3, src_run = 2, src_uri = ''https://a.org/x'', src_title = None, src_type = ''web'',
       src_fetched_at = None, src_hash = ''h'', src_raw_ref = None, src_allowlisted = True, src_status = NORMALIZED\<rparr>],
     passages := [\<lparr>p_id = 4, p_source = 3, p_seq = 0, p_text = ''a b c'', p_start = None, p_end = None, p_hash = ''p''\<rparr>],
     statements := [\<lparr>s_id = 5, s_passage = 4, s_run = 2, s_text = ''a b'', s_status = DRAFT, s_confidence = None\<rparr>]\<rparr>)"

definition demo_passage :: passage where
  "demo_passage = \<lparr>p_id = 4, p_source = 3, p_seq = 0, p_text = ''a b c'', p_start = None, p_end = None, p_hash = ''p''\<rparr>"

definition demo_statement :: statement where
  "demo_statement = \<lparr>s_id = 5, s_passage = 4, s_run = 2, s_text = ''a b'', s_status = DRAFT, s_confidence = None\<rparr>"

theorem extraction_writes_drafts_witness:
  "\<exists>rows. fst (extract_run (demo_services obliging_env) demo_passage 2 extracted_world) = Inr rows \<and> rows \<noteq> [] \<and>
    (\<forall>s. s \<in> set rows \<longrightarrow> s_status s = DRAFT)"
proof -
  let ?r = "extract_run (demo_services obliging_env) demo_passage 2 extracted_world"
  have "(case fst ?r of Inr (_ # _) \<Rightarrow> True | _ \<Rightarrow> False)" by code_simp
  then obtain rows where p: "fst ?r = Inr rows" "rows \<noteq> []" by (auto split: sum.splits list.splits)
  from extraction_writes_drafts [OF run_result [OF p(1)]] p show ?thesis by auto
qed

end
