(* ===== verification/Verifier.thy ===== *)
theory Verifier
  imports Planner
begin

text \<open>
  \<open>app/services/verifier.py\<close>, the verify-first gate: the support matrix, the judge, and one
  transaction that sets the statement's status, appends an evidence link and appends an audit
  row. \<open>session.merge\<close> gives the session a copy of the passed statement: its status decides
  whether the statement is skipped, and the commit writes its fields back.
\<close>

record verification_outcome =
  vo_decision :: statement_status
  vo_score :: "evidence_score option"
  vo_ratio :: "rat option"
  vo_judge :: "bool option"
  vo_confidence :: "rat option"
  vo_skipped :: bool

definition build_judge_prompt :: "services \<Rightarrow> string \<Rightarrow> string \<Rightarrow> string \<times> string" where
  "build_judge_prompt V statement_text passage_text =
     (in_judge (sv_instructions V),
      lines_of [''<statement_data>'', statement_text, ''</statement_data>'', '''',
        ''<passage_data>'', passage_text, ''</passage_data>''])"

definition statement_lookup :: "uuid \<Rightarrow> db \<Rightarrow> statement option" where
  "statement_lookup i d = find (\<lambda>s. s_id s = i) (statements d)"

definition merge_change :: "statement \<Rightarrow> db \<Rightarrow> change" where
  \<comment> \<open>what flushing a merged statement writes\<close>
  "merge_change s d = (if \<exists>x \<in> set (statements d). s_id x = s_id s then UpdStatement (s_id s) (\<lambda>_. s) else AddStatement s)"

definition judge :: "services \<Rightarrow> string \<Rightarrow> string \<Rightarrow> uuid \<Rightarrow> evidence_score \<Rightarrow> rat \<Rightarrow>
    (statement_status \<times> bool option \<times> rat option \<times> string) prog" where
  \<comment> \<open>decision, \<open>judge_supported\<close>, \<open>judge_confidence\<close> and reason\<close>
  "judge V statement_text passage_text run_id score ratio =
     (if score = FULL \<or> score = PARTIAL then
        let (system, data) = build_judge_prompt V statement_text passage_text
        in and_then (ask V (verdict_model V) ''strong'' system data run_id) (\<lambda>(v, _).
           ret (if vd_supported v then VERIFIED else QUARANTINED, Some (vd_supported v), vd_confidence v, vd_reason v))
      else ret (QUARANTINED, Some False, None,
        ''lexical support ratio '' @ fixed3 (sv_env V) ratio @
        '' below partial threshold; quarantined by deterministic support matrix''))"

definition verify_evidence :: "evidence_score \<Rightarrow> rat \<Rightarrow> bool option \<Rightarrow> rat option \<Rightarrow> json" where
  "verify_evidence score ratio judged confidence =
     JObj [(''support_score'', JStr (score_value score)), (''matrix_ratio'', JFloat ratio),
       (''judge_supported'', jopt JBool judged), (''judge_confidence'', jopt JFloat confidence)]"

definition verify_audit :: "uuid \<Rightarrow> uuid \<Rightarrow> statement_status \<Rightarrow> string \<Rightarrow> json \<Rightarrow> audit_args" where
  "verify_audit run_id sid decision reason evidence = \<lparr>au_run = Some run_id, au_entity_type = ''statement'',
     au_entity_id = Some (str_uuid sid), au_action = ''verify'', au_actor = Some ''verifier'',
     au_decision = Some (statement_status_value decision), au_reason = Some (redact_secrets reason),
     au_evidence = Some evidence\<rparr>"

definition verify :: "services \<Rightarrow> statement \<Rightarrow> passage \<Rightarrow> uuid \<Rightarrow> bool \<Rightarrow> verification_outcome prog" where
  "verify V statement passage run_id force =
     (if s_status statement \<noteq> DRAFT \<and> \<not> force
      then ret \<lparr>vo_decision = s_status statement, vo_score = None, vo_ratio = None, vo_judge = None,
        vo_confidence = None, vo_skipped = True\<rparr>
      else
        let statement_text = redact_secrets (s_text statement); passage_text = redact_secrets (p_text passage)
        in and_then (lift (score_support statement_text passage_text)) (\<lambda>(score, ratio).
           and_then (judge V statement_text passage_text run_id score ratio) (\<lambda>(decision, judged, confidence, reason).
           and_then (new_link (s_id statement) (p_id passage) run_id score ''verify'') (\<lambda>link.
           and_then (audit_append (verify_audit run_id (s_id statement) decision reason
              (verify_evidence score ratio judged confidence))) (\<lambda>row.
           and_then (fetch_db (merge_change (statement\<lparr>s_status := decision\<rparr>))) (\<lambda>merged.
           and_then (tx [merged, AddLink link, AddAudit row]) (\<lambda>_.
           ret \<lparr>vo_decision = decision, vo_score = Some score, vo_ratio = Some ratio, vo_judge = judged,
             vo_confidence = confidence, vo_skipped = False\<rparr>)))))))"

text \<open>Programs are evaluated only when they meet a world.\<close>

lemmas verifier_code [code] =
  judge_def [THEN fun_cong] verify_def [THEN fun_cong]

context db_relation
begin

lemma verify_keeps [keeps_rules]: "keeps Q (judge V s p i sc x)" "keeps Q (verify V st pa i f)"
proof -
  show j: "keeps Q (judge V s p i sc x)" for V s p i sc x
    unfolding judge_def Let_def by (intro keeps_rules)
  show "keeps Q (verify V st pa i f)"
    unfolding verify_def Let_def by (intro keeps_rules j)
qed

end

lemma judge_frame:
  assumes "judge V s p i score ratio w = (r, w')"
  shows "core_same (w_db w) (w_db w') \<and>
    (case r of Inl e \<Rightarrow> score \<noteq> NONE
     | Inr (decision, judged, confidence, reason) \<Rightarrow>
         decision \<noteq> DRAFT \<and> (decision = VERIFIED \<longleftrightarrow> judged = Some True) \<and> (judged = Some True \<longrightarrow> score \<noteq> NONE)) \<and>
    (score = NONE \<longrightarrow> w' = w)"
proof (cases "score = NONE")
  case True
  with assms show ?thesis by (auto simp: judge_def core.Q_refl)
next
  case False
  then have fp: "score = FULL \<or> score = PARTIAL" by (cases score) auto
  obtain sys data where b: "build_judge_prompt V s p = (sys, data)" by fastforce
  obtain q w1 where q: "ask V (verdict_model V) ''strong'' sys data i w = (q, w1)" by fastforce
  from ask_frame [OF q [unfolded verdict_model_def]] have "core_same (w_db w) (w_db w1)" by blast
  with assms fp b q False show ?thesis
    by (cases q) (auto simp: judge_def and_then_def split: if_splits)
qed

lemma verify_run:
  assumes "verify V st pa i force w = (r, w')"
  shows "case r of
      Inl e \<Rightarrow> statements (w_db w') = statements (w_db w) \<and> links (w_db w') = links (w_db w) \<and> audit (w_db w') = audit (w_db w)
    | Inr o1 \<Rightarrow>
        if vo_skipped o1 then w' = w \<and> s_status st \<noteq> DRAFT \<and> \<not> force
        else (\<exists>score ratio link row.
          score_support (redact_secrets (s_text st)) (redact_secrets (p_text pa)) = Inr (score, ratio) \<and>
          vo_score o1 = Some score \<and> vo_ratio o1 = Some ratio \<and> vo_decision o1 \<noteq> DRAFT \<and>
          (vo_decision o1 = VERIFIED \<longleftrightarrow> vo_judge o1 = Some True) \<and> (vo_decision o1 = VERIFIED \<longrightarrow> score \<noteq> NONE) \<and>
          (score = NONE \<longrightarrow> w_sent w' = w_sent w) \<and>
          (\<exists>d. apply_change (merge_change (st\<lparr>s_status := vo_decision o1\<rparr>) (w_db w)) (w_db w) = Inr d \<and>
             statements (w_db w') = statements d) \<and>
          links (w_db w') = links (w_db w) @ [link] \<and> l_statement link = s_id st \<and> l_passage link = p_id pa \<and>
          l_score link = score \<and> l_method link = ''verify'' \<and>
          audit (w_db w') = audit (w_db w) @ [row] \<and> row_secret_free row \<and> a_run row = i \<and> a_action row = ''verify'' \<and>
          a_decision row = Some (redact_secrets (statement_status_value (vo_decision o1))) \<and> db_ok (w_db w'))"
proof (cases "s_status st \<noteq> DRAFT \<and> \<not> force")
  case True
  with assms show ?thesis by (auto simp: verify_def)
next
  case False
  let ?st = "redact_secrets (s_text st)" and ?pt = "redact_secrets (p_text pa)"
  show ?thesis
  proof (cases "score_support ?st ?pt")
    case (Inl e)
    with assms False have "r = Inl e" "w' = w" by (auto simp: verify_def Let_def and_then_def)
    then show ?thesis by simp
  next
    case sc: (Inr t)
    obtain score ratio where t: "t = (score, ratio)" by fastforce
    obtain q w1 where q: "judge V ?st ?pt i score ratio w = (q, w1)" by fastforce
    note j = judge_frame [OF q]
    have same: "statements (w_db w1) = statements (w_db w)" "links (w_db w1) = links (w_db w)"
        "audit (w_db w1) = audit (w_db w)"
      using j core_same_tables [of "w_db w" "w_db w1"] by auto
    show ?thesis
    proof (cases q)
      case (Inl e)
      with assms False sc t q have "r = Inl e" "w' = w1" by (auto simp: verify_def Let_def and_then_def)
      with same show ?thesis by simp
    next
      case jr: (Inr u)
      obtain decision judged confidence reason where u: "u = (decision, judged, confidence, reason)" by (cases u) auto
      let ?args = "verify_audit i (s_id st) decision reason (verify_evidence score ratio judged confidence)"
      define link where "link = \<lparr>l_id = w_next w1, l_statement = s_id st, l_passage = p_id pa, l_run = i, l_score = score,
          l_method = ''verify'', l_created = w_now w1\<rparr>"
      let ?w2 = "w1\<lparr>w_next := Suc (w_next w1)\<rparr>"
      obtain a w3 where a: "audit_append ?args ?w2 = (a, w3)" by fastforce
      note ap = audit_append_run [OF a]
      show ?thesis
      proof (cases a)
        case (Inl e)
        with ap have "w3 = ?w2" by auto
        moreover have "r = Inl e" "w' = w3"
          using assms False sc t q jr u a Inl by (auto simp: verify_def Let_def and_then_def new_link_run)
        ultimately show ?thesis using same by simp
      next
        case (Inr row)
        with ap have row: "row = audit_row_of (w_next ?w2) (w_now ?w2) i ?args" and w3: "w_db w3 = w_db w1" "w_sent w3 = w_sent w1"
          by (auto dest!: audit_validate_run simp: verify_audit_def)
        define merged where "merged = merge_change (st\<lparr>s_status := decision\<rparr>) (w_db w1)"
        obtain c w4 where c: "tx [merged, AddLink link, AddAudit row] w3 = (c, w4)" by fastforce
        have run: "w' = w4" "(\<exists>e. c = Inl e \<and> r = Inl e) \<or> (c = Inr () \<and> r = Inr \<lparr>vo_decision = decision, vo_score = Some score,
            vo_ratio = Some ratio, vo_judge = judged, vo_confidence = confidence, vo_skipped = False\<rparr>)"
          using assms False sc t q jr u a Inr c w3
          by (auto simp: verify_def Let_def and_then_def new_link_run merged_def link_def split: sum.splits)
        show ?thesis
        proof (cases c)
          case (Inl e)
          with c have "w4 = w3" by (simp add: tx_Inl)
          with run Inl same w3 show ?thesis by auto
        next
          case ok: (Inr x)
          have mc: "merged = merge_change (st\<lparr>s_status := decision\<rparr>) (w_db w)"
            unfolding merged_def merge_change_def using same by simp
          from ok c w3 obtain d where d: "commit [merged, AddLink link, AddAudit row] (w_db w1) = Inr d" "w4 = w3\<lparr>w_db := d\<rparr>"
            by (auto simp: tx_Inr)
          from d(1) obtain d1 where d1: "apply_change merged (w_db w1) = Inr d1" "links d = links d1 @ [link]"
              "audit d = audit d1 @ [row]" "statements d = statements d1" "db_ok d"
            by (auto simp: commit_ok result_bind_ok)
          have d1s: "links d1 = links (w_db w)" "audit d1 = audit (w_db w)"
              "\<exists>d'. apply_change merged (w_db w) = Inr d' \<and> statements d1 = statements d'"
            using d1(1) same by (auto simp: mc merge_change_def split: if_splits)
          have "row_secret_free row" unfolding row by (rule audit_row_secret_free)
          moreover have "a_run row = i" "a_action row = ''verify''"
              "a_decision row = Some (redact_secrets (statement_status_value decision))"
            unfolding row using redact_plain [of "''verify''"]
            by (simp_all add: audit_row_of_def verify_audit_def plain_text_def lacks_def)
          moreover have "score = NONE \<longrightarrow> w_sent w' = w_sent w" using j run(1) d(2) w3 by auto
          ultimately show ?thesis
            using run ok sc t d(2) d1 d1s j jr u mc
            by (auto simp: link_def)
        qed
      qed
    qed
  qed
qed

section \<open>Properties\<close>



text \<open>
  C29. A failed verification (the judge never validates, the provider fails, a bound or a
  constraint is violated) leaves statements, evidence links and audit trail exactly as they were.
\<close>
theorem failed_verification_writes_nothing:
  assumes "verify V st pa run_id force w = (Inl e, w')"
  shows "statements (w_db w') = statements (w_db w) \<and> links (w_db w') = links (w_db w) \<and> audit (w_db w') = audit (w_db w)"
  using verify_run [OF assms] by simp

theorem failed_verification_writes_nothing_witness:
  "\<exists>e w'. verify (demo_services (scripted_env (\<lambda>_. reply_text []) (\<lambda>_. None))) demo_statement demo_passage 2 False
      extracted_world = (Inl e, w') \<and> links (w_db w') = []"
proof -
  let ?r = "verify (demo_services (scripted_env (\<lambda>_. reply_text []) (\<lambda>_. None))) demo_statement demo_passage 2 False extracted_world"
  have "\<not> is_ok (fst ?r)" by code_simp
  then obtain e where e: "fst ?r = Inl e" by (cases "fst ?r") auto
  have "links (w_db extracted_world) = []" by (simp add: extracted_world_def world_of_def)
  with failed_verification_writes_nothing [OF run_result [OF e]] run_result [OF e] show ?thesis by metis
qed

text \<open>
  The verdict label is ignored: a judge that answers supported with the label unsupported
  still verifies the statement.
\<close>
theorem verdict_label_ignored:
  "verdict_bounds \<lparr>vd_supported = True, vd_verdict = ''unsupported'', vd_reason = ''r'', vd_confidence = None\<rparr> \<and>
   (\<exists>o1 w'. verify (demo_services obliging_env) demo_statement demo_passage 2 False extracted_world = (Inr o1, w') \<and>
      vo_decision o1 = VERIFIED)"
proof -
  let ?r = "verify (demo_services obliging_env) demo_statement demo_passage 2 False extracted_world"
  have "(case fst ?r of Inr x \<Rightarrow> vo_decision x = VERIFIED | _ \<Rightarrow> False)" by code_simp
  then have "\<exists>o1 w'. ?r = (Inr o1, w') \<and> vo_decision o1 = VERIFIED" by (rule ok_result)
  moreover have "verdict_bounds \<lparr>vd_supported = True, vd_verdict = ''unsupported'', vd_reason = ''r'', vd_confidence = None\<rparr>"
    by (simp add: verdict_bounds_def bounded_def unit_interval_def)
  ultimately show ?thesis by (rule conjI [rotated])
qed

end
