(* ===== verification/Detector.thy ===== *)
theory Detector
  imports Verifier
begin

text \<open>
  \<open>app/services/contradiction_detector.py\<close>: candidate pairs among verified statements, the
  flag judge, the confirmation by negation signal or by a second judge, and the row persisted with
  its audit entry, one transaction per confirmed pair.
\<close>

section \<open>Candidate pairs\<close>

definition max_contradiction_pairs :: nat where "max_contradiction_pairs = 10"
definition contradiction_delay_seconds :: int where "contradiction_delay_seconds = 5"

fun all_pairs :: "'a list \<Rightarrow> ('a \<times> 'a) list" where
  \<comment> \<open>the two nested loops over an index and the later elements\<close>
  "all_pairs [] = []"
| "all_pairs (a # xs) = map (Pair a) xs @ all_pairs xs"

definition is_candidate :: "statement \<times> statement \<Rightarrow> bool" where
  "is_candidate p = (case p of (a, b) \<Rightarrow>
     let a_text = redact_secrets (s_text a); b_text = redact_secrets (s_text b)
     in candidate_overlap_threshold \<le> jaccard_overlap (tokenize a_text) (tokenize b_text) \<or>
        has_negation_markers a_text \<or> has_negation_markers b_text)"

definition candidate_pairs :: "statement list \<Rightarrow> (statement \<times> statement) list" where
  "candidate_pairs ss =
     filter is_candidate (all_pairs (sort_key s_id (filter (\<lambda>s. s_status s = VERIFIED) ss)))"

lemma all_pairs_mem: "(a, b) \<in> set (all_pairs xs) \<Longrightarrow> \<exists>us vs ws. xs = us @ a # vs @ b # ws"
proof (induction xs)
  case (Cons x xs)
  show ?case
  proof (cases "a = x \<and> b \<in> set xs")
    case True
    then obtain vs ws where "xs = vs @ b # ws" by (meson split_list)
    with True have "x # xs = [] @ a # vs @ b # ws" by simp
    then show ?thesis by blast
  next
    case False
    with Cons obtain us vs ws where "xs = us @ a # vs @ b # ws" by auto
    then have "x # xs = (x # us) @ a # vs @ b # ws" by simp
    then show ?thesis by blast
  qed
qed simp

lemma candidate_pairs_mem:
  assumes "(a, b) \<in> set (candidate_pairs ss)"
  shows "{a, b} \<subseteq> set ss \<and> s_status a = VERIFIED \<and> s_status b = VERIFIED \<and> is_candidate (a, b) \<and> s_id a \<le> s_id b"
proof -
  let ?xs = "sort_key s_id (filter (\<lambda>s. s_status s = VERIFIED) ss)"
  from assms have ab: "(a, b) \<in> set (all_pairs ?xs)" "is_candidate (a, b)"
    by (simp_all add: candidate_pairs_def)
  from all_pairs_mem [OF ab(1)] obtain us vs ws where xs: "?xs = us @ a # vs @ b # ws" by blast
  then have "a \<in> set ?xs" "b \<in> set ?xs" by simp_all
  moreover have "sorted (map s_id (us @ a # vs @ b # ws))" unfolding xs [symmetric] by simp
  ultimately show ?thesis using ab(2) by (auto simp: sorted_append)
qed

section \<open>Judging a pair\<close>

definition build_flag_prompt :: "services \<Rightarrow> string \<Rightarrow> string \<Rightarrow> string \<times> string" where
  "build_flag_prompt V a_text b_text = (in_flag (sv_instructions V),
     lines_of [''<statement_a_data>'', a_text, ''</statement_a_data>'', '''',
       ''<statement_b_data>'', b_text, ''</statement_b_data>''])"

definition build_confirm_prompt :: "services \<Rightarrow> string \<Rightarrow> string \<Rightarrow> string \<times> string" where
  "build_confirm_prompt V a_text b_text = (in_confirm (sv_instructions V),
     lines_of [''<statement_a_data>'', a_text, ''</statement_a_data>'', '''',
       ''<statement_b_data>'', b_text, ''</statement_b_data>''])"

definition negation_confirm_reason :: string where
  "negation_confirm_reason =
     ''deterministic negation signal: the statements share the same core content '' @
     ''(min-containment at or above the confirm threshold) and exactly one side '' @
     ''carries negation markers; an affirmative and a negated version of the same '' @
     ''claim cannot both be true''"

definition confirmed_stmt :: "statement \<Rightarrow> statement \<Rightarrow> contradiction \<Rightarrow> bool" where
  "confirmed_stmt a b c \<longleftrightarrow> c_a c = s_id a \<and> c_b c = s_id b \<and> c_status c = CONFIRMED"

definition confirmed_exists :: "statement \<Rightarrow> statement \<Rightarrow> db \<Rightarrow> bool" where
  "confirmed_exists a b d \<longleftrightarrow>
     list_ex (confirmed_stmt a b) (contradictions d) \<or> list_ex (confirmed_stmt b a) (contradictions d)"

definition confirm :: "services \<Rightarrow> string \<Rightarrow> string \<Rightarrow> uuid \<Rightarrow> (string \<times> string \<times> rat option) option prog" where
  \<comment> \<open>method, reason and confidence of the confirmation; \<open>None\<close> when rejected\<close>
  "confirm V a_text b_text run_id =
     (if negation_signal a_text b_text
      then ret (Some (''confirm:negation_signal'', negation_confirm_reason, None))
      else
        let (system, data) = build_confirm_prompt V a_text b_text
        in and_then (ask V (confirm_model V) ''strong'' system data run_id) (\<lambda>(v, _).
           ret (if cv_contradictory v then Some (''confirm:judge'', cv_reason v, cv_confidence v) else None)))"

definition contradiction_evidence ::
    "flag_verdict \<Rightarrow> string \<times> string \<times> rat option \<Rightarrow> rat \<Rightarrow> bool \<Rightarrow> json" where
  "contradiction_evidence flag c ratio signal = (case c of (meth, reason, confidence) \<Rightarrow>
     JObj [(''flag_reason'', JStr (fl_reason flag)), (''flag_confidence'', jopt JFloat (fl_confidence flag)),
       (''confirm_reason'', JStr reason), (''confirm_confidence'', jopt JFloat confidence),
       (''overlap_ratio'', JFloat ratio), (''negation_signal'', JBool signal), (''method'', JStr meth)])"

definition contradiction_audit :: "uuid \<Rightarrow> uuid \<Rightarrow> string \<Rightarrow> json \<Rightarrow> audit_args" where
  "contradiction_audit run_id cid reason evidence = \<lparr>au_run = Some run_id, au_entity_type = ''contradiction'',
     au_entity_id = Some (str_uuid cid), au_action = ''contradiction'', au_actor = Some ''detector'',
     au_decision = Some ''confirmed'', au_reason = Some (redact_secrets reason), au_evidence = Some evidence\<rparr>"

definition save_contradiction :: "contradiction \<Rightarrow> string \<Rightarrow> json \<Rightarrow> contradiction prog" where
  "save_contradiction row reason evidence =
     and_then (audit_append (contradiction_audit (c_run row) (c_id row) reason evidence)) (\<lambda>entry.
     and_then (tx [AddContradiction row, AddAudit entry]) (\<lambda>_. ret row))"

definition record_contradiction :: "uuid \<Rightarrow> statement \<Rightarrow> statement \<Rightarrow> string \<Rightarrow> json \<Rightarrow> contradiction prog" where
  "record_contradiction run_id a b reason evidence =
     and_then uuid4 (\<lambda>i.
     and_then (reads w_now) (\<lambda>t.
     save_contradiction \<lparr>c_id = i, c_run = run_id, c_a = s_id a, c_b = s_id b, c_status = CONFIRMED,
       c_evidence = Some (redact_json evidence), c_confirmed_at = Some t, c_created = t\<rparr> reason evidence))"

definition detect_pair :: "services \<Rightarrow> uuid \<Rightarrow> statement \<times> statement \<Rightarrow> contradiction option prog" where
  "detect_pair V run_id p = (case p of (a, b) \<Rightarrow>
     let a_text = redact_secrets (s_text a); b_text = redact_secrets (s_text b)
     in and_then (fetch_db (confirmed_exists a b)) (\<lambda>known.
        if known then ret None
        else
          let (system, data) = build_flag_prompt V a_text b_text
          in and_then (ask V (flag_model V) ''strong'' system data run_id) (\<lambda>(flag, _).
             if \<not> (fl_flag flag = ''flag'' \<and> fl_contradictory flag) then ret None
             else
               and_then (confirm V a_text b_text run_id) (\<lambda>c.
               case c of
                 None \<Rightarrow> ret None
               | Some (meth, reason, confidence) \<Rightarrow>
                   and_then (record_contradiction run_id a b reason
                     (contradiction_evidence flag (meth, reason, confidence)
                        (jaccard_overlap (tokenize a_text) (tokenize b_text)) (negation_signal a_text b_text)))
                   (\<lambda>row. ret (Some row))))))"

fun detect_pairs :: "services \<Rightarrow> uuid \<Rightarrow> bool \<Rightarrow> (statement \<times> statement) list \<Rightarrow> contradiction list prog" where
  \<comment> \<open>the loop; the flag says whether it is at the first pair\<close>
  "detect_pairs V run_id first [] = ret []"
| "detect_pairs V run_id first (p # ps) =
     and_then (if first then ret () else sleep (seconds contradiction_delay_seconds)) (\<lambda>_.
     and_then (detect_pair V run_id p) (\<lambda>c.
     and_then (detect_pairs V run_id False ps) (\<lambda>rows.
     ret (case c of None \<Rightarrow> rows | Some row \<Rightarrow> row # rows))))"

definition detect :: "services \<Rightarrow> statement list \<Rightarrow> uuid \<Rightarrow> contradiction list prog" where
  "detect V ss run_id =
     (let verified = filter (\<lambda>s. s_status s = VERIFIED) ss
      in detect_pairs V run_id True (take max_contradiction_pairs (candidate_pairs verified)))"

text \<open>Programs are evaluated only when they meet a world.\<close>

lemmas detector_code [code] =
  confirm_def [THEN fun_cong] save_contradiction_def [THEN fun_cong]
  record_contradiction_def [THEN fun_cong] detect_pair_def [THEN fun_cong] detect_def [THEN fun_cong]
  detect_pairs.simps [THEN fun_cong]

section \<open>What a pair changes\<close>

context db_relation
begin

lemma confirm_keeps [keeps_rules]: "keeps Q (confirm V a b i)"
  unfolding confirm_def Let_def by (intro keeps_rules)

lemma save_contradiction_keeps [keeps_rules]: "keeps Q (save_contradiction c r e)"
  unfolding save_contradiction_def by (intro keeps_rules)

lemma record_contradiction_keeps [keeps_rules]: "keeps Q (record_contradiction i a b r e)"
  unfolding record_contradiction_def by (intro keeps_rules)

lemma detect_pair_keeps [keeps_rules]: "keeps Q (detect_pair V i p)"
  unfolding detect_pair_def Let_def by (intro keeps_rules)

lemma detect_pairs_keeps [keeps_rules]: "keeps Q (detect_pairs V i b ps)"
proof (induction ps arbitrary: b)
  case Nil
  show ?case unfolding detect_pairs.simps by (rule keeps_rules)
next
  case (Cons p ps)
  show ?case unfolding detect_pairs.simps by (intro keeps_rules Cons)
qed

lemma detect_keeps [keeps_rules]: "keeps Q (detect V ss i)"
  unfolding detect_def Let_def by (rule keeps_rules)

end

lemma confirm_frame:
  assumes "confirm V a b i w = (r, w')"
  shows "core_same (w_db w) (w_db w')"
proof (cases "negation_signal a b")
  case True
  with assms show ?thesis by (auto simp: confirm_def core.Q_refl)
next
  case False
  obtain sys data where b: "build_confirm_prompt V a b = (sys, data)" by fastforce
  obtain q w1 where q: "ask V (confirm_model V) ''strong'' sys data i w = (q, w1)" by fastforce
  from ask_frame [OF q [unfolded confirm_model_def]] have "core_same (w_db w) (w_db w1)" by blast
  with assms False b q show ?thesis by (cases q) (auto simp: confirm_def and_then_def)
qed

definition contradiction_written :: "uuid \<Rightarrow> statement \<times> statement \<Rightarrow> contradiction \<Rightarrow> audit_row \<Rightarrow> bool" where
  \<comment> \<open>the row and the audit entry of a confirmed pair\<close>
  "contradiction_written run_id p c row \<longleftrightarrow> c_run c = run_id \<and> c_a c = s_id (fst p) \<and> c_b c = s_id (snd p) \<and>
     c_status c = CONFIRMED \<and> (\<forall>j \<in> set_option (c_evidence c). json_secret_free j) \<and>
     a_run row = run_id \<and> row_secret_free row \<and> a_entity_id row = Some (redact_secrets (str_uuid (c_id c)))"

lemma record_contradiction_run:
  assumes "record_contradiction run_id a b reason evidence w = (r, w')"
  shows "case r of
      Inl e \<Rightarrow> w_db w' = w_db w
    | Inr c \<Rightarrow> \<exists>row. commit [AddContradiction c, AddAudit row] (w_db w) = Inr (w_db w') \<and>
        contradiction_written run_id (a, b) c row"
proof -
  define c where "c = \<lparr>c_id = w_next w, c_run = run_id, c_a = s_id a, c_b = s_id b, c_status = CONFIRMED,
    c_evidence = Some (redact_json evidence), c_confirmed_at = Some (w_now w), c_created = w_now w\<rparr>"
  let ?args = "contradiction_audit run_id (w_next w) reason evidence"
  let ?w1 = "w\<lparr>w_next := Suc (w_next w)\<rparr>"
  obtain q w2 where q: "audit_append ?args ?w1 = (q, w2)" by fastforce
  note ap = audit_append_run [OF q]
  show ?thesis
  proof (cases q)
    case (Inl e)
    with assms q ap show ?thesis by (auto simp: record_contradiction_def save_contradiction_def and_then_def)
  next
    case (Inr row)
    with ap have row: "row = audit_row_of (w_next ?w1) (w_now ?w1) run_id ?args" "w_db w2 = w_db w"
      by (auto dest!: audit_validate_run simp: contradiction_audit_def)
    have ok: "contradiction_written run_id (a, b) c row"
      unfolding row(1) by (simp add: contradiction_written_def c_def audit_row_secret_free redact_json_free)
        (simp add: audit_row_of_def contradiction_audit_def)
    from assms q Inr row(2) ok show ?thesis
      by (auto simp: record_contradiction_def save_contradiction_def and_then_def tx_def c_def split: sum.splits)
  qed
qed

lemma detect_pair_run:
  assumes "detect_pair V run_id (a, b) w = (r, w')"
  shows "case r of
      Inr (Some c) \<Rightarrow> \<not> confirmed_exists a b (w_db w) \<and>
        (\<exists>d row. core_same (w_db w) d \<and> commit [AddContradiction c, AddAudit row] d = Inr (w_db w') \<and>
           contradiction_written run_id (a, b) c row)
    | _ \<Rightarrow> core_same (w_db w) (w_db w')"
proof (cases "confirmed_exists a b (w_db w)")
  case True
  with assms show ?thesis by (auto simp: detect_pair_def Let_def and_then_def core.Q_refl)
next
  case False
  let ?a = "redact_secrets (s_text a)" and ?b = "redact_secrets (s_text b)"
  obtain sys data where p: "build_flag_prompt V ?a ?b = (sys, data)" by fastforce
  obtain q w1 where q: "ask V (flag_model V) ''strong'' sys data run_id w = (q, w1)" by fastforce
  from ask_frame [OF q [unfolded flag_model_def]] have s1: "core_same (w_db w) (w_db w1)" by blast
  show ?thesis
  proof (cases "\<exists>flag k. q = Inr (flag, k) \<and> fl_flag flag = ''flag'' \<and> fl_contradictory flag")
    case no: False
    then have "w' = w1" "\<forall>c. r \<noteq> Inr (Some c)"
      using assms False p q by (cases q; auto simp: detect_pair_def Let_def and_then_def split: if_splits)+
    with s1 show ?thesis by (cases r) (auto split: option.splits)
  next
    case True
    then obtain flag k where f: "q = Inr (flag, k)" "fl_flag flag = ''flag''" "fl_contradictory flag" by blast
    obtain c w2 where c: "confirm V ?a ?b run_id w1 = (c, w2)" by fastforce
    have s2: "core_same (w_db w) (w_db w2)" using core.Q_trans [OF s1 confirm_frame [OF c]] .
    show ?thesis
    proof (cases "\<exists>m rs cf. c = Inr (Some (m, rs, cf))")
      case no: False
      then have "w' = w2 \<and> (\<forall>x. r \<noteq> Inr (Some x))"
        using assms False p q f c by (cases c) (auto simp: detect_pair_def Let_def and_then_def split: option.splits)
      with s2 show ?thesis by (cases r) (auto split: option.splits)
    next
      case True
      then obtain m rs cf where m: "c = Inr (Some (m, rs, cf))" by blast
      let ?ev = "contradiction_evidence flag (m, rs, cf) (jaccard_overlap (tokenize ?a) (tokenize ?b)) (negation_signal ?a ?b)"
      obtain x w3 where x: "record_contradiction run_id a b rs ?ev w2 = (x, w3)" by fastforce
      note rec = record_contradiction_run [OF x]
      have "w' = w3 \<and> (case x of Inl e \<Rightarrow> r = Inl e | Inr row \<Rightarrow> r = Inr (Some row))"
        using assms False p q f c m x
        by (cases x) (auto simp: detect_pair_def Let_def and_then_def)
      with rec s2 False show ?thesis by (cases x) auto
    qed
  qed
qed

section \<open>What detection changes\<close>

definition confirmed_pairs :: "db \<Rightarrow> uuid set list" where
  "confirmed_pairs d = map (\<lambda>c. {c_a c, c_b c}) (filter (\<lambda>c. c_status c = CONFIRMED) (contradictions d))"

lemma confirmed_exists_iff: "confirmed_exists a b d \<longleftrightarrow> {s_id a, s_id b} \<in> set (confirmed_pairs d)"
  by (auto simp: confirmed_exists_def confirmed_pairs_def confirmed_stmt_def list_ex_iff doubleton_eq_iff image_iff)

definition detected :: "uuid \<Rightarrow> (statement \<times> statement) set \<Rightarrow> contradiction list \<Rightarrow> db \<Rightarrow> db \<Rightarrow> bool" where
  \<comment> \<open>a database grew by confirmed contradictions of some of the pairs, with one audit row each\<close>
  "detected run_id P cs d d' \<longleftrightarrow> contradictions d' = contradictions d @ cs \<and>
     statements d' = statements d \<and> links d' = links d \<and>
     (\<exists>rows. audit d' = audit d @ rows \<and>
        list_all2 (\<lambda>c row. \<exists>p \<in> P. contradiction_written run_id p c row) cs rows) \<and>
     (distinct (confirmed_pairs d) \<longrightarrow> distinct (confirmed_pairs d'))"

lemma detected_core: "core_same d d' \<Longrightarrow> detected i P [] d d'"
  using core_same_tables [of d d'] by (simp add: detected_def confirmed_pairs_def)

lemma detected_trans: "detected i P cs d d' \<Longrightarrow> detected i P ds d' d'' \<Longrightarrow> detected i P (cs @ ds) d d''"
  unfolding detected_def by (auto intro!: list_all2_appendI)

lemma detected_mono:
  assumes "detected i P cs d d'" and "P \<subseteq> P'"
  shows "detected i P' cs d d'"
proof -
  from assms(1) obtain rows where rows: "audit d' = audit d @ rows"
      "list_all2 (\<lambda>c row. \<exists>p \<in> P. contradiction_written i p c row) cs rows"
    unfolding detected_def by blast
  from rows(2) have "list_all2 (\<lambda>c row. \<exists>p \<in> P'. contradiction_written i p c row) cs rows"
    by (rule list_all2_mono) (use assms(2) in blast)
  with assms(1) rows(1) show ?thesis unfolding detected_def by blast
qed

lemma detect_pair_detected:
  assumes "detect_pair V i p w = (r, w')"
  shows "detected i {p} (case r of Inr (Some c) \<Rightarrow> [c] | _ \<Rightarrow> []) (w_db w) (w_db w')"
proof -
  obtain a b where p: "p = (a, b)" by fastforce
  note run = detect_pair_run [OF assms [unfolded p]]
  show ?thesis
  proof (cases "\<exists>c. r = Inr (Some c)")
    case False
    with run have "core_same (w_db w) (w_db w')" by (auto split: sum.splits option.splits)
    with False show ?thesis by (auto split: sum.splits option.splits intro: detected_core)
  next
    case True
    then obtain c where c: "r = Inr (Some c)" by blast
    with run obtain d row where d: "\<not> confirmed_exists a b (w_db w)" "core_same (w_db w) d"
        "commit [AddContradiction c, AddAudit row] d = Inr (w_db w')" "contradiction_written i (a, b) c row" by auto
    note same = core_same_tables [OF d(2)]
    have "w_db w' = d\<lparr>contradictions := contradictions d @ [c], audit := audit d @ [row]\<rparr>"
      using d(3) by (simp add: commit_ok)
    then have w': "contradictions (w_db w') = contradictions d @ [c]" "audit (w_db w') = audit d @ [row]"
        "statements (w_db w') = statements d" "links (w_db w') = links d" by simp_all
    have "confirmed_pairs (w_db w') = confirmed_pairs (w_db w) @ [{s_id a, s_id b}]"
      using w' same d(4) by (simp add: confirmed_pairs_def contradiction_written_def)
    with d(1) have "distinct (confirmed_pairs (w_db w)) \<longrightarrow> distinct (confirmed_pairs (w_db w'))"
      by (simp add: confirmed_exists_iff)
    with w' same d(4) c p show ?thesis by (auto simp: detected_def)
  qed
qed

lemma detect_pairs_detected:
  assumes "detect_pairs V i b ps w = (r, w')"
  shows "\<exists>cs. detected i (set ps) cs (w_db w) (w_db w') \<and> length cs \<le> length ps \<and> (\<forall>rows. r = Inr rows \<longrightarrow> rows = cs)"
  using assms
proof (induction ps arbitrary: b w r w')
  case Nil
  then show ?case by (auto intro: detected_core [OF core.Q_refl])
next
  case (Cons p ps)
  obtain w0 where w0: "(if b then ret () else sleep (seconds contradiction_delay_seconds)) w = (Inr (), w0)" "w_db w0 = w_db w"
    by (cases b) auto
  obtain q w1 where q: "detect_pair V i p w0 = (q, w1)" by fastforce
  note one = detect_pair_detected [OF q, unfolded w0(2)]
  show ?case
  proof (cases q)
    case (Inl e)
    with Cons.prems w0(1) q have "r = Inl e" "w' = w1" by (auto simp: and_then_def)
    with one Inl show ?thesis by (auto intro!: exI [of _ "[]"] intro: detected_mono)
  next
    case (Inr c)
    obtain x w2 where x: "detect_pairs V i False ps w1 = (x, w2)" by fastforce
    from Cons.IH [OF x] obtain cs where cs: "detected i (set ps) cs (w_db w1) (w_db w2)" "length cs \<le> length ps"
        "\<And>rows. x = Inr rows \<Longrightarrow> rows = cs" by blast
    let ?c = "case c of None \<Rightarrow> [] | Some d \<Rightarrow> [d]"
    have "detected i (set (p # ps)) (?c @ cs) (w_db w) (w_db w2)"
    proof (rule detected_trans)
      show "detected i (set (p # ps)) ?c (w_db w) (w_db w1)"
        using one unfolding Inr by (simp only: sum.case) (erule detected_mono, simp)
      show "detected i (set (p # ps)) cs (w_db w1) (w_db w2)"
        using cs(1) by (rule detected_mono) auto
    qed
    moreover have "w' = w2" "(\<exists>e. x = Inl e \<and> r = Inl e) \<or> r = Inr (?c @ cs)"
      using Cons.prems w0(1) q Inr x cs(3) by (cases x; auto simp: and_then_def split: option.splits)+
    moreover have "length (?c @ cs) \<le> length (p # ps)" using cs(2) by (cases c) auto
    ultimately show ?thesis by (intro exI [of _ "?c @ cs"]) auto
  qed
qed

section \<open>Properties\<close>


definition similar_statements :: "statement list" where
  \<comment> \<open>two claims that share a word\<close>
  "similar_statements = [
     \<lparr>s_id = 5, s_passage = 4, s_run = 2, s_text = ''x'', s_status = VERIFIED, s_confidence = None\<rparr>,
     \<lparr>s_id = 6, s_passage = 4, s_run = 2, s_text = ''x y'', s_status = VERIFIED, s_confidence = None\<rparr>]"

definition verified_world :: world where
  "verified_world = extracted_world\<lparr>w_db := (w_db extracted_world)\<lparr>statements := similar_statements\<rparr>\<rparr>"


text \<open>
  No pair of statements is confirmed twice: if every unordered pair has at most one confirmed
  contradiction, this is so after every detection, finished or failed, whichever statements it is
  given.
\<close>
theorem no_pair_confirmed_twice:
  assumes "detect V ss run_id w = (r, w')" and "distinct (confirmed_pairs (w_db w))"
  shows "distinct (confirmed_pairs (w_db w'))"
  using assms(1) detect_pairs_detected [of V run_id True _ w r w'] assms(2)
  unfolding detect_def Let_def detected_def by blast

theorem no_pair_confirmed_twice_witness:
  "distinct (confirmed_pairs (w_db (snd (detect (demo_services obliging_env) similar_statements 2 verified_world))))"
proof -
  let ?r = "detect (demo_services obliging_env) similar_statements 2 verified_world"
  have "?r = (fst ?r, snd ?r)" by simp
  moreover have "distinct (confirmed_pairs (w_db verified_world))"
    by (simp add: confirmed_pairs_def verified_world_def extracted_world_def world_of_def one_run_db_def empty_db_def)
  ultimately show ?thesis by (rule no_pair_confirmed_twice)
qed

end
