(* ===== verification/Report.thy ===== *)
theory Report
  imports Detector
begin

text \<open>
  \<open>app/services/report_generator.py\<close> and \<open>app/services/report_renderer.py\<close>: the
  deterministic checks of a conclusion, the synthesis from verified statements, the rows of one
  transaction, and the two renderings of the report.
\<close>

section \<open>The report\<close>

record report_support =
  rs_statement :: string
  rs_passage :: string
  rs_score :: string

record report_evidence =
  re_id :: string
  re_text :: string
  re_domain :: string

record report_conclusion =
  rc_id :: string
  rc_text :: string
  rc_confidence :: "rat option"
  rc_review :: bool
  rc_one_sided :: bool
  rc_warnings :: "string list"
  rc_support :: "report_support list"
  rc_evidence :: "report_evidence list"

record report =
  rep_run :: string
  rep_topic :: string
  rep_generated :: time
  rep_conclusions :: "report_conclusion list"

section \<open>Deterministic checks\<close>

definition high_stakes_keywords :: "string list" where
  "high_stakes_keywords =
     [''clinical trial'', ''dosage'', ''patient safety'', ''fda'', ''diagnosis'', ''prescription'',
      ''drug interaction'', ''lawsuit'', ''litigation'', ''regulatory'', ''compliance'', ''sanction'',
      ''liability'', ''consent order'', ''securities'', ''insider trading'', ''merger'', ''bankruptcy'',
      ''fraud'', ''audit'', ''money laundering'', ''recall'', ''workplace safety'', ''food safety'',
      ''aviation safety'', ''nuclear'', ''explosive'', ''privacy'', ''data breach'', ''hipaa'', ''gdpr'',
      ''personally identifiable information'', ''military'', ''weapon'', ''defense contract'']"

definition is_high_stakes :: "string \<Rightarrow> bool" where
  "is_high_stakes t \<longleftrightarrow> (\<exists>keyword \<in> set high_stakes_keywords. py_in keyword (py_casefold t))"

definition one_sidedness_check :: "string list \<Rightarrow> bool \<Rightarrow> bool" where
  \<comment> \<open>the conclusion text is not consulted\<close>
  "one_sidedness_check source_domains llm_one_sided \<longleftrightarrow>
     llm_one_sided \<or> length (remdups (filter (\<lambda>d. \<not> blank d) source_domains)) < 2"

definition build_synthesis_prompt ::
    "services \<Rightarrow> (string \<times> string) list \<Rightarrow> (string \<times> string \<times> string) list \<Rightarrow> string \<times> string" where
  "build_synthesis_prompt V verified confirmed = (in_synthesis (sv_instructions V),
     lines_of ([''<verified_statements>''] @
       concat (map (\<lambda>(i, t). [''<statement id='' @ CHR 0x22 # i @ [CHR 0x22, CHR ''>''], t, ''</statement>'']) verified) @
       [''</verified_statements>'', '''', ''<confirmed_contradictions>''] @
       concat (map (\<lambda>(a, b, summary).
         [''<contradiction statement_a='' @ CHR 0x22 # a @ CHR 0x22 # '' statement_b='' @ CHR 0x22 # b @ [CHR 0x22, CHR ''>''],
          summary, ''</contradiction>'']) confirmed) @
       [''</confirmed_contradictions>'']))"

definition source_domain :: "env \<Rightarrow> string \<Rightarrow> string result" where
  "source_domain E uri = result_bind (url_hostname (brackets_ok E) uri) (\<lambda>hostname.
     let host = (if hostname \<noteq> [] then hostname else url_netloc uri)
     in Inr (if host \<noteq> [] then host else uri))"

definition py_str :: "env \<Rightarrow> json \<Rightarrow> string" where
  "py_str E j = (case j of JStr s \<Rightarrow> s | _ \<Rightarrow> show_json E j)"

definition contradiction_summary :: "env \<Rightarrow> contradiction \<Rightarrow> string result" where
  "contradiction_summary E row =
     (let evidence = (if jtruthy (c_evidence row) then the (c_evidence row) else JObj [])
      in if \<not> is_object evidence then Inl (OtherError ''the evidence has no attribute get'')
         else
           let summary = (if jtruthy (jget ''confirm_reason'' evidence) then jget ''confirm_reason'' evidence
                          else jget ''flag_reason'' evidence)
           in Inr (if jtruthy summary then redact_secrets (py_str E (the summary)) else ''confirmed contradiction''))"

fun map_results :: "('a \<Rightarrow> 'b result) \<Rightarrow> 'a list \<Rightarrow> 'b list result" where
  \<comment> \<open>a comprehension whose element expression may raise\<close>
  "map_results f [] = Inr []"
| "map_results f (x # xs) = result_bind (f x) (\<lambda>y. result_bind (map_results f xs) (\<lambda>ys. Inr (y # ys)))"

section \<open>Resolution\<close>

definition by_id :: "statement list \<Rightarrow> string \<Rightarrow> statement option" where
  \<comment> \<open>the dictionary from printed identifiers: of two equal keys the later value stays\<close>
  "by_id verified sid = find (\<lambda>s. str_uuid (s_id s) = sid) (rev verified)"

definition later_link :: "evidence_link option \<Rightarrow> evidence_link \<Rightarrow> evidence_link option" where
  "later_link current l = (case current of None \<Rightarrow> Some l | Some c \<Rightarrow> if l_created c \<le> l_created l then Some l else Some c)"

definition latest_verify_score :: "db \<Rightarrow> uuid \<Rightarrow> evidence_score option" where
  "latest_verify_score d sid =
     map_option l_score (foldl later_link None (filter (\<lambda>l. l_statement l = sid \<and> l_method l = ''verify'') (links d)))"

definition statement_domain :: "env \<Rightarrow> db \<Rightarrow> statement \<Rightarrow> string result" where
  "statement_domain E d s =
     (case find (\<lambda>p. p_id p = s_passage s) (passages d) of
        None \<Rightarrow> Inr []
      | Some p \<Rightarrow> (case find (\<lambda>x. src_id x = p_source p) (sources d) of
          None \<Rightarrow> Inr []
        | Some x \<Rightarrow> source_domain E (src_uri x)))"

definition source_domains :: "env \<Rightarrow> db \<Rightarrow> statement list \<Rightarrow> (string \<times> string) list result" where
  "source_domains E d verified =
     map_results (\<lambda>s. result_bind (statement_domain E d s) (\<lambda>name. Inr (str_uuid (s_id s), name))) verified"

definition domain_of :: "(string \<times> string) list \<Rightarrow> string \<Rightarrow> string" where
  "domain_of domains sid = (case map_of domains sid of None \<Rightarrow> [] | Some name \<Rightarrow> name)"

section \<open>Generation\<close>

definition cited_ids :: "statement list \<Rightarrow> conclusion_draft \<Rightarrow> string list" where
  "cited_ids verified draft = filter (\<lambda>sid. by_id verified sid \<noteq> None) (cd_statement_ids draft)"

definition support_entry :: "statement list \<Rightarrow> db \<Rightarrow> string \<Rightarrow> report_support" where
  "support_entry verified d sid = (let s = the (by_id verified sid) in
     \<lparr>rs_statement = sid, rs_passage = str_uuid (s_passage s),
      rs_score = (case latest_verify_score d (s_id s) of None \<Rightarrow> score_value NONE | Some x \<Rightarrow> score_value x)\<rparr>)"

definition evidence_entry :: "statement list \<Rightarrow> (string \<times> string) list \<Rightarrow> string \<Rightarrow> report_evidence" where
  "evidence_entry verified domains sid =
     \<lparr>re_id = sid, re_text = redact_secrets (s_text (the (by_id verified sid))), re_domain = domain_of domains sid\<rparr>"

definition conclude_entry :: "statement list \<Rightarrow> (string \<times> string \<times> string) list \<Rightarrow> db \<Rightarrow> (string \<times> string) list \<Rightarrow>
    conclusion_draft \<Rightarrow> uuid \<Rightarrow> report_conclusion" where
  "conclude_entry verified summaries d domains draft i =
     (let cited = cited_ids verified draft; text = redact_secrets (cd_text draft)
      in \<lparr>rc_id = str_uuid i, rc_text = text, rc_confidence = cd_confidence draft,
          rc_review = (is_high_stakes text \<or> cd_high_stakes draft),
          rc_one_sided = one_sidedness_check (map (domain_of domains) cited) (cd_one_sided draft),
          rc_warnings = map (\<lambda>(a, b, summary). summary) (filter (\<lambda>(a, b, summary). a \<in> set cited \<or> b \<in> set cited) summaries),
          rc_support = map (support_entry verified d) cited,
          rc_evidence = map (evidence_entry verified domains) cited\<rparr>)"

definition conclude_audit :: "uuid \<Rightarrow> uuid \<Rightarrow> string list \<Rightarrow> report_conclusion \<Rightarrow> audit_args" where
  "conclude_audit run_id i cited c = \<lparr>au_run = Some run_id, au_entity_type = ''conclusion'',
     au_entity_id = Some (str_uuid i), au_action = ''conclude'', au_actor = Some ''report_generator'',
     au_decision = Some ''concluded'', au_reason = Some (rc_text c),
     au_evidence = Some (JObj [(''statement_ids'', JList (map JStr cited)), (''one_sided'', JBool (rc_one_sided c)),
       (''high_stakes'', JBool (rc_review c))])\<rparr>"

definition conclude_draft :: "statement list \<Rightarrow> (string \<times> string \<times> string) list \<Rightarrow> (string \<times> string) list \<Rightarrow> uuid \<Rightarrow>
    conclusion_draft \<Rightarrow> (report_conclusion \<times> change list) option prog" where
  \<comment> \<open>one round of the loop: the entry of the report and what the session collects\<close>
  "conclude_draft verified summaries domains run_id draft =
     (let cited = cited_ids verified draft
      in if cited = [] then ret None
         else
           and_then (fetch_db (\<lambda>d. d)) (\<lambda>d.
           and_then uuid4 (\<lambda>i.
           and_then (reads w_now) (\<lambda>t.
             let entry = conclude_entry verified summaries d domains draft i;
                 row = \<lparr>k_id = i, k_run = run_id, k_text = rc_text entry, k_confidence = cd_confidence draft,
                   k_review = rc_review entry, k_created = t\<rparr>
             in and_then (audit_append (conclude_audit run_id i cited entry)) (\<lambda>a.
                ret (Some (entry, AddConclusion row #
                  map (\<lambda>sid. AddConclusionEvidence i (s_id (the (by_id verified sid)))) cited @ [AddAudit a])))))))"

definition generate :: "services \<Rightarrow> uuid \<Rightarrow> string \<Rightarrow> statement list \<Rightarrow> contradiction list \<Rightarrow> report prog" where
  "generate V run_id topic verified_statements confirmed_contradictions =
     (let verified = sort_key s_id (filter (\<lambda>s. s_status s = VERIFIED) verified_statements);
          confirmed = filter (\<lambda>c. c_status c = CONFIRMED) confirmed_contradictions
      in if verified = [] then throw (ValueError ''report generation requires at least one verified statement'')
         else
           and_then (lift (map_results (contradiction_summary (sv_env V)) confirmed)) (\<lambda>texts.
             let summaries = map2 (\<lambda>c t. (str_uuid (c_a c), str_uuid (c_b c), t)) confirmed texts;
                 (system, data) = build_synthesis_prompt V (map (\<lambda>s. (str_uuid (s_id s), redact_secrets (s_text s))) verified) summaries
             in and_then (ask V (conclusions_model V) ''strong'' system data run_id) (\<lambda>(drafts, _).
                and_then (fetch_db (\<lambda>d. source_domains (sv_env V) d verified)) (\<lambda>resolved.
                and_then (lift resolved) (\<lambda>domains.
                and_then (each (conclude_draft verified summaries domains run_id) drafts) (\<lambda>parts.
                  let kept = concat (map (\<lambda>x. case x of None \<Rightarrow> [] | Some y \<Rightarrow> [y]) parts)
                  in and_then (tx (concat (map snd kept))) (\<lambda>_.
                     and_then (reads w_now) (\<lambda>t.
                     ret \<lparr>rep_run = str_uuid run_id, rep_topic = redact_secrets topic, rep_generated = t,
                       rep_conclusions = map fst kept\<rparr>))))))))"

section \<open>Rendering\<close>

definition render_conclusion :: "env \<Rightarrow> nat \<Rightarrow> report_conclusion \<Rightarrow> string list" where
  "render_conclusion E index c =
     [''### '' @ str_int (int index) @ ''. '' @ rc_text c, '''',
      (case rc_confidence c of Some x \<Rightarrow> ''- Confidence: '' @ fixed2 E x | None \<Rightarrow> ''- Confidence: unknown'')] @
     (if rc_review c then [''- **HUMAN REVIEW REQUIRED**''] else []) @
     [if rc_one_sided c then ''- One-sidedness: **one-sided**'' else ''- One-sidedness: balanced''] @
     (if rc_warnings c \<noteq> [] then ''- Contradiction warnings:'' # map (\<lambda>t. ''  - '' @ t) (rc_warnings c) else []) @
     (if rc_support c \<noteq> []
      then [''- Support matrix:'', ''  | statement_id | passage_id | support_score |'', ''  |---|---|---|''] @
        map (\<lambda>s. ''  | '' @ rs_statement s @ '' | '' @ rs_passage s @ '' | '' @ rs_score s @ '' |'') (rc_support c)
      else []) @
     (if rc_evidence c \<noteq> []
      then ''- Evidence statements:'' #
        map (\<lambda>e. ''  - `'' @ re_id e @ ''` ('' @ re_domain e @ ''): '' @ re_text e) (rc_evidence c)
      else []) @ ['''']"

definition report_domains :: "report \<Rightarrow> string list" where
  "report_domains r = sort (remdups (filter (\<lambda>d. d \<noteq> [])
     (concat (map (\<lambda>c. map re_domain (rc_evidence c)) (rep_conclusions r)))))"

definition render_markdown :: "env \<Rightarrow> report \<Rightarrow> string" where
  "render_markdown E r = lines_of (
     [''# '' @ rep_topic r, '''', ''- Run ID: '' @ rep_run r, ''- Generated at: '' @ isoformat E (rep_generated r), '''',
      ''## Conclusions'', ''''] @
     concat (map (\<lambda>(i, c). render_conclusion E i c) (enumerate 1 (rep_conclusions r))) @
     [''## References'', ''''] @
     (if report_domains r \<noteq> [] then map (\<lambda>d. ''- '' @ d) (report_domains r) else [''- none'']) @ [''''])"

definition conclusion_json :: "report_conclusion \<Rightarrow> json" where
  "conclusion_json c = JObj [(''id'', JStr (rc_id c)), (''text'', JStr (rc_text c)),
     (''confidence'', jopt JFloat (rc_confidence c)), (''human_review_required'', JBool (rc_review c)),
     (''one_sided'', JBool (rc_one_sided c)), (''contradiction_warnings'', JList (map JStr (rc_warnings c))),
     (''support_matrix'', JList (map (\<lambda>s. JObj [(''statement_id'', JStr (rs_statement s)),
        (''passage_id'', JStr (rs_passage s)), (''support_score'', JStr (rs_score s))]) (rc_support c))),
     (''evidence_statements'', JList (map (\<lambda>e. JObj [(''id'', JStr (re_id e)), (''text'', JStr (re_text e)),
        (''source_domain'', JStr (re_domain e))]) (rc_evidence c)))]"

definition render_json :: "env \<Rightarrow> report \<Rightarrow> json" where
  "render_json E r = JObj [(''run_id'', JStr (rep_run r)), (''topic'', JStr (rep_topic r)),
     (''generated_at'', JStr (model_time E (rep_generated r))),
     (''conclusions'', JList (map conclusion_json (rep_conclusions r)))]"

text \<open>Programs are evaluated only when they meet a world.\<close>

lemmas report_code [code] = conclude_draft_def [THEN fun_cong] generate_def [THEN fun_cong]

section \<open>What generation changes\<close>

context db_relation
begin

lemma conclude_draft_keeps [keeps_rules]: "keeps Q (conclude_draft v s ds i draft)"
  unfolding conclude_draft_def Let_def by (intro keeps_rules)

lemma generate_keeps [keeps_rules]: "keeps Q (generate V i topic ss cs)"
  unfolding generate_def Let_def by (intro keeps_rules)

end

definition balanced :: "report_conclusion \<Rightarrow> bool" where
  \<comment> \<open>two cited statements come from different known domains\<close>
  "balanced c \<longleftrightarrow> (\<exists>e \<in> set (rc_evidence c). \<exists>e' \<in> set (rc_evidence c).
     re_domain e \<noteq> re_domain e' \<and> \<not> blank (re_domain e) \<and> \<not> blank (re_domain e'))"

definition sound_entry :: "report_conclusion \<Rightarrow> bool" where
  "sound_entry c \<longleftrightarrow> secret_free (rc_text c) \<and> (\<forall>e \<in> set (rc_evidence c). secret_free (re_text e)) \<and>
     (is_high_stakes (rc_text c) \<longrightarrow> rc_review c) \<and> (\<not> rc_one_sided c \<longrightarrow> balanced c)"

lemma two_distinct: "2 \<le> length (remdups xs) \<Longrightarrow> \<exists>x \<in> set xs. \<exists>y \<in> set xs. x \<noteq> y"
proof (rule ccontr)
  assume l: "2 \<le> length (remdups xs)" and no: "\<not> (\<exists>x \<in> set xs. \<exists>y \<in> set xs. x \<noteq> y)"
  from no have "card (set xs) \<le> 1" using card_le_Suc0_iff_eq [of "set xs"] by auto
  with l show False by (simp add: length_remdups_card_conv)
qed

lemma conclude_entry_sound: "sound_entry (conclude_entry verified summaries d domains draft i)"
proof -
  let ?c = "conclude_entry verified summaries d domains draft i" and ?cited = "cited_ids verified draft"
  have domains: "map re_domain (rc_evidence ?c) = map (domain_of domains) ?cited"
    by (simp add: conclude_entry_def Let_def evidence_entry_def)
  have "balanced ?c" if "\<not> rc_one_sided ?c"
  proof -
    from that have "2 \<le> length (remdups (filter (\<lambda>d. \<not> blank d) (map re_domain (rc_evidence ?c))))"
      unfolding domains by (simp add: conclude_entry_def Let_def one_sidedness_check_def not_less del: filter_map)
    from two_distinct [OF this] show ?thesis by (fastforce simp: balanced_def)
  qed
  moreover have "secret_free (rc_text ?c)" "is_high_stakes (rc_text ?c) \<longrightarrow> rc_review ?c"
      "\<forall>e \<in> set (rc_evidence ?c). secret_free (re_text e)"
    by (auto simp: conclude_entry_def Let_def evidence_entry_def redact_secret_free)
  ultimately show ?thesis unfolding sound_entry_def by blast
qed

definition conclusion_part :: "statement list \<Rightarrow> uuid \<Rightarrow> report_conclusion \<times> change list \<Rightarrow> bool" where
  \<comment> \<open>an entry of the report with the rows that persist it\<close>
  "conclusion_part verified run_id x \<longleftrightarrow> (\<exists>k a g. let c = fst x; ids = map g (map re_id (rc_evidence c)) in
     snd x = AddConclusion k # map (AddConclusionEvidence (k_id k)) ids @ [AddAudit a] \<and>
     ids \<noteq> [] \<and> set ids \<subseteq> s_id ` set verified \<and> k_run k = run_id \<and> k_text k = rc_text c \<and> k_review k = rc_review c \<and>
     rc_id c = str_uuid (k_id k) \<and> sound_entry c \<and> row_secret_free a \<and> a_run a = run_id)"

lemma find_mem: "find P xs = Some x \<Longrightarrow> x \<in> set xs \<and> P x"
  by (induction xs) (auto split: if_splits)

lemma by_id_mem: "by_id verified sid = Some s \<Longrightarrow> s \<in> set verified \<and> str_uuid (s_id s) = sid"
  unfolding by_id_def by (drule find_mem) simp

lemma conclude_draft_run:
  assumes "conclude_draft verified summaries domains run_id draft w = (r, w')"
  shows "w_db w' = w_db w \<and> (\<forall>y. r = Inr y \<longrightarrow> (case y of None \<Rightarrow> True | Some x \<Rightarrow> conclusion_part verified run_id x))"
proof (cases "cited_ids verified draft = []")
  case True
  with assms show ?thesis by (auto simp: conclude_draft_def)
next
  case False
  let ?cited = "cited_ids verified draft" and ?w1 = "w\<lparr>w_next := Suc (w_next w)\<rparr>"
  define c where "c = conclude_entry verified summaries (w_db w) domains draft (w_next w)"
  define k where "k = \<lparr>k_id = w_next w, k_run = run_id, k_text = rc_text c, k_confidence = cd_confidence draft,
    k_review = rc_review c, k_created = w_now w\<rparr>"
  let ?g = "\<lambda>sid. s_id (the (by_id verified sid))" and ?args = "conclude_audit run_id (w_next w) ?cited c"
  obtain q w2 where q: "audit_append ?args ?w1 = (q, w2)" by fastforce
  note ap = audit_append_run [OF q]
  show ?thesis
  proof (cases q)
    case (Inl e)
    with assms q ap False show ?thesis by (auto simp: conclude_draft_def Let_def and_then_def c_def)
  next
    case (Inr a)
    with ap have a: "a = audit_row_of (w_next ?w1) (w_now ?w1) run_id ?args" "w_db w2 = w_db w"
      by (auto dest!: audit_validate_run simp: conclude_audit_def)
    have run: "w' = w2" "r = Inr (Some (c, AddConclusion k # map (AddConclusionEvidence (k_id k)) (map ?g ?cited) @ [AddAudit a]))"
      using assms q Inr False by (auto simp: conclude_draft_def Let_def and_then_def c_def k_def)
    have ids: "map re_id (rc_evidence c) = ?cited"
      by (simp add: c_def conclude_entry_def Let_def evidence_entry_def comp_def)
    have "?g sid \<in> s_id ` set verified" if "sid \<in> set ?cited" for sid
      using that by_id_mem by (fastforce simp: cited_ids_def)
    then have "set (map ?g ?cited) \<subseteq> s_id ` set verified" by auto
    moreover have "row_secret_free a" "a_run a = run_id"
      unfolding a(1) by (simp_all add: audit_row_secret_free) (simp add: audit_row_of_def)
    moreover have "sound_entry c" "rc_id c = str_uuid (w_next w)"
      unfolding c_def by (rule conclude_entry_sound) (simp add: conclude_entry_def Let_def)
    ultimately have "conclusion_part verified run_id (c, AddConclusion k # map (AddConclusionEvidence (k_id k)) (map ?g ?cited) @ [AddAudit a])"
      unfolding conclusion_part_def Let_def fst_conv snd_conv ids
      using False by (intro exI [of _ k] exI [of _ a] exI [of _ ?g]) (simp add: k_def)
    with run a(2) show ?thesis by simp
  qed
qed

lemma each_run:
  assumes "\<And>x w r w'. f x w = (r, w') \<Longrightarrow> w_db w' = w_db w \<and> (\<forall>y. r = Inr y \<longrightarrow> P y)"
  shows "each f xs w = (r, w') \<Longrightarrow> w_db w' = w_db w \<and> (\<forall>ys. r = Inr ys \<longrightarrow> list_all P ys)"
proof (induction xs arbitrary: w r w')
  case (Cons x xs)
  obtain q w1 where q: "f x w = (q, w1)" by fastforce
  note one = assms [OF q]
  show ?case
  proof (cases q)
    case (Inl e)
    with Cons.prems q one show ?thesis by (auto simp: and_then_def)
  next
    case (Inr y)
    obtain p w2 where p: "each f xs w1 = (p, w2)" by fastforce
    from Cons.IH [OF p] Cons.prems q Inr p one show ?thesis by (cases p) (auto simp: and_then_def)
  qed
qed simp

definition persisted :: "statement list \<Rightarrow> uuid \<Rightarrow> (report_conclusion \<times> change list) list \<Rightarrow>
    conclusion list \<Rightarrow> (uuid \<times> uuid) list \<Rightarrow> audit_row list \<Rightarrow> bool" where
  \<comment> \<open>the rows of all entries together\<close>
  "persisted verified run_id kept ks es as \<longleftrightarrow> map (\<lambda>x. rc_id (fst x)) kept = map (\<lambda>k. str_uuid (k_id k)) ks \<and>
     (\<forall>k \<in> set ks. k_run k = run_id \<and> secret_free (k_text k) \<and> (is_high_stakes (k_text k) \<longrightarrow> k_review k) \<and>
        (\<exists>s \<in> set verified. (k_id k, s_id s) \<in> set es)) \<and>
     (\<forall>e \<in> set es. snd e \<in> s_id ` set verified) \<and>
     length as = length ks \<and> (\<forall>a \<in> set as. row_secret_free a \<and> a_run a = run_id) \<and>
     (distinct es \<longrightarrow> (\<forall>x \<in> set kept. distinct (map re_id (rc_evidence (fst x)))))"

lemma apply_evidence:
  "apply_all apply_change (map (AddConclusionEvidence i) ids) d =
     Inr (d\<lparr>conclusion_evidence := conclusion_evidence d @ map (Pair i) ids\<rparr>)"
  by (induction ids arbitrary: d) simp_all

lemma persist_parts:
  "list_all (conclusion_part verified run_id) kept \<Longrightarrow> \<exists>ks es as.
     apply_all apply_change (concat (map snd kept)) d = Inr (d\<lparr>conclusions := conclusions d @ ks,
       conclusion_evidence := conclusion_evidence d @ es, audit := audit d @ as\<rparr>) \<and>
     persisted verified run_id kept ks es as"
proof (induction kept arbitrary: d)
  case Nil
  show ?case by (intro exI [of _ "[]"]) (simp add: persisted_def)
next
  case (Cons x kept)
  from Cons.prems obtain k a g where part:
    "snd x = AddConclusion k # map (AddConclusionEvidence (k_id k)) (map g (map re_id (rc_evidence (fst x)))) @ [AddAudit a]"
    "rc_evidence (fst x) \<noteq> []" "set (map g (map re_id (rc_evidence (fst x)))) \<subseteq> s_id ` set verified"
    "k_run k = run_id" "k_text k = rc_text (fst x)" "k_review k = rc_review (fst x)" "rc_id (fst x) = str_uuid (k_id k)"
    "sound_entry (fst x)" "row_secret_free a" "a_run a = run_id"
    by (auto simp: conclusion_part_def Let_def)
  let ?ids = "map g (map re_id (rc_evidence (fst x)))"
  let ?d = "d\<lparr>conclusions := conclusions d @ [k], conclusion_evidence := conclusion_evidence d @ map (Pair (k_id k)) ?ids,
     audit := audit d @ [a]\<rparr>"
  from Cons.IH [of ?d] Cons.prems obtain ks es as where ih:
    "apply_all apply_change (concat (map snd kept)) ?d = Inr (?d\<lparr>conclusions := conclusions ?d @ ks,
       conclusion_evidence := conclusion_evidence ?d @ es, audit := audit ?d @ as\<rparr>)"
    "persisted verified run_id kept ks es as" by auto
  let ?es = "map (Pair (k_id k)) ?ids @ es"
  have "apply_all apply_change (concat (map snd (x # kept))) d = Inr (d\<lparr>conclusions := conclusions d @ k # ks,
       conclusion_evidence := conclusion_evidence d @ ?es, audit := audit d @ a # as\<rparr>)"
    using ih(1) by (simp add: part(1) apply_all_append apply_evidence del: map_map)
  moreover have "persisted verified run_id (x # kept) (k # ks) ?es (a # as)"
  proof -
    obtain e where e: "e \<in> set ?ids" using part(2) by (cases "rc_evidence (fst x)") auto
    with part(3) obtain s where "s \<in> set verified" "(k_id k, s_id s) \<in> set ?es" by fastforce
    moreover have "distinct ?es \<longrightarrow> distinct (map re_id (rc_evidence (fst x)))"
      by (auto simp: distinct_map simp del: map_map)
    moreover have "\<forall>e \<in> set ?es. snd e \<in> s_id ` set verified"
      using part(3) ih(2) unfolding persisted_def by (auto simp del: map_map)
    moreover have "secret_free (k_text k)" "is_high_stakes (k_text k) \<longrightarrow> k_review k"
      using part(5,6,8) by (simp_all add: sound_entry_def)
    ultimately show ?thesis
      using part(4,7,9,10) ih(2) unfolding persisted_def
      by (simp del: map_map distinct.simps remdups.simps) blast
  qed
  ultimately show ?case by blast
qed

lemma generate_run:
  assumes "generate V run_id topic ss cs w = (r, w')"
  shows "case r of
      Inl e \<Rightarrow> core_same (w_db w) (w_db w')
    | Inr rep \<Rightarrow> \<exists>d kept ks es as. let verified = sort_key s_id (filter (\<lambda>s. s_status s = VERIFIED) ss) in
        core_same (w_db w) d \<and>
        w_db w' = d\<lparr>conclusions := conclusions d @ ks, conclusion_evidence := conclusion_evidence d @ es, audit := audit d @ as\<rparr> \<and>
        db_ok (w_db w') \<and> rep_run rep = str_uuid run_id \<and> secret_free (rep_topic rep) \<and>
        rep_conclusions rep = map fst kept \<and> list_all (conclusion_part verified run_id) kept \<and>
        persisted verified run_id kept ks es as"
proof (cases "filter (\<lambda>s. s_status s = VERIFIED) ss = []")
  case True
  with assms show ?thesis by (auto simp: generate_def core.Q_refl)
next
  case ne: False
  define verified where "verified = sort_key s_id (filter (\<lambda>s. s_status s = VERIFIED) ss)"
  define confirmed where "confirmed = filter (\<lambda>c. c_status c = CONFIRMED) cs"
  from ne have v: "verified \<noteq> []"
    by (metis verified_def length_0_conv length_sort)
  note gen = assms [unfolded generate_def Let_def, folded verified_def confirmed_def]
  show ?thesis
  proof (cases "map_results (contradiction_summary (sv_env V)) confirmed")
    case (Inl e)
    with gen v show ?thesis by (auto simp: and_then_def core.Q_refl)
  next
    case texts: (Inr texts)
    define summaries where "summaries = map2 (\<lambda>c t. (str_uuid (c_a c), str_uuid (c_b c), t)) confirmed texts"
    obtain sys data where p: "build_synthesis_prompt V (map (\<lambda>s. (str_uuid (s_id s), redact_secrets (s_text s))) verified) summaries
        = (sys, data)" by fastforce
    obtain q w1 where q: "ask V (conclusions_model V) ''strong'' sys data run_id w = (q, w1)" by fastforce
    from ask_frame [OF q [unfolded conclusions_model_def]] have s1: "core_same (w_db w) (w_db w1)" by blast
    show ?thesis
    proof (cases q)
      case (Inl e)
      with gen v texts p q s1 show ?thesis by (auto simp: and_then_def summaries_def)
    next
      case drafts: (Inr x)
      obtain drafts model where x: "x = (drafts, model)" by fastforce
      show ?thesis
      proof (cases "source_domains (sv_env V) (w_db w1) verified")
        case (Inl e)
        with gen v texts p q s1 drafts x show ?thesis by (auto simp: and_then_def summaries_def)
      next
        case doms: (Inr domains)
        obtain b w2 where b: "each (conclude_draft verified summaries domains run_id) drafts w1 = (b, w2)" by fastforce
        let ?P = "\<lambda>y. case y of None \<Rightarrow> True | Some x \<Rightarrow> conclusion_part verified run_id x"
        have er: "w_db w2 = w_db w1 \<and> (\<forall>ys. b = Inr ys \<longrightarrow> list_all ?P ys)"
          by (rule each_run [OF _ b]) (rule conclude_draft_run)
        then have s2: "w_db w2 = w_db w1" and parts: "\<And>ys. b = Inr ys \<Longrightarrow> list_all ?P ys" by simp_all
        show ?thesis
        proof (cases b)
          case (Inl e)
          with gen v texts p q s1 drafts x doms b s2 show ?thesis by (auto simp: and_then_def summaries_def)
        next
          case ys: (Inr ys)
          define kept where "kept = concat (map (\<lambda>x. case x of None \<Rightarrow> [] | Some y \<Rightarrow> [y]) ys)"
          have kept: "list_all (conclusion_part verified run_id) kept"
            using parts [OF ys] by (auto simp: kept_def list_all_iff split: option.splits)
          obtain c w3 where c: "tx (concat (map snd kept)) w2 = (c, w3)" by fastforce
          have run: "w' = w3 \<and> (case c of Inl e \<Rightarrow> r = Inl e | Inr u \<Rightarrow> r = Inr \<lparr>rep_run = str_uuid run_id,
              rep_topic = redact_secrets topic, rep_generated = w_now w3, rep_conclusions = map fst kept\<rparr>)"
            using gen v texts p q drafts x doms b ys c
            by (auto simp: and_then_def summaries_def kept_def split: sum.splits)
          show ?thesis
          proof (cases c)
            case (Inl e)
            with run c s1 s2 show ?thesis by (auto simp: tx_Inl)
          next
            case (Inr u)
            with c obtain d where d: "commit (concat (map snd kept)) (w_db w1) = Inr d" "w_db w3 = d"
              using s2 by (auto simp: tx_Inr)
            from persist_parts [OF kept, of "w_db w1"] obtain ks es as where ks:
              "apply_all apply_change (concat (map snd kept)) (w_db w1) = Inr ((w_db w1)\<lparr>conclusions := conclusions (w_db w1) @ ks,
                 conclusion_evidence := conclusion_evidence (w_db w1) @ es, audit := audit (w_db w1) @ as\<rparr>)"
              "persisted verified run_id kept ks es as" by blast
            with d have "w_db w' = (w_db w1)\<lparr>conclusions := conclusions (w_db w1) @ ks,
                 conclusion_evidence := conclusion_evidence (w_db w1) @ es, audit := audit (w_db w1) @ as\<rparr>" "db_ok (w_db w')"
              using run by (simp_all add: commit_ok)
            then show ?thesis
              unfolding Let_def verified_def [symmetric] using run Inr s1 kept ks(2)
              by (simp add: redact_secret_free) blast
          qed
        qed
      qed
    qed
  qed
qed

section \<open>Properties\<close>

text \<open>
  C12. Report generation is one transaction. When it succeeds, every conclusion row it adds cites,
  through an evidence row, a verified statement among those given, carries no secret, and is marked
  for human review when its text has a high-stakes keyword; every evidence row cites a verified
  statement; each conclusion has one secret-free audit row; the report lists the rows in order and
  none of its conclusions cites a statement twice. When it fails, no conclusion, evidence or audit row is added.
\<close>
theorem report_cites_verified_statements:
  assumes "generate V run_id topic ss cs w = (r, w')"
  shows "case r of
      Inr rep \<Rightarrow> \<exists>ks es as. conclusions (w_db w') = conclusions (w_db w) @ ks \<and>
        conclusion_evidence (w_db w') = conclusion_evidence (w_db w) @ es \<and> audit (w_db w') = audit (w_db w) @ as \<and>
        map rc_id (rep_conclusions rep) = map (\<lambda>k. str_uuid (k_id k)) ks \<and> length as = length ks \<and>
        (\<forall>a. a \<in> set as \<longrightarrow> row_secret_free a \<and> a_run a = run_id) \<and>
        (\<forall>k. k \<in> set ks \<longrightarrow> secret_free (k_text k) \<and> (is_high_stakes (k_text k) \<longrightarrow> k_review k) \<and>
           (\<exists>s. s \<in> set ss \<and> s_status s = VERIFIED \<and> (k_id k, s_id s) \<in> set es)) \<and>
        (\<forall>e. e \<in> set es \<longrightarrow> (\<exists>s. s \<in> set ss \<and> s_status s = VERIFIED \<and> snd e = s_id s)) \<and>
        (\<forall>c. c \<in> set (rep_conclusions rep) \<longrightarrow> sound_entry c \<and> distinct (map re_id (rc_evidence c)))
    | Inl e \<Rightarrow> conclusions (w_db w') = conclusions (w_db w) \<and>
        conclusion_evidence (w_db w') = conclusion_evidence (w_db w) \<and> audit (w_db w') = audit (w_db w)"
proof (cases r)
  case (Inl e)
  with generate_run [OF assms] core_same_tables [of "w_db w" "w_db w'"] show ?thesis by simp
next
  case (Inr rep)
  let ?v = "sort_key s_id (filter (\<lambda>s. s_status s = VERIFIED) ss)"
  from generate_run [OF assms, unfolded Let_def] Inr obtain d kept ks es as where g: "core_same (w_db w) d"
      "w_db w' = d\<lparr>conclusions := conclusions d @ ks, conclusion_evidence := conclusion_evidence d @ es, audit := audit d @ as\<rparr>"
      "db_ok (w_db w')" "rep_conclusions rep = map fst kept" "list_all (conclusion_part ?v run_id) kept"
      "persisted ?v run_id kept ks es as" by auto
  note same = core_same_tables [OF g(1)]
  have v: "set ?v = {s \<in> set ss. s_status s = VERIFIED}" by auto
  have "distinct es" using g(2,3) by (simp add: db_ok_def keys_ok_def)
  then have "\<forall>c. c \<in> set (rep_conclusions rep) \<longrightarrow> distinct (map re_id (rc_evidence c))"
    using g(4,6) unfolding persisted_def by auto
  moreover have "\<forall>c. c \<in> set (rep_conclusions rep) \<longrightarrow> sound_entry c"
    using g(4,5) by (auto simp: list_all_iff conclusion_part_def Let_def)
  moreover have "map rc_id (rep_conclusions rep) = map (\<lambda>k. str_uuid (k_id k)) ks"
    using g(4,6) by (simp add: persisted_def comp_def)
  moreover have "\<forall>k. k \<in> set ks \<longrightarrow> secret_free (k_text k) \<and> (is_high_stakes (k_text k) \<longrightarrow> k_review k) \<and>
      (\<exists>s. s \<in> set ss \<and> s_status s = VERIFIED \<and> (k_id k, s_id s) \<in> set es)"
    using g(6) unfolding persisted_def v by blast
  moreover have "\<forall>e. e \<in> set es \<longrightarrow> (\<exists>s. s \<in> set ss \<and> s_status s = VERIFIED \<and> snd e = s_id s)"
    using g(6) unfolding persisted_def v by blast
  moreover have "length as = length ks" "\<forall>a. a \<in> set as \<longrightarrow> row_secret_free a \<and> a_run a = run_id"
    using g(6) unfolding persisted_def by blast+
  ultimately show ?thesis
    unfolding Inr sum.case using g(2) same by (intro exI [of _ ks] exI [of _ es] exI [of _ as]) simp
qed

definition synthesis_services :: services where
  \<comment> \<open>a model whose only conclusion cites statement 5\<close>
  "synthesis_services = (demo_services obliging_env)\<lparr>sv_schemas := (sv_schemas (demo_services obliging_env))
     \<lparr>sc_conclusions := (\<lambda>_. Some [\<lparr>cd_text = ''c'', cd_statement_ids = [str_uuid 5], cd_confidence = None,
        cd_one_sided = False, cd_high_stakes = False\<rparr>])\<rparr>\<rparr>"

theorem report_cites_verified_statements_witness:
  "\<exists>rep w' k. generate synthesis_services 2 ''q'' similar_statements [] verified_world = (Inr rep, w') \<and>
     conclusions (w_db w') = [k] \<and> (\<exists>e. conclusion_evidence (w_db w') = [e])"
proof -
  let ?r = "generate synthesis_services 2 ''q'' similar_statements [] verified_world"
  have "(case fst ?r of Inr x \<Rightarrow> length (rep_conclusions x) = 1 | Inl e \<Rightarrow> False) \<and>
      length (conclusion_evidence (w_db (snd ?r))) = 1" by code_simp
  then obtain rep w' where x: "?r = (Inr rep, w')" "length (rep_conclusions rep) = 1"
      "length (conclusion_evidence (w_db w')) = 1" using ok_result [of "\<lambda>x. length (rep_conclusions x) = 1" ?r]
    by (metis snd_conv)
  have "conclusions (w_db verified_world) = []"
    by (simp add: verified_world_def extracted_world_def world_of_def one_run_db_def empty_db_def)
  moreover from report_cites_verified_statements [OF x(1)] obtain ks where
    "conclusions (w_db w') = conclusions (w_db verified_world) @ ks"
    "map rc_id (rep_conclusions rep) = map (\<lambda>k. str_uuid (k_id k)) ks" by auto
  ultimately have "length (conclusions (w_db w')) = 1" using x(2) by (metis append_Nil length_map)
  with x show ?thesis by (auto simp: length_Suc_conv)
qed

end
