(* ===== verification/Fetching.thy ===== *)
theory Fetching
  imports Report
begin

text \<open>
  \<open>app/services/blob_store.py\<close> (the local backend), \<open>app/services/fetcher.py\<close> and the
  connectors of \<open>app/services/collectors\<close>. A blob store is a map from references to bytes.
  Every request the fetcher sends is appended to \<open>w_requests\<close>.
\<close>

section \<open>The blob store\<close>

definition blob_put :: "string \<Rightarrow> bytes \<Rightarrow> unit prog" where
  "blob_put ref content w =
     (Inr (), if w_blobs w ref \<noteq> None then w else w\<lparr>w_blobs := (w_blobs w)(ref \<mapsto> content)\<rparr>)"

definition blob_get :: "services \<Rightarrow> string \<Rightarrow> bytes prog" where
  "blob_get V ref w =
     (case w_blobs w ref of
        Some content \<Rightarrow> (Inr content, w)
      | None \<Rightarrow> (Inl (BlobNotFoundError (''blob '' @ quoted ref @ '' not found in '' @ blob_store_dir (sv_settings V))), w))"

datatype blob_backend = LocalBlobs string | S3Blobs string string "string option" "string option"

definition shown_secret :: "string option \<Rightarrow> string option" where
  \<comment> \<open>\<open>str(key) if key else None\<close>: a \<open>SecretStr\<close> shows as ten stars, whatever it holds\<close>
  "shown_secret key = (case key of None \<Rightarrow> None | Some s \<Rightarrow> if s = [] then None else Some ''**********'')"

definition make_blob_store :: "settings \<Rightarrow> blob_backend result" where
  "make_blob_store S =
     (let backend = py_lower (py_strip (if blob_store_backend S \<noteq> [] then blob_store_backend S else ''local''))
      in if backend = ''local'' then Inr (LocalBlobs (blob_store_dir S))
         else if backend = ''s3'' then Inr (S3Blobs (blob_endpoint S) (blob_bucket S) (shown_secret (blob_access_key S)) (shown_secret (blob_secret_key S)))
         else Inl (ValueError (''unsupported BLOB_STORE_BACKEND '' @ quoted backend @ '' (supported: local, s3)'')))"

locale write_once =
  \<comment> \<open>a store that keeps the first value written under a key\<close>
  fixes get :: "'s \<Rightarrow> 'k \<Rightarrow> 'v option" and put :: "'k \<Rightarrow> 'v \<Rightarrow> 's \<Rightarrow> 's"
  assumes get_same: "get (put k v s) k = (case get s k of None \<Rightarrow> Some v | Some u \<Rightarrow> Some u)"
    and get_other: "k' \<noteq> k \<Longrightarrow> get (put k v s) k' = get s k'"
begin

lemma keeps_value: "get s j = Some u \<Longrightarrow> get (put k v s) j = Some u"
  by (cases "j = k") (simp_all add: get_same get_other)

lemma put_stored: "\<exists>u. get (put k v s) k = Some u"
  by (simp add: get_same split: option.split)

lemma content_addressed:
  assumes "\<And>j u. get s j = Some u \<Longrightarrow> address u = j" and "address v = k"
  shows "get (put k v s) j = Some u \<Longrightarrow> address u = j"
  using assms by (cases "j = k") (auto simp: get_same get_other split: option.splits)

end

interpretation blobs: write_once w_blobs "\<lambda>ref content w. snd (blob_put ref content w)"
  by unfold_locales (auto simp: blob_put_def split: option.split)

section \<open>The fetcher\<close>

record fetched =
  fc_uri :: string
  fc_content :: bytes
  fc_type :: string
  fc_at :: time

definition path_name :: "string \<Rightarrow> string" where
  \<comment> \<open>the final component of a path\<close>
  "path_name path = (case filter (\<lambda>c. c \<noteq> [] \<and> c \<noteq> ''.'') (split_char CHR ''/'' path) of [] \<Rightarrow> [] | cs \<Rightarrow> last cs)"

definition path_suffix :: "string \<Rightarrow> string" where
  "path_suffix path =
     (let name = path_name path
      in case rfind_char CHR ''.'' name of
           None \<Rightarrow> []
         | Some i \<Rightarrow> if 0 < i \<and> i < length name - 1 then drop i name else [])"

definition file_content_types :: "(string \<times> string) list" where
  "file_content_types = [(''.html'', ''text/html''), (''.txt'', ''text/plain''), (''.rss'', ''application/rss+xml''),
     (''.xml'', ''application/xml''), (''.pdf'', ''application/pdf''), (''.jsonl'', ''application/jsonl'')]"

definition is_file_uri :: "string \<Rightarrow> bool" where
  "is_file_uri uri \<longleftrightarrow> startswith ''file://'' uri"

definition egress_domains :: "services \<Rightarrow> string list" where
  "egress_domains V = allowlist_from_settings (allowed_domains (sv_settings V))"

definition rate_limit :: "services \<Rightarrow> string \<Rightarrow> unit prog" where
  "rate_limit V connector w =
     (case w_last_fetch w connector of
        None \<Rightarrow> ret () w
      | Some last_at \<Rightarrow>
          let elapsed = w_now w - last_at
          in if elapsed < fetch_min_interval (sv_settings V)
             then sleep (fetch_min_interval (sv_settings V) - elapsed) w else ret () w)"

definition stamp_fetch :: "string \<Rightarrow> unit prog" where
  "stamp_fetch connector w = (Inr (), w\<lparr>w_last_fetch := (w_last_fetch w)(connector \<mapsto> w_now w)\<rparr>)"

definition fetch_file :: "services \<Rightarrow> string \<Rightarrow> string \<Rightarrow> fetched prog" where
  "fetch_file V uri connector =
     (let path = drop 7 uri
      in case read_file (sv_env V) path of
           None \<Rightarrow> throw (FetchError (''local file '' @ quoted uri @ '' not found''))
         | Some r \<Rightarrow>
             and_then (lift r) (\<lambda>content.
             let content_type = (case map_of file_content_types (py_lower (path_suffix path)) of
                   Some t \<Rightarrow> t | None \<Rightarrow> ''application/octet-stream'')
             in and_then (stamp_fetch connector) (\<lambda>_.
                and_then (reads w_now) (\<lambda>t.
                ret \<lparr>fc_uri = uri, fc_content = content, fc_type = content_type, fc_at = t\<rparr>))))"

definition http_request :: "services \<Rightarrow> string \<Rightarrow> http_response prog" where
  \<comment> \<open>the request itself, never following redirects\<close>
  "http_request V uri w =
     (let n = length (w_requests w)
      in (http_get (sv_env V) n uri,
          w\<lparr>w_requests := w_requests w @ [uri], w_now := w_now w + int (http_time (sv_env V) n)\<rparr>))"

definition fetch_http :: "services \<Rightarrow> string \<Rightarrow> string \<Rightarrow> fetched prog" where
  "fetch_http V uri connector =
     and_then (attempt (http_request V uri)
       (\<lambda>exc. throw (FetchError (''fetch '' @ quoted uri @ '' failed: '' @ exn_message exc)))) (\<lambda>response.
     and_then (stamp_fetch connector) (\<lambda>_.
     if http_status response \<noteq> 200
     then throw (FetchError (''fetch '' @ quoted uri @ '' failed with status '' @ str_int (int (http_status response))))
     else and_then (reads w_now) (\<lambda>t.
       ret \<lparr>fc_uri = uri, fc_content = http_body response,
         fc_type = (case http_content_type response of Some c \<Rightarrow> c | None \<Rightarrow> []), fc_at = t\<rparr>)))"

definition fetch :: "services \<Rightarrow> string \<Rightarrow> string \<Rightarrow> fetched prog" where
  "fetch V uri connector =
     and_then (if is_file_uri uri then ret uri else lift (allowlist_check (brackets_ok (sv_env V)) (egress_domains V) uri)) (\<lambda>_.
     and_then (rate_limit V connector) (\<lambda>_.
     if is_file_uri uri then fetch_file V uri connector else fetch_http V uri connector))"

text \<open>Programs are evaluated only when they meet a world.\<close>

lemmas fetching_code [code] =
  fetch_file_def [THEN fun_cong] fetch_http_def [THEN fun_cong] fetch_def [THEN fun_cong]

lemma rate_limit_run:
  "rate_limit V connector w = (r, w') \<Longrightarrow> r = Inr () \<and> (\<exists>t. w' = w\<lparr>w_now := t\<rparr> \<and> w_now w \<le> t \<and>
     (\<forall>s. w_last_fetch w connector = Some s \<longrightarrow> s + fetch_min_interval (sv_settings V) \<le> t))"
  by (auto simp: rate_limit_def Let_def split: option.splits if_splits intro: exI [of _ "w_now w"])

lemma fetch_file_run:
  "fetch_file V uri c w = (r, w') \<Longrightarrow>
     w' = w \<or> (\<exists>f. r = Inr f \<and> fc_uri f = uri \<and> w' = w\<lparr>w_last_fetch := (w_last_fetch w)(c \<mapsto> w_now w)\<rparr>)"
  by (auto simp: fetch_file_def and_then_def Let_def stamp_fetch_def split: option.splits sum.splits)

lemma fetch_http_run:
  assumes "fetch_http V uri c w = (r, w')"
  shows "w_db w' = w_db w \<and> w_blobs w' = w_blobs w \<and> w_requests w' = w_requests w @ [uri] \<and> w_now w \<le> w_now w' \<and>
    (\<forall>f. r = Inr f \<longrightarrow> fc_uri f = uri \<and> w_last_fetch w' = (w_last_fetch w)(c \<mapsto> w_now w')) \<and>
    (\<forall>e. r = Inl e \<longrightarrow> (\<exists>m. e = FetchError m))"
  using assms
  by (auto simp: fetch_http_def and_then_def attempt_def http_request_def stamp_fetch_def Let_def
      split: sum.splits if_splits)

lemma fetch_run:
  assumes "fetch V uri c w = (r, w')"
  shows "w_db w' = w_db w \<and> w_blobs w' = w_blobs w \<and> w_next w' = w_next w \<and>
    (w_requests w' = w_requests w \<or>
     \<not> is_file_uri uri \<and> w_requests w' = w_requests w @ [uri] \<and>
     allowlist_check (brackets_ok (sv_env V)) (egress_domains V) uri = Inr uri \<and>
     (\<forall>s. w_last_fetch w c = Some s \<longrightarrow> s + fetch_min_interval (sv_settings V) \<le> w_now w'))"
proof (cases "is_file_uri uri")
  case True
  obtain q w1 where q: "rate_limit V c w = (q, w1)" by fastforce
  from rate_limit_run [OF q] obtain t where w1: "q = Inr ()" "w1 = w\<lparr>w_now := t\<rparr>" by blast
  with assms True q have "fetch_file V uri c w1 = (r, w')" by (auto simp: fetch_def and_then_def)
  from fetch_file_run [OF this] w1(2) show ?thesis by auto
next
  case False
  show ?thesis
  proof (cases "allowlist_check (brackets_ok (sv_env V)) (egress_domains V) uri")
    case (Inl e)
    with assms False show ?thesis by (auto simp: fetch_def and_then_def)
  next
    case (Inr u)
    then have u: "u = uri" by (simp add: check_ok_iff)
    obtain q w1 where q: "rate_limit V c w = (q, w1)" by fastforce
    from rate_limit_run [OF q] obtain t where w1: "q = Inr ()" "w1 = w\<lparr>w_now := t\<rparr>"
        "\<forall>s. w_last_fetch w c = Some s \<longrightarrow> s + fetch_min_interval (sv_settings V) \<le> t" by blast
    with assms False Inr q have f: "fetch_http V uri c w1 = (r, w')" by (auto simp: fetch_def and_then_def)
    moreover have "w_next w' = w_next w1" using f
      by (auto simp: fetch_http_def and_then_def attempt_def http_request_def stamp_fetch_def Let_def
        split: sum.splits if_splits)
    ultimately show ?thesis using fetch_http_run [OF f] w1(2,3) Inr u False by fastforce
  qed
qed

context db_relation
begin

lemma fetching_keeps [keeps_rules]:
  "keeps Q (blob_put ref content)" "keeps Q (blob_get V ref)" "keeps Q (fetch V uri c)"
proof -
  show "keeps Q (blob_put ref content)" by (rule same_db) (simp add: blob_put_def)
  show "keeps Q (blob_get V ref)" by (rule same_db) (simp add: blob_get_def split: option.split)
  show "keeps Q (fetch V uri c)" by (rule same_db) (metis fetch_run prod.collapse)
qed

end

section \<open>Search\<close>

definition supported_providers :: "string list" where
  "supported_providers = [''brave'', ''duckduckgo'', ''mock'', ''serpapi'', ''web'']"

datatype search_fn = Mock_Search | Web_Search

record search_connector =
  sc_provider :: string
  sc_search_fn :: "search_fn option"
  sc_default_limit :: int

definition search_connector_init :: "string \<Rightarrow> search_fn option \<Rightarrow> int \<Rightarrow> search_connector result" where
  "search_connector_init given fn limit =
     (let name = py_lower (py_strip given)
      in if name = [] then
           Inl (SearchProviderError (''SEARCH_PROVIDER is not configured; set SEARCH_PROVIDER (supported: '' @
             join '', '' supported_providers @ '')''))
         else if name \<notin> set supported_providers then
           Inl (SearchProviderError (''unsupported SEARCH_PROVIDER '' @ quoted name @ '' (supported: '' @
             join '', '' supported_providers @ '')''))
         else Inr \<lparr>sc_provider = name, sc_search_fn = fn, sc_default_limit = limit\<rparr>)"

definition search_connector_from_settings :: "settings \<Rightarrow> search_fn option \<Rightarrow> search_connector result" where
  "search_connector_from_settings S fn =
     search_connector_init (py_strip (if search_provider S \<noteq> [] then search_provider S else search_api_provider S))
       fn (search_results_limit S)"

definition pick_search_fn :: "settings \<Rightarrow> search_fn" where
  "pick_search_fn S =
     (let name = py_lower (py_strip (search_provider S))
      in if name = ''mock'' then Mock_Search
         else if name \<in> {''web'', ''duckduckgo''} then Web_Search
         else Mock_Search)"

definition py_slice_to :: "int \<Rightarrow> 'a list \<Rightarrow> 'a list" where
  \<comment> \<open>\<open>xs[:n]\<close>\<close>
  "py_slice_to n xs = (if 0 \<le> n then take (nat n) xs else take (length xs - nat (- n)) xs)"

definition hex_upper :: "nat \<Rightarrow> char" where
  "hex_upper n = ''0123456789ABCDEF'' ! (n mod 16)"

definition quote_char :: "utf8 \<Rightarrow> char \<Rightarrow> string" where
  \<comment> \<open>percent-encoding, with the slash kept\<close>
  "quote_char U c =
     (if is_upper_az c \<or> is_lower_az c \<or> is_digit c \<or> c \<in> set ''_.-~/'' then [c]
      else concat (map (\<lambda>b. [CHR ''%'', hex_upper (cp b div 16), hex_upper (cp b)]) (utf8_encode U [c])))"

definition as_uri :: "utf8 \<Rightarrow> string \<Rightarrow> string" where
  \<comment> \<open>\<open>Path.as_uri\<close> of an absolute path\<close>
  "as_uri U path = ''file://'' @ concat (map (quote_char U) path)"

definition sample_names :: "string list" where
  "sample_names = [''retail_operations_report.html'', ''retail_operations_report.txt'',
     ''retail_operations_feed.rss'', ''ecrke_seed_report.pdf'']"

definition load_seed_uris :: "env \<Rightarrow> string list" where
  "load_seed_uris E =
     (let dir = (case data_dir E of None \<Rightarrow> ''/app'' | Some d \<Rightarrow> d) @ ''/sample_data/''
      in map (\<lambda>name. as_uri (utf8 E) (dir @ name)) (filter (\<lambda>name. read_file E (dir @ name) \<noteq> None) sample_names))"

definition mock_search :: "env \<Rightarrow> string \<Rightarrow> int \<Rightarrow> string list" where
  "mock_search E query limit = py_slice_to limit (load_seed_uris E)"

definition web_search :: "env \<Rightarrow> string \<Rightarrow> int \<Rightarrow> string list" where
  "web_search E query limit =
     (case ddgs_text E query limit of
        Inl e \<Rightarrow> []
      | Inr results \<Rightarrow>
          map (\<lambda>r. py_str E (the (jget ''href'' r))) (filter (\<lambda>r. jtruthy (jget ''href'' r)) results))"

definition search :: "env \<Rightarrow> search_connector \<Rightarrow> string \<Rightarrow> int option \<Rightarrow> string list result" where
  "search E c query limit =
     (case sc_search_fn c of
        None \<Rightarrow> Inl (SearchProviderError (''SEARCH_PROVIDER '' @ quoted (sc_provider c) @
          '' has no backend wired for this environment''))
      | Some fn \<Rightarrow>
          let effective_limit = (case limit of Some n \<Rightarrow> if n \<noteq> 0 then n else sc_default_limit c | None \<Rightarrow> sc_default_limit c)
          in Inr (case fn of Mock_Search \<Rightarrow> mock_search E query effective_limit
                  | Web_Search \<Rightarrow> web_search E query effective_limit))"

section \<open>Feeds\<close>

definition max_feed_bytes :: nat where "max_feed_bytes = 5 * 1024 * 1024"

definition local_name :: "string \<Rightarrow> string" where
  "local_name tag = (if startswith ''{'' tag then after_last_char CHR ''}'' tag else tag)"

fun xml_iter :: "xml \<Rightarrow> xml list" where
  \<comment> \<open>\<open>root.iter()\<close>: the element and its descendants in document order\<close>
  "xml_iter (Element t a x cs) = Element t a x cs # concat (map xml_iter cs)"

definition child_text :: "xml \<Rightarrow> string \<Rightarrow> string option" where
  "child_text element name =
     (case find (\<lambda>c. local_name (xml_tag c) = name \<and> (case xml_text c of None \<Rightarrow> False | Some t \<Rightarrow> \<not> blank t)) (xml_children element) of
        None \<Rightarrow> None
      | Some c \<Rightarrow> map_option py_strip (xml_text c))"

definition rss_candidates :: "xml \<Rightarrow> string list" where
  "rss_candidates doc =
     concat (map (\<lambda>item. case child_text item ''link'' of None \<Rightarrow> [] | Some link \<Rightarrow> [link])
       (filter (\<lambda>e. local_name (xml_tag e) = ''item'') (xml_iter doc)))"

definition better_link :: "string option \<Rightarrow> xml \<Rightarrow> string option" where
  "better_link best child =
     (if local_name (xml_tag child) = ''link'' then
        let rel = (case map_of (xml_attrib child) ''rel'' of None \<Rightarrow> ''alternate'' | Some r \<Rightarrow> r);
            href = py_strip (case map_of (xml_attrib child) ''href'' of None \<Rightarrow> [] | Some h \<Rightarrow> h)
        in if href \<noteq> [] \<and> (best = None \<or> rel = ''alternate'') then Some href else best
      else best)"

definition atom_candidates :: "xml \<Rightarrow> string list" where
  "atom_candidates doc =
     concat (map (\<lambda>entry. case foldl better_link None (xml_children entry) of None \<Rightarrow> [] | Some best \<Rightarrow> [best])
       (filter (\<lambda>e. local_name (xml_tag e) = ''entry'') (xml_iter doc)))"

definition fetch_candidates :: "env \<Rightarrow> bytes \<Rightarrow> string \<Rightarrow> string list result" where
  "fetch_candidates E feed_xml base_feed_url =
     (if max_feed_bytes < length feed_xml then
        Inl (RSSParseError (''feed from '' @ base_feed_url @ '' exceeds '' @ str_int (int max_feed_bytes) @
          '' byte cap (rejected before parsing)''))
      else
        case parse_xml E feed_xml of
          Inl (OtherError m) \<Rightarrow> Inl (RSSParseError (''invalid feed XML from '' @ base_feed_url @ '': '' @ m))
        | Inl e \<Rightarrow> Inl e
        | Inr doc \<Rightarrow>
            let root_name = local_name (xml_tag doc)
            in if root_name = ''rss'' then Inr (rss_candidates doc)
               else if root_name = ''feed'' then Inr (atom_candidates doc)
               else Inl (RSSParseError (''unrecognized feed root <'' @ root_name @ ''> from '' @ base_feed_url)))"

section \<open>The URL connector\<close>

definition chunks_of :: "string \<Rightarrow> chunk list" where
  \<comment> \<open>chunking with the default bounds, which always returns\<close>
  "chunks_of t = (case chunk_passages t chunk_min_chars chunk_max_chars of None \<Rightarrow> [] | Some cs \<Rightarrow> cs)"

definition text_hash :: "env \<Rightarrow> string \<Rightarrow> string" where
  \<comment> \<open>\<open>content_hash(text.encode())\<close>\<close>
  "text_hash E t = sha256 E (utf8_encode (utf8 E) t)"

definition passage_row :: "env \<Rightarrow> uuid \<Rightarrow> nat \<times> chunk \<Rightarrow> passage prog" where
  "passage_row E source_id x = (case x of (seq, c) \<Rightarrow> and_then uuid4 (\<lambda>i.
     ret \<lparr>p_id = i, p_source = source_id, p_seq = seq, p_text = ch_text c, p_start = Some (ch_start c),
       p_end = Some (ch_end c), p_hash = text_hash E (ch_text c)\<rparr>))"

definition source_row :: "uuid \<Rightarrow> fetched \<Rightarrow> string option \<Rightarrow> string \<Rightarrow> string \<Rightarrow> string option \<Rightarrow> source_status \<Rightarrow> source prog" where
  "source_row run_id f title ty digest raw_ref status = and_then uuid4 (\<lambda>i.
     ret \<lparr>src_id = i, src_run = run_id, src_uri = fc_uri f, src_title = title, src_type = ty,
       src_fetched_at = Some (fc_at f), src_hash = digest, src_raw_ref = raw_ref, src_allowlisted = True, src_status = status\<rparr>)"

definition effective_type :: "string option \<Rightarrow> fetched \<Rightarrow> string" where
  "effective_type given f =
     (if given \<noteq> None \<and> given \<noteq> Some [] then the given else source_type_value (classify_source (fc_type f) (fc_uri f)))"

definition save_collected :: "services \<Rightarrow> uuid \<Rightarrow> fetched \<Rightarrow> string option \<Rightarrow> string \<Rightarrow> string \<Rightarrow> bytes \<Rightarrow> string \<Rightarrow> source prog" where
  \<comment> \<open>what \<open>collect\<close> persists once the text is known\<close>
  "save_collected V run_id f title ty digest safe_bytes t =
     (if contains_unsafe_content t then
        and_then (source_row run_id f title ty digest None SOURCE_QUARANTINED) (\<lambda>q.
        and_then (tx [AddSource q]) (\<lambda>_. ret q))
      else
        and_then (blob_put digest safe_bytes) (\<lambda>_.
        and_then (source_row run_id f title ty digest (Some digest) NORMALIZED) (\<lambda>s.
        and_then (each (passage_row (sv_env V) (src_id s)) (enumerate 0 (chunks_of t))) (\<lambda>ps.
        and_then (tx (AddSource s # map AddPassage ps)) (\<lambda>_. ret s)))))"

definition collect_url :: "services \<Rightarrow> string \<Rightarrow> uuid \<Rightarrow> string option \<Rightarrow> string option \<Rightarrow> source prog" where
  "collect_url V uri run_id title given_type =
     (let E = sv_env V
      in and_then (fetch V uri ''url'') (\<lambda>f.
         let safe_bytes = redact_bytes_for_storage (utf8 E) (fc_content f); digest = sha256 E safe_bytes
         in and_then (fetch_db (\<lambda>d. find (\<lambda>s. src_hash s = digest) (sources d))) (\<lambda>existing.
            case existing of
              Some s \<Rightarrow> ret s
            | None \<Rightarrow>
                let ty = effective_type given_type f
                in and_then (lift (normalize (format_parsers E) ty safe_bytes)) (\<lambda>t.
                   save_collected V run_id f title ty digest safe_bytes t))))"

text \<open>Programs are evaluated only when they meet a world.\<close>

lemmas connector_code [code] =
  passage_row_def [THEN fun_cong] source_row_def [THEN fun_cong] save_collected_def [THEN fun_cong]
  collect_url_def [THEN fun_cong]

section \<open>What a connector changes\<close>

lemma each_fresh:
  assumes "\<And>x w. f x w = (Inr (g x (w_next w)), w\<lparr>w_next := Suc (w_next w)\<rparr>)"
  shows "each f xs w = (Inr (map2 g xs [w_next w..<w_next w + length xs]), w\<lparr>w_next := w_next w + length xs\<rparr>)"
proof (induction xs arbitrary: w)
  case (Cons x xs)
  have "[w_next w..<w_next w + length (x # xs)] = w_next w # [Suc (w_next w)..<Suc (w_next w) + length xs]"
    by (simp add: upt_conv_Cons del: upt_Suc)
  then show ?case using Cons.IH [of "w\<lparr>w_next := Suc (w_next w)\<rparr>"] by (simp add: and_then_def assms del: upt_Suc)
qed simp

lemma chunks_of_text: "concat (map ch_text (chunks_of t)) = t"
  using chunk_passages_tiles [of chunk_max_chars t chunk_min_chars] tiles_text
  by (fastforce simp: chunks_of_def chunk_max_chars_def slice_def)

lemma each_passage:
  "\<exists>ps. each (passage_row E sid) (enumerate 0 cs) w = (Inr ps, w\<lparr>w_next := w_next w + length cs\<rparr>) \<and>
     map p_text ps = map ch_text cs \<and> map p_seq ps = [0..<length cs] \<and> (\<forall>p \<in> set ps. p_source p = sid)"
proof -
  let ?g = "\<lambda>x i. \<lparr>p_id = i, p_source = sid, p_seq = fst x, p_text = ch_text (snd x), p_start = Some (ch_start (snd x)),
      p_end = Some (ch_end (snd x)), p_hash = text_hash E (ch_text (snd x))\<rparr>"
  let ?xs = "enumerate 0 cs" and ?is = "[w_next w..<w_next w + length cs]"
  have "passage_row E sid x v = (Inr (?g x (w_next v)), v\<lparr>w_next := Suc (w_next v)\<rparr>)" for x v
    by (simp add: passage_row_def and_then_def split: prod.split)
  from each_fresh [of "passage_row E sid" ?g, OF this, of ?xs w]
  have "each (passage_row E sid) ?xs w = (Inr (map2 ?g ?xs ?is), w\<lparr>w_next := w_next w + length cs\<rparr>)" by simp
  moreover have "map p_text (map2 ?g ?xs ?is) = map ch_text (map snd (map fst (zip ?xs ?is)))"
      "map p_seq (map2 ?g ?xs ?is) = map fst (map fst (zip ?xs ?is))"
    unfolding map_map by (simp_all add: comp_def split_def)
  then have "map p_text (map2 ?g ?xs ?is) = map ch_text (map snd ?xs)" "map p_seq (map2 ?g ?xs ?is) = map fst ?xs"
    by (simp_all only: map_fst_zip length_upt length_enumerate diff_add_inverse)
  moreover have "\<forall>p \<in> set (map2 ?g ?xs ?is). p_source p = sid" by auto
  ultimately show ?thesis by simp
qed

lemma apply_passages:
  "apply_all apply_change (map AddPassage ps) d = Inr (d\<lparr>passages := passages d @ ps\<rparr>)"
  by (induction ps arbitrary: d) simp_all

context db_relation
begin

lemma connector_keeps [keeps_rules]:
  "keeps Q (passage_row E sid x)" "keeps Q (source_row i f t ty h rr st)"
  "keeps Q (save_collected V i f t ty h b x')" "keeps Q (collect_url V uri i t ty')"
proof -
  show p: "keeps Q (passage_row E sid x)" for E sid x unfolding passage_row_def by (intro keeps_rules)
  show s: "keeps Q (source_row i f t ty h rr st)" for i f t ty h rr st unfolding source_row_def by (intro keeps_rules)
  show c: "keeps Q (save_collected V i f t ty h b x')" for V i f t ty h b x'
    unfolding save_collected_def by (intro keeps_rules p s)
  show "keeps Q (collect_url V uri i t ty')" unfolding collect_url_def Let_def by (intro keeps_rules c)
qed

end

definition collected :: "uuid \<Rightarrow> world \<Rightarrow> source \<Rightarrow> world \<Rightarrow> bool" where
  \<comment> \<open>a new source row, quarantined without content or normalized with its blob and passages\<close>
  "collected run_id w s w' \<longleftrightarrow> sources (w_db w') = sources (w_db w) @ [s] \<and> src_run s = run_id \<and>
     (src_status s = SOURCE_QUARANTINED \<and> passages (w_db w') = passages (w_db w) \<and> w_blobs w' = w_blobs w \<or>
      src_status s = NORMALIZED \<and> w_blobs w' (src_hash s) \<noteq> None \<and>
        (\<exists>ps. passages (w_db w') = passages (w_db w) @ ps \<and> map p_seq ps = [0..<length ps] \<and>
           (\<forall>p \<in> set ps. p_source p = src_id s) \<and> secret_free (concat (map p_text ps)) \<and>
           \<not> contains_unsafe_content (concat (map p_text ps))))"

lemma save_collected_run:
  assumes run: "save_collected V run_id f title ty digest b t w = (Inr s, w')" and clean: "secret_free t"
  shows "collected run_id w s w' \<and> src_hash s = digest"
proof -
  define src where "src rr st = \<lparr>src_id = w_next w, src_run = run_id, src_uri = fc_uri f, src_title = title,
    src_type = ty, src_fetched_at = Some (fc_at f), src_hash = digest, src_raw_ref = rr,
    src_allowlisted = True, src_status = st\<rparr>" for rr st
  have row: "source_row run_id f title ty digest rr st v = (Inr (src rr st), v\<lparr>w_next := Suc (w_next v)\<rparr>)"
    if "w_next v = w_next w" for rr st v
    using that by (simp add: source_row_def and_then_def src_def)
  show ?thesis
  proof (cases "contains_unsafe_content t")
    case True
    with run row [of w None SOURCE_QUARANTINED] obtain d where
      "commit [AddSource (src None SOURCE_QUARANTINED)] (w_db w) = Inr d" "s = src None SOURCE_QUARANTINED"
      "w_db w' = d" "w_blobs w' = w_blobs w"
      by (auto simp: save_collected_def and_then_def tx_def split: sum.splits)
    moreover from this have eq: "w_db w' = (w_db w)\<lparr>sources := sources (w_db w) @ [s]\<rparr>" by (simp add: commit_ok)
    have "sources (w_db w') = sources (w_db w) @ [s]" "passages (w_db w') = passages (w_db w)" unfolding eq by simp_all
    moreover have "src_status s = SOURCE_QUARANTINED" "src_run s = run_id" "src_hash s = digest"
      using calculation(2) by (simp_all add: src_def)
    ultimately show ?thesis by (simp only: collected_def) simp
  next
    case False
    define w2 where "w2 = snd (blob_put digest b w)"
    have w2: "blob_put digest b w = (Inr (), w2)" "w_next w2 = w_next w" "w_db w2 = w_db w"
      by (simp_all add: blob_put_def w2_def)
    let ?s = "src (Some digest) NORMALIZED"
    let ?w3 = "w2\<lparr>w_next := Suc (w_next w2)\<rparr>"
    from each_passage [of "sv_env V" "src_id ?s" "chunks_of t" ?w3] obtain ps where ps:
      "each (passage_row (sv_env V) (src_id ?s)) (enumerate 0 (chunks_of t)) ?w3 =
         (Inr ps, ?w3\<lparr>w_next := w_next ?w3 + length (chunks_of t)\<rparr>)"
      "map p_text ps = map ch_text (chunks_of t)" "map p_seq ps = [0..<length (chunks_of t)]"
      "\<forall>p \<in> set ps. p_source p = src_id ?s" by blast
    from run False w2 ps(1) row [of w2 "Some digest" NORMALIZED] obtain d where
      d: "commit (AddSource ?s # map AddPassage ps) (w_db w) = Inr d" "s = ?s" "w_db w' = d" "w_blobs w' = w_blobs w2"
      by (auto simp: save_collected_def and_then_def tx_def split: sum.splits)
    have "length ps = length (chunks_of t)" using ps(2) by (metis length_map)
    moreover have "concat (map p_text ps) = t" unfolding ps(2) by (rule chunks_of_text)
    moreover have "w_blobs w' digest \<noteq> None"
      using blobs.put_stored [of digest b w] d(4) by (auto simp: w2_def)
    moreover have "sources d = sources (w_db w) @ [?s]" "passages d = passages (w_db w) @ ps"
      using d(1) by (auto simp: commit_ok apply_passages)
    moreover have "src_run ?s = run_id" "src_status ?s = NORMALIZED" "src_hash ?s = digest" by (simp_all add: src_def)
    ultimately show ?thesis
      using d(2,3) ps(3,4) clean False unfolding collected_def by auto
  qed
qed

lemma collect_url_run:
  assumes "collect_url V uri run_id title ty w = (Inr s, w')"
  shows "(s \<in> set (sources (w_db w)) \<and> w_db w' = w_db w \<and> w_blobs w' = w_blobs w) \<or>
    (collected run_id w s w' \<and> (\<forall>s' \<in> set (sources (w_db w)). src_hash s' \<noteq> src_hash s))"
proof -
  obtain q w1 where q: "fetch V uri ''url'' w = (q, w1)" by fastforce
  note fr = fetch_run [OF q]
  show ?thesis
  proof (cases q)
    case (Inl e)
    with assms q show ?thesis by (simp add: collect_url_def Let_def and_then_def)
  next
    case f: (Inr f)
    define b where "b = redact_bytes_for_storage (utf8 (sv_env V)) (fc_content f)"
    define digest where "digest = sha256 (sv_env V) b"
    note run = assms [unfolded collect_url_def Let_def and_then_run(2) [of "fetch V uri ''url''", OF q [unfolded f]],
        folded b_def, folded digest_def]
    show ?thesis
    proof (cases "find (\<lambda>s. src_hash s = digest) (sources (w_db w))")
      case (Some s0)
      with run fr have "s = s0" "w' = w1" by (auto simp: and_then_def)
      with Some fr show ?thesis by (auto dest: find_mem)
    next
      case None
      then have fresh: "\<forall>s' \<in> set (sources (w_db w)). src_hash s' \<noteq> digest" by (auto simp: find_None_iff)
      from run None fr obtain t where t: "normalize (format_parsers (sv_env V)) (effective_type ty f) b = Inr t"
          "save_collected V run_id f title (effective_type ty f) digest b t w1 = (Inr s, w')"
        by (auto simp: and_then_def split: sum.splits)
      have "secret_free t" using normalize_Inr [OF t(1)] redact_secret_free by blast
      from save_collected_run [OF t(2) this] fresh fr show ?thesis by (auto simp: collected_def)
    qed
  qed
qed

lemma py_strip_twice: "py_strip (py_strip s) = py_strip s"
proof (cases "py_strip s = []")
  case False
  let ?u = "dropWhile is_space s"
  have tw: "dropWhile P (dropWhile P xs) = dropWhile P xs" for P and xs :: string by (induction xs) auto
  have r: "rev (py_strip s) = dropWhile is_space (rev ?u)" by (simp add: py_strip_def)
  then have "rev ?u = takeWhile is_space (rev ?u) @ rev (py_strip s)" by simp
  then have "?u = py_strip s @ rev (takeWhile is_space (rev ?u))" by (metis rev_append rev_rev_ident)
  with False have "hd (py_strip s) = hd ?u" "?u \<noteq> []" by (metis hd_append2) (use False in \<open>auto simp: py_strip_def dest: set_dropWhileD\<close>)
  then have "\<not> is_space (hd (py_strip s))" using hd_dropWhile by metis
  then have "dropWhile is_space (py_strip s) = py_strip s" using False by (cases "py_strip s") auto
  then have "py_strip (py_strip s) = rev (dropWhile is_space (rev (py_strip s)))" by (simp add: py_strip_def)
  also have "\<dots> = py_strip s" unfolding r tw unfolding r [symmetric] by simp
  finally show ?thesis .
next
  case True
  moreover have "py_strip [] = []" by (simp add: py_strip_def)
  ultimately show ?thesis by simp
qed

section \<open>Properties\<close>



text \<open>
  A \<open>file://\<close> URI passes the egress gate whatever the allowlist: the bytes of any readable
  local file are returned, although the gate is documented as default-deny.
\<close>
theorem file_uris_bypass_allowlist:
  assumes "is_file_uri uri" and "read_file (sv_env V) (drop 7 uri) = Some (Inr content)"
  shows "\<exists>f w'. fetch V uri connector w = (Inr f, w') \<and> fc_content f = content \<and> w_requests w' = w_requests w"
proof -
  obtain q w1 where q: "rate_limit V connector w = (q, w1)" by fastforce
  from rate_limit_run [OF q] have "q = Inr ()" "w_requests w1 = w_requests w" by auto
  with assms q show ?thesis
    by (auto simp: fetch_def and_then_def fetch_file_def Let_def stamp_fetch_def)
qed

theorem file_uris_bypass_allowlist_witness:
  "\<exists>f w'. fetch (demo_services (obliging_env\<lparr>read_file := (\<lambda>p. Some (Inr ''root''))\<rparr>)) ''file:///etc/passwd'' ''url'' one_run_world
     = (Inr f, w') \<and> fc_content f = ''root''"
proof -
  let ?V = "demo_services (obliging_env\<lparr>read_file := (\<lambda>p. Some (Inr ''root''))\<rparr>)"
  have "is_file_uri ''file:///etc/passwd''" by (simp add: is_file_uri_def startswith_def)
  moreover have "read_file (sv_env ?V) (drop 7 ''file:///etc/passwd'') = Some (Inr ''root'')" by (simp add: demo_services_def)
  ultimately show ?thesis using file_uris_bypass_allowlist [of "''file:///etc/passwd''" ?V "''root''"] by blast
qed

text \<open>
  C15. Collecting a URI yields either a source that was already stored, with nothing changed, or
  one new source of the run whose hash no stored source has: quarantined, without passages or blob,
  or normalized, with its blob stored and with numbered passages whose texts concatenate to a text
  that carries no secret and no unsafe term.
\<close>
theorem collected_text_is_safe:
  assumes "collect_url V uri run_id title ty w = (Inr s, w')"
  shows "(s \<in> set (sources (w_db w)) \<and> w_db w' = w_db w \<and> w_blobs w' = w_blobs w) \<or>
    (sources (w_db w') = sources (w_db w) @ [s] \<and> src_run s = run_id \<and> src_hash s \<notin> set (map src_hash (sources (w_db w))) \<and>
     (src_status s = SOURCE_QUARANTINED \<and> passages (w_db w') = passages (w_db w) \<and> w_blobs w' = w_blobs w \<or>
      src_status s = NORMALIZED \<and> w_blobs w' (src_hash s) \<noteq> None \<and>
        (\<exists>ps. passages (w_db w') = passages (w_db w) @ ps \<and> map p_seq ps = [0..<length ps] \<and>
           (\<forall>p. p \<in> set ps \<longrightarrow> p_source p = src_id s) \<and> secret_free (concat (map p_text ps)) \<and>
           \<not> contains_unsafe_content (concat (map p_text ps)))))"
  using collect_url_run [OF assms] unfolding collected_def by fastforce

definition serving_env :: env where
  \<comment> \<open>a network that answers every request with a short page\<close>
  "serving_env = obliging_env\<lparr>http_get := (\<lambda>_ _. Inr \<lparr>http_status = 200, http_body = ''a b'', http_content_type = None\<rparr>)\<rparr>"

theorem collected_text_is_safe_witness:
  "\<exists>s w'. collect_url (demo_services serving_env) ''http://a.org/'' 2 None None one_run_world = (Inr s, w') \<and>
     sources (w_db w') = [s]"
proof -
  let ?r = "collect_url (demo_services serving_env) ''http://a.org/'' 2 None None one_run_world"
  have "is_ok (fst ?r)" by code_simp
  then obtain s where s: "fst ?r = Inr s" by (auto simp: is_ok_iff)
  have "sources (w_db one_run_world) = []" by (simp add: one_run_db_def empty_db_def)
  with collected_text_is_safe [OF run_result [OF s]] have "sources (w_db (snd ?r)) = [s]" by auto
  with run_result [OF s] show ?thesis by blast
qed

text \<open>
  The legacy provider field selects the name of the search provider but not its backend: with
  only \<open>SEARCH_API_PROVIDER\<close> set to duckduckgo the connector bears that name and searches
  the sample data.
\<close>
theorem legacy_provider_searches_sample_data:
  assumes "search_provider S = []" and "py_lower (py_strip (search_api_provider S)) = ''duckduckgo''"
  shows "\<exists>c. search_connector_from_settings S (Some (pick_search_fn S)) = Inr c \<and> sc_provider c = ''duckduckgo'' \<and>
    search E c query limit = search E \<lparr>sc_provider = ''mock'', sc_search_fn = Some Mock_Search, sc_default_limit = search_results_limit S\<rparr> query limit"
proof -
  have "search_connector_from_settings S (Some (pick_search_fn S)) =
      Inr \<lparr>sc_provider = ''duckduckgo'', sc_search_fn = Some Mock_Search, sc_default_limit = search_results_limit S\<rparr>"
    using assms by (simp add: search_connector_from_settings_def search_connector_init_def supported_providers_def
        pick_search_fn_def py_strip_twice Let_def) (simp add: py_strip_def py_lower_def)
  then show ?thesis by (simp add: search_def split: option.split)
qed

theorem legacy_provider_searches_sample_data_witness:
  "\<exists>c. search_connector_from_settings (demo_settings\<lparr>search_api_provider := ''duckduckgo''\<rparr>) (Some Mock_Search) = Inr c \<and>
     sc_provider c = ''duckduckgo''"
proof -
  let ?S = "demo_settings\<lparr>search_api_provider := ''duckduckgo''\<rparr>"
  have "search_provider ?S = []" "py_lower (py_strip (search_api_provider ?S)) = ''duckduckgo''"
    "pick_search_fn ?S = Mock_Search" by code_simp+
  with legacy_provider_searches_sample_data [of ?S] show ?thesis by metis
qed

end
