(* ===== verification/Breaker.thy ===== *)
theory Breaker
  imports Errors
begin

text \<open>
  The cost circuit breaker, \<open>app/pipeline/circuit_breaker.py\<close>, and the constants of the
  pipeline, \<open>app/pipeline/context.py\<close>. A \<open>Decimal\<close> is its exact rational value.
\<close>

section \<open>The breaker\<close>

definition default_stage_fraction :: rat where "default_stage_fraction = 10 / 100"

definition stage_budget :: "rat \<Rightarrow> rat \<Rightarrow> rat" where
  "stage_budget fraction run_budget = run_budget * fraction"

definition breaker_check :: "(rat \<Rightarrow> string) \<Rightarrow> rat \<Rightarrow> string \<Rightarrow> rat \<Rightarrow> rat \<Rightarrow> unit result" where
  \<comment> \<open>\<open>show\<close> prints a \<open>Decimal\<close>\<close>
  "breaker_check shw fraction stage spent run_budget =
     (if spent > run_budget
      then Inl (CircuitBreakerError (''total budget breached for '' @ stage @ '': spent '' @ shw spent @
        '' > run budget '' @ shw run_budget))
      else
        let budget = stage_budget fraction run_budget
        in if spent > budget
           then Inl (CircuitBreakerError (''stage budget breached for '' @ stage @ '': spent '' @ shw spent @
             '' > stage budget '' @ shw budget @ '' (run budget '' @ shw run_budget @ '' * fraction '' @
             shw fraction @ '')''))
           else Inr ())"

lemma breaker_error: "breaker_check shw f stage spent budget = Inl e \<Longrightarrow> \<exists>m. e = CircuitBreakerError m"
  by (auto simp: breaker_check_def Let_def split: if_splits)

lemma breaker_ok: "breaker_check shw f stage spent budget = Inr u \<longleftrightarrow> spent \<le> budget \<and> spent \<le> budget * f"
  by (auto simp: breaker_check_def Let_def stage_budget_def)

text \<open>
  With the default fraction and a non-negative budget the breaker lets a run go on exactly
  while its total spend so far is at most a tenth of the run's budget: the spend it is given is the
  cumulative one, so the check against the total budget never decides, and a run cannot use the
  other nine tenths.
\<close>
theorem breaker_caps_run_at_a_tenth:
  assumes "0 \<le> run_budget"
  shows "is_ok (breaker_check shw default_stage_fraction stage spent run_budget) \<longleftrightarrow> 10 * spent \<le> run_budget"
  using assms by (auto simp: is_ok_iff breaker_ok default_stage_fraction_def)

theorem breaker_caps_run_at_a_tenth_witness:
  "\<not> is_ok (breaker_check (\<lambda>_. []) default_stage_fraction ''define'' (3 / 10) 2)"
  using breaker_caps_run_at_a_tenth [of 2 "\<lambda>_. []" "''define''" "3 / 10"] by simp

section \<open>The stages\<close>

definition STAGES :: "string list" where
  "STAGES = [''define'', ''search'', ''collect'', ''store'', ''extract'', ''verify'', ''find'', ''detect'',
     ''conclude'', ''trace'']"

definition STAGE_STATUS :: "string \<Rightarrow> string option" where
  "STAGE_STATUS = map_of [(''define'', ''planning''), (''search'', ''searching''), (''collect'', ''collecting''),
     (''store'', ''storing''), (''extract'', ''extracting''), (''verify'', ''verifying''), (''find'', ''comparing''),
     (''detect'', ''detecting''), (''conclude'', ''concluding''), (''trace'', ''tracing'')]"

definition STAGE_PROGRESS :: "string \<Rightarrow> rat option" where
  \<comment> \<open>\<open>round((index + 1) / len(STAGES), 2)\<close>: the tenths are exact at two places\<close>
  "STAGE_PROGRESS = map_of (zip STAGES (map (\<lambda>i. of_nat (i + 1) / of_nat (length STAGES)) [0..<length STAGES]))"

lemma distinct_STAGES: "distinct STAGES"
  by (simp add: STAGES_def)

lemma stage_tables:
  "s \<in> set STAGES \<Longrightarrow> \<exists>status p. STAGE_STATUS s = Some status \<and> STAGE_PROGRESS s = Some p \<and> 0 < p \<and> p \<le> 1"
proof -
  have "\<forall>s \<in> set STAGES. STAGE_STATUS s \<noteq> None \<and> (case STAGE_PROGRESS s of None \<Rightarrow> False | Some p \<Rightarrow> 0 < p \<and> p \<le> 1)"
    by code_simp
  then show "s \<in> set STAGES \<Longrightarrow> \<exists>status p. STAGE_STATUS s = Some status \<and> STAGE_PROGRESS s = Some p \<and> 0 < p \<and> p \<le> 1"
    by (fastforce split: option.splits)
qed

end
