(* ===== verification/Stages.thy ===== *)
theory Stages
  imports Fetching Breaker
begin

text \<open>
  The ten stage tasks, \<open>app/pipeline/stages\<close>. A stage reads only its context: the bundle of
  services and the identifier of the run. A query returns its rows in insertion order.
\<close>

section \<open>Contexts and results\<close>

record pipeline_services =
  \<comment> \<open>\<open>PipelineServices\<close>: what the services share, the search connector and the blob backend\<close>
  bn_services :: services
  bn_connector :: search_connector
  bn_blobs :: blob_backend

definition build_pipeline_services :: "(settings \<Rightarrow> services) \<Rightarrow> settings \<Rightarrow> pipeline_services result" where
  \<comment> \<open>the first argument supplies the surroundings of the process\<close>
  "build_pipeline_services surroundings S =
     result_bind (search_connector_from_settings S (Some (pick_search_fn S))) (\<lambda>connector.
     result_bind (make_blob_store S) (\<lambda>backend.
     Inr \<lparr>bn_services = surroundings S, bn_connector = connector, bn_blobs = backend\<rparr>))"

record stage_result =
  sr_stage :: string
  sr_ok :: bool
  sr_detail :: "json option"

definition stage_done :: "string \<Rightarrow> (string \<times> json) list \<Rightarrow> stage_result" where
  "stage_done stage detail = \<lparr>sr_stage = stage, sr_ok = True, sr_detail = Some (JObj detail)\<rparr>"

definition jcount :: "nat \<Rightarrow> json" where
  "jcount n = JInt (int n)"

definition require_run :: "uuid \<Rightarrow> run prog" where
  \<comment> \<open>\<open>session.get(Run, ctx.run_id)\<close> or the error\<close>
  "require_run i = and_then (fetch_db (run_lookup i)) (\<lambda>r. case r of
     None \<Rightarrow> throw (ValueError (''no Run row for run_id='' @ str_uuid i))
   | Some run \<Rightarrow> ret run)"

definition outcome_of :: "'a prog \<Rightarrow> 'a result prog" where
  \<comment> \<open>a \<open>try\<close> block whose handlers are chosen afterwards\<close>
  "outcome_of p w = (case p w of (r, w') \<Rightarrow> (Inr r, w'))"

fun paced :: "int \<Rightarrow> bool \<Rightarrow> ('a \<Rightarrow> 'b prog) \<Rightarrow> 'a list \<Rightarrow> 'b list prog" where
  \<comment> \<open>a loop that sleeps before every round but the first\<close>
  "paced delay first f [] = ret []"
| "paced delay first f (x # xs) =
     and_then (if first then ret () else sleep (seconds delay)) (\<lambda>_.
     and_then (f x) (\<lambda>y. and_then (paced delay False f xs) (\<lambda>ys. ret (y # ys))))"

definition run_statements :: "uuid \<Rightarrow> statement_status \<Rightarrow> db \<Rightarrow> statement list" where
  "run_statements i status d = filter (\<lambda>s. s_run s = i \<and> s_status s = status) (statements d)"

definition run_passages :: "uuid list \<Rightarrow> db \<Rightarrow> passage list" where
  "run_passages source_ids d = filter (\<lambda>p. p_source p \<in> set source_ids) (passages d)"

section \<open>Define and search\<close>

definition run_define :: "pipeline_services \<Rightarrow> uuid \<Rightarrow> stage_result prog" where
  "run_define B i =
     and_then (require_run i) (\<lambda>run.
     and_then (plan_run (bn_services B) (r_question run) i) (\<lambda>plan.
     ret (stage_done ''define'' [(''plan_topic'', JStr (rp_topic plan)),
       (''sub_questions'', JList (map JStr (rp_sub_questions plan)))])))"

definition json_texts :: "env \<Rightarrow> json option \<Rightarrow> string list result" where
  \<comment> \<open>\<open>list(value or [])\<close> of a list of strings\<close>
  "json_texts E j =
     (if \<not> jtruthy j then Inr []
      else case j of Some (JList xs) \<Rightarrow> Inr (map (py_str E) xs) | _ \<Rightarrow> Inl (TypeErr ''the value is not a list''))"

fun search_all :: "env \<Rightarrow> search_connector \<Rightarrow> int \<Rightarrow> string list \<Rightarrow> string list \<Rightarrow> string list result" where
  "search_all E c limit urls [] = Inr urls"
| "search_all E c limit urls (query # queries) =
     result_bind (search E c query (Some limit)) (\<lambda>found. search_all E c limit (dedup_onto urls found) queries)"

definition run_search :: "pipeline_services \<Rightarrow> uuid \<Rightarrow> stage_result prog" where
  "run_search B i =
     (let V = bn_services B; E = sv_env V
      in and_then (kv_get (plan_key i)) (\<lambda>plan.
         case plan of
           None \<Rightarrow> throw (ValueError (''research_plan artifact missing for run_id='' @ str_uuid i @ '' (run the define stage first)''))
         | Some p \<Rightarrow>
             and_then (lift (json_texts E (jget ''sub_questions'' p))) (\<lambda>queries.
             and_then (lift (search_all E (bn_connector B) (search_results_limit (sv_settings V)) [] queries)) (\<lambda>urls.
             ret (stage_done ''search'' [(''urls'', JList (map JStr urls))])))))"

section \<open>Collect\<close>

definition decode_content :: "env \<Rightarrow> bytes \<Rightarrow> string" where
  "decode_content E content =
     (case utf8_decode (utf8 E) content of
        Some t \<Rightarrow> t
      | None \<Rightarrow> (case utf16_decode E content of Some t \<Rightarrow> t | None \<Rightarrow> content))"

definition source_audit :: "uuid \<Rightarrow> uuid \<Rightarrow> string \<Rightarrow> string \<Rightarrow> string \<Rightarrow> string option \<Rightarrow> audit_args" where
  "source_audit i sid uri act decision reason = \<lparr>au_run = Some i, au_entity_type = ''source'',
     au_entity_id = Some (str_uuid sid), au_action = act, au_actor = Some ''pipeline'', au_decision = Some decision,
     au_reason = reason, au_evidence = Some (JObj [(''uri'', JStr uri)])\<rparr>"

definition record_source :: "uuid \<Rightarrow> string \<Rightarrow> string \<Rightarrow> source_status \<Rightarrow> bool \<Rightarrow> string \<Rightarrow> string option \<Rightarrow>
    string \<Rightarrow> string \<Rightarrow> string option \<Rightarrow> unit prog" where
  "record_source i uri ty status allowlisted h raw_ref act decision reason =
     and_then uuid4 (\<lambda>sid.
     and_then (audit_append (source_audit i sid uri act decision reason)) (\<lambda>a.
     tx [AddSource \<lparr>src_id = sid, src_run = i, src_uri = uri, src_title = None, src_type = ty, src_fetched_at = None,
           src_hash = h, src_raw_ref = raw_ref, src_allowlisted = allowlisted, src_status = status\<rparr>, AddAudit a]))"

datatype collect_outcome = Collected | Withheld | Unreachable

definition raw_ref_of :: "uuid \<Rightarrow> uuid \<Rightarrow> string" where
  "raw_ref_of i sid = ''runs/'' @ str_uuid i @ ''/sources/'' @ str_uuid sid"

definition store_fetched :: "services \<Rightarrow> uuid \<Rightarrow> string \<Rightarrow> (string \<times> string) list \<Rightarrow> fetched \<Rightarrow>
    (collect_outcome \<times> (string \<times> string) list) prog" where
  "store_fetched V i uri seen_hashes f =
     (let E = sv_env V; ch = sha256 E (fc_content f); content_key = text_hash E (ch @ CHR '':'' # uri);
          decoded = decode_content E (fc_content f); ty = source_type_value (classify_source (fc_type f) uri)
      in if is_unsafe decoded then
           and_then (record_source i uri ty SOURCE_QUARANTINED True ch None ''source.quarantined'' ''quarantined''
             (Some (unsafe_reason decoded))) (\<lambda>_. ret (Withheld, seen_hashes))
         else
           and_then uuid4 (\<lambda>source_id.
           and_then (case map_of seen_hashes ch of
                Some raw_ref \<Rightarrow> ret (raw_ref, seen_hashes)
              | None \<Rightarrow> and_then (blob_put (raw_ref_of i source_id) (fc_content f)) (\<lambda>_.
                  ret (raw_ref_of i source_id, (ch, raw_ref_of i source_id) # seen_hashes))) (\<lambda>(raw_ref, seen).
           and_then (record_source i uri ty FETCHED True content_key (Some raw_ref) ''source.fetched'' ''fetched'' None) (\<lambda>_.
           ret (Collected, seen)))))"

definition fetch_and_store :: "services \<Rightarrow> uuid \<Rightarrow> string \<Rightarrow> (string \<times> string) list \<Rightarrow>
    (collect_outcome \<times> (string \<times> string) list) prog" where
  "fetch_and_store V i uri seen_hashes =
     and_then (outcome_of (fetch V uri ''default'')) (\<lambda>r.
     case r of
       Inl (FetchError m) \<Rightarrow>
         and_then (record_source i uri ''other'' FAILED True (text_hash (sv_env V) uri) None ''source.fetch_failed'' ''failed''
           (Some m)) (\<lambda>_. ret (Unreachable, seen_hashes))
     | Inl e \<Rightarrow> throw e
     | Inr f \<Rightarrow> store_fetched V i uri seen_hashes f)"

definition collect_one :: "services \<Rightarrow> uuid \<Rightarrow> string \<Rightarrow> (string \<times> string) list \<Rightarrow>
    (collect_outcome \<times> (string \<times> string) list) prog" where
  "collect_one V i uri seen_hashes =
     (if is_file_uri uri then fetch_and_store V i uri seen_hashes
      else case allowlist_check (brackets_ok (sv_env V)) (egress_domains V) uri of
          Inl (AllowlistDeniedError m) \<Rightarrow>
            and_then (record_source i uri ''other'' SOURCE_QUARANTINED False (text_hash (sv_env V) uri) None
              ''source.quarantined'' ''quarantined'' (Some m)) (\<lambda>_. ret (Withheld, seen_hashes))
        | Inl e \<Rightarrow> throw e
        | Inr _ \<Rightarrow> fetch_and_store V i uri seen_hashes)"

fun collect_uris :: "services \<Rightarrow> uuid \<Rightarrow> string list \<Rightarrow> (string \<times> string) list \<Rightarrow> string list \<Rightarrow> collect_outcome list prog" where
  \<comment> \<open>the loop over the URIs, without those that have a source row already\<close>
  "collect_uris V i existing seen [] = ret []"
| "collect_uris V i existing seen (uri # uris) =
     (if uri \<in> set existing then collect_uris V i existing seen uris
      else and_then (collect_one V i uri seen) (\<lambda>(outcome, seen').
           and_then (collect_uris V i existing seen' uris) (\<lambda>outcomes. ret (outcome # outcomes))))"

definition run_collect :: "pipeline_services \<Rightarrow> uuid \<Rightarrow> stage_result prog" where
  "run_collect B i =
     (let V = bn_services B
      in and_then (cp_load i ''search'') (\<lambda>search_cp.
         if search_cp = None \<or> \<not> jtruthy (jget ''urls'' (the search_cp)) then
           throw (ValueError (''search checkpoint missing URLs for run_id='' @ str_uuid i @ '' (run the search stage first)''))
         else
           and_then (fetch_db (\<lambda>d. map src_uri (filter (\<lambda>s. src_run s = i) (sources d)))) (\<lambda>existing.
           and_then (lift (json_texts (sv_env V) (jget ''urls'' (the search_cp)))) (\<lambda>uris.
           and_then (collect_uris V i existing [] uris) (\<lambda>outcomes.
           let n = (\<lambda>o1. jcount (length (filter (\<lambda>x. x = o1) outcomes)))
           in ret (stage_done ''collect'' [(''fetched'', n Collected), (''quarantined'', n Withheld), (''failed'', n Unreachable)]))))))"

section \<open>Store\<close>

definition store_source :: "services \<Rightarrow> string list \<Rightarrow> source \<Rightarrow> nat prog" where
  "store_source V stored_hashes s =
     and_then (blob_get V (case src_raw_ref s of None \<Rightarrow> [] | Some ref \<Rightarrow> ref)) (\<lambda>content.
     and_then (lift (normalize (format_parsers (sv_env V)) (src_type s) content)) (\<lambda>t.
       let chunks = chunks_of t
       in and_then (each (passage_row (sv_env V) (src_id s))
            (filter (\<lambda>(seq, c). text_hash (sv_env V) (ch_text c) \<notin> set stored_hashes) (enumerate 0 chunks))) (\<lambda>ps.
          and_then (tx (map AddPassage ps @ [UpdSource (src_id s) (\<lambda>x. x\<lparr>src_status := NORMALIZED\<rparr>)])) (\<lambda>_.
          ret (length chunks)))))"

definition run_store :: "pipeline_services \<Rightarrow> uuid \<Rightarrow> stage_result prog" where
  "run_store B i =
     and_then (fetch_db (\<lambda>d. filter (\<lambda>s. src_run s = i \<and> src_status s = FETCHED) (sources d))) (\<lambda>srcs.
     if srcs = [] then ret (stage_done ''store'' [(''passages'', JInt 0)])
     else
       and_then (fetch_db (\<lambda>d. map p_hash (run_passages (map src_id srcs) d))) (\<lambda>stored_hashes.
       and_then (each (store_source (bn_services B) stored_hashes) srcs) (\<lambda>counts.
       ret (stage_done ''store'' [(''passages'', jcount (sum_list counts))]))))"

section \<open>Extract and verify\<close>

definition max_extract_passages :: nat where "max_extract_passages = 10"
definition extract_delay_seconds :: int where "extract_delay_seconds = 5"
definition max_verify :: nat where "max_verify = 25"

definition run_extract :: "pipeline_services \<Rightarrow> uuid \<Rightarrow> stage_result prog" where
  "run_extract B i =
     and_then (fetch_db (\<lambda>d. map src_id (filter (\<lambda>s. src_run s = i \<and> src_status s = NORMALIZED) (sources d)))) (\<lambda>source_ids.
     if source_ids = [] then ret (stage_done ''extract'' [(''statements'', JInt 0)])
     else
       and_then (fetch_db (run_passages source_ids)) (\<lambda>all_passages.
       and_then (fetch_db (\<lambda>d. map (\<lambda>s. (s_passage s, s_text s)) (filter (\<lambda>s. s_run s = i) (statements d)))) (\<lambda>existing.
         let ps = take max_extract_passages all_passages;
             skipped = 0 - int (length ps)      \<comment> \<open>the second \<open>list(all_passages)\<close> finds the result consumed\<close>
         in and_then (paced extract_delay_seconds True (\<lambda>p.
              if (p_id p, p_text p) \<in> set existing then ret 0
              else and_then (extract_run (bn_services B) p i) (\<lambda>rows. ret (length rows))) ps) (\<lambda>counts.
            ret (stage_done ''extract'' ((''statements'', jcount (sum_list counts)) #
              (if skipped \<noteq> 0 then [(''skipped_passages'', JInt skipped)] else [])))))))"

definition run_verify :: "pipeline_services \<Rightarrow> uuid \<Rightarrow> stage_result prog" where
  "run_verify B i =
     and_then (fetch_db (\<lambda>d. run_passages (map src_id (filter (\<lambda>s. src_run s = i) (sources d))) d)) (\<lambda>ps.
     and_then (fetch_db (run_statements i DRAFT)) (\<lambda>all_drafts.
       let drafts = take max_verify all_drafts; skipped = length all_drafts - length drafts
       in and_then (paced 5 True (\<lambda>s. case find (\<lambda>p. p_id p = s_passage s) ps of
              None \<Rightarrow> ret 0
            | Some p \<Rightarrow> and_then (verify (bn_services B) s p i False) (\<lambda>_. ret (1 :: nat))) drafts) (\<lambda>counts.
          ret (stage_done ''verify'' ((''verified'', jcount (sum_list counts)) #
            (if skipped \<noteq> 0 then [(''skipped'', jcount skipped)] else []))))))"

section \<open>Find\<close>

definition best_score :: "uuid \<Rightarrow> evidence_link list \<Rightarrow> evidence_score" where
  "best_score sid ls =
     foldl (\<lambda>best l. if l_statement l = sid \<and> l_method l = ''verify'' \<and> score_rank best < score_rank (l_score l) then l_score l else best)
       NONE ls"

fun add_to_group :: "string \<Rightarrow> 'a \<Rightarrow> (string \<times> 'a list) list \<Rightarrow> (string \<times> 'a list) list" where
  \<comment> \<open>\<open>groups.setdefault(key, []).append(x)\<close>\<close>
  "add_to_group k x [] = [(k, [x])]"
| "add_to_group k x ((k', xs) # groups) =
     (if k' = k then (k', xs @ [x]) # groups else (k', xs) # add_to_group k x groups)"

definition finding_domain :: "env \<Rightarrow> source list \<Rightarrow> passage \<Rightarrow> string result" where
  "finding_domain E srcs p =
     (let uri = (case find (\<lambda>s. src_id s = p_source p) srcs of None \<Rightarrow> [] | Some s \<Rightarrow> src_uri s)
      in result_bind (url_hostname (brackets_ok E) uri) (\<lambda>_.
         Inr (if url_netloc uri \<noteq> [] then url_netloc uri else ''unknown'')))"

fun group_by_domain :: "env \<Rightarrow> source list \<Rightarrow> passage list \<Rightarrow> (string \<times> statement list) list \<Rightarrow> statement list \<Rightarrow>
    (string \<times> statement list) list result" where
  "group_by_domain E srcs ps groups [] = Inr groups"
| "group_by_domain E srcs ps groups (s # ss) =
     (case find (\<lambda>p. p_id p = s_passage s) ps of
        None \<Rightarrow> group_by_domain E srcs ps groups ss
      | Some p \<Rightarrow> result_bind (finding_domain E srcs p) (\<lambda>k. group_by_domain E srcs ps (add_to_group k s groups) ss))"

definition tier_of :: "evidence_link list \<Rightarrow> statement list \<Rightarrow> string" where
  "tier_of ls ss =
     (let scores = map (\<lambda>s. best_score (s_id s) ls) ss
      in if FULL \<in> set scores then ''t1'' else if PARTIAL \<in> set scores then ''t2'' else ''t3'')"

definition save_finding :: "uuid \<Rightarrow> evidence_link list \<Rightarrow> string \<times> statement list \<Rightarrow> finding prog" where
  "save_finding i ls g = (case g of (k, ss) \<Rightarrow>
     and_then uuid4 (\<lambda>fid.
       let row = \<lparr>f_id = fid, f_run = i, f_title = ''Evidence cluster: '' @ k, f_tier = tier_of ls ss, f_tags = [k],
                  f_summary = Some (str_int (int (length ss)) @ '' verified statement(s) from '' @ k), f_confidence = None\<rparr>
       in and_then (tx (AddFinding row # map (\<lambda>s. AddFindingStatement fid (s_id s)) ss)) (\<lambda>_. ret row)))"

definition run_find :: "pipeline_services \<Rightarrow> uuid \<Rightarrow> stage_result prog" where
  "run_find B i =
     and_then (fetch_db (\<lambda>d. filter (\<lambda>s. src_run s = i) (sources d))) (\<lambda>srcs.
     and_then (fetch_db (run_passages (map src_id srcs))) (\<lambda>ps.
     and_then (fetch_db (run_statements i VERIFIED)) (\<lambda>ss.
     and_then (fetch_db (\<lambda>d. filter (\<lambda>l. l_run l = i) (links d))) (\<lambda>ls.
     and_then (lift (group_by_domain (sv_env (bn_services B)) srcs ps [] ss)) (\<lambda>groups.
     and_then (each (save_finding i ls) groups) (\<lambda>rows.
     ret (stage_done ''find'' [(''findings'', jcount (length rows))])))))))"

section \<open>Detect and conclude\<close>

definition max_detect_statements :: nat where "max_detect_statements = 15"

definition run_detect :: "pipeline_services \<Rightarrow> uuid \<Rightarrow> stage_result prog" where
  "run_detect B i =
     and_then (fetch_db (run_statements i VERIFIED)) (\<lambda>verified.
     and_then (detect (bn_services B) (take max_detect_statements verified) i) (\<lambda>rows.
     ret (stage_done ''detect'' ((''contradictions'', jcount (length rows)) #
       (if max_detect_statements < length verified then [(''capped_from'', jcount (length verified))] else [])))))"

definition max_conclude_statements :: nat where "max_conclude_statements = 30"

definition run_conclude :: "pipeline_services \<Rightarrow> uuid \<Rightarrow> stage_result prog" where
  "run_conclude B i =
     (let V = bn_services B; E = sv_env V
      in and_then (require_run i) (\<lambda>run.
         and_then (fetch_db (\<lambda>d. take max_conclude_statements (run_statements i VERIFIED d))) (\<lambda>verified.
         and_then (fetch_db (\<lambda>d. filter (\<lambda>c. c_run c = i \<and> c_status c = CONFIRMED) (contradictions d))) (\<lambda>confirmed.
         and_then (generate V i (r_question run) verified confirmed) (\<lambda>rep.
         let markdown_ref = ''runs/'' @ str_uuid i @ ''/reports/report.md''
         in and_then (blob_put markdown_ref (utf8_encode (utf8 E) (render_markdown E rep))) (\<lambda>_.
            ret (stage_done ''conclude'' [(''report'', render_json E rep), (''report_markdown_ref'', JStr markdown_ref),
              (''conclusions'', jcount (length (rep_conclusions rep))), (''contradictions'', jcount (length confirmed))])))))))"

section \<open>Trace\<close>

definition trace_ttl_seconds :: int where "trace_ttl_seconds = 30 * 24 * 60 * 60"

definition trace_row :: "env \<Rightarrow> audit_row \<Rightarrow> json" where
  "trace_row E row = redact_json (JObj [(''id'', JStr (str_uuid (a_id row))), (''entity_type'', JStr (a_entity_type row)),
     (''entity_id'', jopt JStr (a_entity_id row)), (''action'', JStr (a_action row)), (''actor'', jopt JStr (a_actor row)),
     (''decision'', jopt JStr (a_decision row)), (''reason'', jopt JStr (a_reason row)), (''evidence'', jopt id (a_evidence row)),
     (''ts'', JStr (isoformat E (a_ts row)))])"

definition trace_key :: "uuid \<Rightarrow> string" where
  "trace_key i = ''trace:'' @ str_uuid i"

definition trace_payload :: "env \<Rightarrow> uuid \<Rightarrow> string \<Rightarrow> audit_row list \<Rightarrow> json option \<Rightarrow> json" where
  "trace_payload E i question rows report = JObj [(''run_id'', JStr (str_uuid i)),
     (''question'', redact_json (JStr question)), (''audit_trace'', JList (map (trace_row E) rows)),
     (''report'', jopt id report)]"

definition checkpoint_report :: "json option \<Rightarrow> json option result" where
  \<comment> \<open>\<open>(conclude_cp or {}).get(report)\<close>\<close>
  "checkpoint_report state =
     (if \<not> jtruthy state then Inr None
      else if is_object (the state) then Inr (jget ''report'' (the state))
      else Inl (OtherError ''the checkpoint has no attribute get''))"

definition finish_run :: "time \<Rightarrow> run \<Rightarrow> run" where
  "finish_run t r = r\<lparr>r_stage := Some ''done'', r_status := ''completed'', r_progress := 1, r_completed := Some t\<rparr>"

definition run_trace :: "pipeline_services \<Rightarrow> uuid \<Rightarrow> stage_result prog" where
  "run_trace B i =
     (let E = sv_env (bn_services B)
      in and_then (require_run i) (\<lambda>run.
         and_then (fetch_db (\<lambda>d. filter (\<lambda>a. a_run a = i) (audit d))) (\<lambda>rows.
         and_then (cp_load i ''conclude'') (\<lambda>conclude_cp.
         and_then (lift (checkpoint_report conclude_cp)) (\<lambda>report.
         and_then (kv_set (trace_key i) ''pipeline/trace'' ''trace-stage'' (trace_payload E i (r_question run) rows report)
            (Some trace_ttl_seconds)) (\<lambda>_.
         and_then (reads w_now) (\<lambda>t.
         and_then (tx [UpdRun i (finish_run t)]) (\<lambda>_.
         ret (stage_done ''trace'' [(''artifact'', JStr (trace_key i))])))))))))"

definition stage_task :: "pipeline_services \<Rightarrow> uuid \<Rightarrow> string \<Rightarrow> stage_result prog" where
  \<comment> \<open>\<open>_STAGE_TASKS[stage]\<close>\<close>
  "stage_task B i stage =
     (case map_of [(''define'', run_define B i), (''search'', run_search B i), (''collect'', run_collect B i),
        (''store'', run_store B i), (''extract'', run_extract B i), (''verify'', run_verify B i), (''find'', run_find B i),
        (''detect'', run_detect B i), (''conclude'', run_conclude B i), (''trace'', run_trace B i)] stage of
        Some task \<Rightarrow> task
      | None \<Rightarrow> throw (KeyErr stage))"

text \<open>Programs are evaluated only when they meet a world.\<close>

lemmas stages_code [code] =
  require_run_def [THEN fun_cong] run_define_def [THEN fun_cong] run_search_def [THEN fun_cong]
  record_source_def [THEN fun_cong] store_fetched_def [THEN fun_cong] fetch_and_store_def [THEN fun_cong]
  collect_one_def [THEN fun_cong] run_collect_def [THEN fun_cong] store_source_def [THEN fun_cong]
  run_store_def [THEN fun_cong] run_extract_def [THEN fun_cong] run_verify_def [THEN fun_cong]
  save_finding_def [THEN fun_cong] run_find_def [THEN fun_cong] run_detect_def [THEN fun_cong]
  run_conclude_def [THEN fun_cong] run_trace_def [THEN fun_cong] stage_task_def [THEN fun_cong]
  paced.simps [THEN fun_cong] collect_uris.simps [THEN fun_cong]

section \<open>What the stages change\<close>

context db_preorder
begin

lemma outcome_of_keeps [keeps_rules]: "keeps Q p \<Longrightarrow> keeps Q (outcome_of p)"
  unfolding keeps_def outcome_of_def by (auto split: prod.split) (metis snd_conv)

lemma paced_keeps [keeps_rules]: "(\<And>x. keeps Q (f x)) \<Longrightarrow> keeps Q (paced delay first f xs)"
proof (induction xs arbitrary: first)
  case Nil
  show ?case unfolding paced.simps by (rule keeps_rules)
next
  case (Cons x xs)
  show ?case unfolding paced.simps by (intro keeps_rules Cons)
qed

lemma keeps_exn [keeps_rules]:
  assumes "\<And>m. keeps Q (f1 m)" "\<And>m. keeps Q (f2 m)" "\<And>m. keeps Q (f3 m)" "\<And>m. keeps Q (f4 m)" "\<And>m. keeps Q (f5 m)" "\<And>m. keeps Q (f6 m)" "\<And>m. keeps Q (f7 m)" "\<And>m. keeps Q (f8 m)"
    "\<And>m. keeps Q (f9 m)" "\<And>m. keeps Q (f10 m)" "\<And>m. keeps Q (f11 m)" "\<And>m. keeps Q (f12 m)" "\<And>m. keeps Q (f13 m)" "\<And>m. keeps Q (f14 m)" "\<And>m. keeps Q (f15 m)" "\<And>m. keeps Q (f16 m)"
    "\<And>m. keeps Q (f17 m)" "\<And>m. keeps Q (f18 m)" "\<And>m. keeps Q (f19 m)" "\<And>m. keeps Q (f20 m)" "\<And>m. keeps Q (f21 m)" "\<And>n m. keeps Q (f22 n m)" "\<And>m. keeps Q (f23 m)"
  shows "keeps Q (case_exn f1 f2 f3 f4 f5 f6 f7 f8 f9 f10 f11 f12 f13 f14 f15 f16 f17 f18 f19 f20 f21 f22 f23 e)"
  using assms by (cases e) simp_all

lemma require_run_keeps [keeps_rules]: "keeps Q (require_run i)"
  unfolding require_run_def by (intro keeps_rules)

end

context db_relation
begin

lemma record_source_keeps [keeps_rules]: "keeps Q (record_source i u t s al h rr ac de re)"
  unfolding record_source_def by (intro keeps_rules)

lemma store_fetched_keeps [keeps_rules]: "keeps Q (store_fetched V i u seen f)"
  unfolding store_fetched_def Let_def by (intro keeps_rules)

lemma fetch_and_store_keeps [keeps_rules]: "keeps Q (fetch_and_store V i u seen)"
  unfolding fetch_and_store_def by (intro keeps_rules)

lemma collect_one_keeps [keeps_rules]: "keeps Q (collect_one V i u seen)"
  unfolding collect_one_def by (intro keeps_rules)

lemma collect_uris_keeps [keeps_rules]: "keeps Q (collect_uris V i ex seen us)"
proof (induction us arbitrary: seen)
  case Nil
  show ?case unfolding collect_uris.simps by (rule keeps_rules)
next
  case (Cons u us)
  show ?case unfolding collect_uris.simps by (intro keeps_rules Cons)
qed

lemma save_finding_keeps [keeps_rules]: "keeps Q (save_finding i ls g)"
  unfolding save_finding_def Let_def by (intro keeps_rules)

lemma store_source_keeps [keeps_rules]: "keeps Q (store_source V hs s)"
  unfolding store_source_def Let_def by (intro keeps_rules)

lemma stage_keeps:
  "keeps Q (run_define B i)" "keeps Q (run_search B i)" "keeps Q (run_collect B i)" "keeps Q (run_store B i)"
  "keeps Q (run_extract B i)" "keeps Q (run_verify B i)" "keeps Q (run_find B i)" "keeps Q (run_detect B i)"
  "keeps Q (run_conclude B i)" "keeps Q (run_trace B i)"
  unfolding run_define_def run_search_def run_collect_def run_store_def run_extract_def run_verify_def run_find_def
    run_detect_def run_conclude_def run_trace_def Let_def
  by (intro keeps_rules)+

lemma stage_task_keeps [keeps_rules]: "keeps Q (stage_task B i stage)"
  unfolding stage_task_def by (simp add: stage_keeps keeps_rules)

end

end
