(* ===== verification/Outside.thy ===== *)
theory Outside
  imports Stages
begin

text \<open>
  What the pipeline does to the world outside the database: the blob store, the network and the
  emitted events. \<open>abides R p\<close> says that program \<open>p\<close>, finished or failed, relates
  the worlds before and after by \<open>R\<close>. The locale \<open>outside_relation\<close> states what a
  relation must allow (storing a blob, a fetch, anything that leaves the outside alone), and the
  stage tasks are shown to respect every such relation.
\<close>

named_theorems abides_rules \<open>programs relate the worlds before and after\<close>

section \<open>Relations between worlds\<close>

definition outside :: "world \<Rightarrow> (string \<Rightarrow> bytes option) \<times> string list \<times> (string \<times> json) list" where
  "outside w = (w_blobs w, w_requests w, w_events w)"

lemma outside_simps [simp]:
  "outside (w\<lparr>w_db := d\<rparr>) = outside w" "outside (w\<lparr>w_now := t\<rparr>) = outside w" "outside (w\<lparr>w_next := i\<rparr>) = outside w"
  "outside (w\<lparr>w_stamps := ts\<rparr>) = outside w" "outside (w\<lparr>w_sent := xs\<rparr>) = outside w" "outside (w\<lparr>w_last_fetch := f\<rparr>) = outside w"
  by (simp_all add: outside_def)

definition abides :: "(world \<Rightarrow> world \<Rightarrow> bool) \<Rightarrow> 'a prog \<Rightarrow> bool" where
  "abides R p \<longleftrightarrow> (\<forall>w. R w (snd (p w)))"

lemma abidesD: "abides R p \<Longrightarrow> p w = (r, w') \<Longrightarrow> R w w'"
  unfolding abides_def by (metis snd_conv)

locale outside_preorder =
  fixes R :: "world \<Rightarrow> world \<Rightarrow> bool"
  assumes R_same: "outside w' = outside w \<Longrightarrow> R w w'" and R_trans: "R a b \<Longrightarrow> R b c \<Longrightarrow> R a c"
begin

lemma same_outside: "(\<And>w. outside (snd (p w)) = outside w) \<Longrightarrow> abides R p"
  by (simp add: abides_def R_same)

lemma abides_basic [abides_rules]:
  "abides R (ret x)" "abides R (throw e)" "abides R (lift r)" "abides R (reads g)" "abides R (fetch_db h)"
  "abides R uuid4" "abides R (sleep t)" "abides R (guard b e)" "abides R (tx cs)"
  by (rule same_outside; simp add: guard_def tx_def split: sum.split)+

lemma abides_and_then [abides_rules]:
  assumes "abides R p" and "\<And>x. abides R (f x)"
  shows "abides R (and_then p f)"
  unfolding abides_def
proof
  fix w
  obtain r w' where p: "p w = (r, w')" by fastforce
  have "R w w'" using abidesD [OF assms(1) p] .
  moreover have "R w' (snd (f x w'))" for x using assms(2) unfolding abides_def by blast
  ultimately show "R w (snd (and_then p f w))" using p R_trans by (cases r) (auto simp: and_then_def)
qed

lemma abides_attempt [abides_rules]:
  assumes "abides R p" and "\<And>e. abides R (h e)"
  shows "abides R (attempt p h)"
  unfolding abides_def
proof
  fix w
  obtain r w' where p: "p w = (r, w')" by fastforce
  have "R w w'" using abidesD [OF assms(1) p] .
  moreover have "R w' (snd (h e w'))" for e using assms(2) unfolding abides_def by blast
  ultimately show "R w (snd (attempt p h w))" using p R_trans by (cases r) (auto simp: attempt_def)
qed

lemma abides_outcome [abides_rules]: "abides R p \<Longrightarrow> abides R (outcome_of p)"
  by (auto simp: abides_def outcome_of_def split: prod.split) (metis snd_conv)

lemma abides_each [abides_rules]: "(\<And>x. abides R (f x)) \<Longrightarrow> abides R (each f xs)"
  by (induction xs) (auto intro!: abides_rules)

lemma abides_cases [abides_rules]:
  "abides R p \<Longrightarrow> abides R q \<Longrightarrow> abides R (if b then p else q)"
  "abides R p \<Longrightarrow> (\<And>x. abides R (f x)) \<Longrightarrow> abides R (case v of None \<Rightarrow> p | Some x \<Rightarrow> f x)"
  "(\<And>e. abides R (g e)) \<Longrightarrow> (\<And>x. abides R (f x)) \<Longrightarrow> abides R (case s of Inl e \<Rightarrow> g e | Inr x \<Rightarrow> f x)"
  "(\<And>a b. abides R (h a b)) \<Longrightarrow> abides R (case ab of (a, b) \<Rightarrow> h a b)"
  "(\<And>x. abides R (f x)) \<Longrightarrow> abides R (Let y f)"
  "(\<And>m. abides R (fm m)) \<Longrightarrow> (\<And>t. abides R (ft t)) \<Longrightarrow> abides R (case d of RText t \<Rightarrow> ft t | RModel m \<Rightarrow> fm m)"
  by (cases v; cases s; cases ab; cases d; simp)+

lemma abides_exn [abides_rules]:
  assumes "\<And>m. abides R (f1 m)" "\<And>m. abides R (f2 m)" "\<And>m. abides R (f3 m)" "\<And>m. abides R (f4 m)" "\<And>m. abides R (f5 m)" "\<And>m. abides R (f6 m)" "\<And>m. abides R (f7 m)" "\<And>m. abides R (f8 m)"
    "\<And>m. abides R (f9 m)" "\<And>m. abides R (f10 m)" "\<And>m. abides R (f11 m)" "\<And>m. abides R (f12 m)" "\<And>m. abides R (f13 m)" "\<And>m. abides R (f14 m)" "\<And>m. abides R (f15 m)" "\<And>m. abides R (f16 m)"
    "\<And>m. abides R (f17 m)" "\<And>m. abides R (f18 m)" "\<And>m. abides R (f19 m)" "\<And>m. abides R (f20 m)" "\<And>m. abides R (f21 m)" "\<And>n m. abides R (f22 n m)" "\<And>m. abides R (f23 m)"
  shows "abides R (case_exn f1 f2 f3 f4 f5 f6 f7 f8 f9 f10 f11 f12 f13 f14 f15 f16 f17 f18 f19 f20 f21 f22 f23 e)"
  using assms by (cases e) simp_all

lemma abides_paced [abides_rules]: "(\<And>x. abides R (f x)) \<Longrightarrow> abides R (paced t b f xs)"
proof (induction xs arbitrary: b)
  case Nil
  show ?case unfolding paced.simps by (rule abides_rules)
next
  case (Cons x xs)
  show ?case unfolding paced.simps by (intro abides_rules Cons)
qed

end

section \<open>Services that leave the outside alone\<close>

lemma call_attempts_outside: "outside (snd (call_attempts E rq ds w)) = outside w"
proof (induction ds arbitrary: w)
  case Nil
  show ?case
    by (subst call_attempts.simps)
      (auto simp: provider_call_def stamp_call_def and_then_def Let_def split: sum.splits exn.splits if_splits)
next
  case (Cons d ds)
  show ?case
    by (subst call_attempts.simps, cases d)
      (auto simp: provider_call_def stamp_call_def and_then_def Let_def Cons split: sum.splits exn.splits if_splits)
qed

context outside_preorder
begin

lemma abides_store [abides_rules]:
  "abides R (kv_get key)" "abides R (kv_set key m h p ttl)" "abides R (kv_delete key)"
  "abides R (cp_save r s st)" "abides R (cp_load r s)" "abides R (completed_stages r)" "abides R (audit_append a)"
  unfolding kv_get_def kv_set_def kv_delete_def cp_save_def cp_load_def completed_stages_def audit_append_def Let_def
  by (intro abides_rules)+

lemma abides_call [abides_rules]: "abides R (call_with_rate_limit_retry E rq)"
proof -
  have "abides R (call_attempts E rq ds)" for ds by (rule same_outside) (rule call_attempts_outside)
  then show ?thesis unfolding call_with_rate_limit_retry_def by (intro abides_rules)
qed

lemma abides_record_call [abides_rules]: "abides R (record_call E m i c)"
  unfolding record_call_def Let_def by (intro abides_rules)

lemma abides_attempts: "gw_hooks G = [] \<Longrightarrow> abides R (attempts_loop E G a rm model base key ns)"
proof (induction ns)
  case Nil
  show ?case unfolding attempts_loop.simps by (rule abides_rules)
next
  case (Cons n ns)
  show ?case unfolding attempts_loop.simps Cons.prems run_hooks.simps by (intro abides_rules Cons)
qed

lemma abides_ask [abides_rules]: "abides R (ask V rm tier sys data i)"
  unfolding ask_def complete_def complete_uncached_def Let_def
  by (intro abides_rules abides_attempts build_gateway_simps)

lemma abides_planning [abides_rules]:
  "abides R (plan_run V topic i)" "abides R (draft_row p i x)" "abides R (new_link s pid i sc m)"
  unfolding plan_run_def draft_row_def new_link_def Let_def by (intro abides_rules)+

lemma abides_extract [abides_rules]: "abides R (extract_run V p i)"
  unfolding extract_run_def Let_def by (intro abides_rules)

lemma abides_judge [abides_rules]: "abides R (judge V s p i sc x)"
  unfolding judge_def Let_def by (intro abides_rules)

lemma abides_verify [abides_rules]: "abides R (verify V st pa i f)"
  unfolding verify_def Let_def by (intro abides_rules)

lemma abides_confirm [abides_rules]:
  "abides R (confirm V a b i)" "abides R (save_contradiction c r e)"
  unfolding confirm_def save_contradiction_def Let_def by (intro abides_rules)+

lemma abides_record_contradiction [abides_rules]: "abides R (record_contradiction i s t r e)"
  unfolding record_contradiction_def by (intro abides_rules)

lemma abides_pair [abides_rules]: "abides R (detect_pair V i p)"
  unfolding detect_pair_def Let_def by (intro abides_rules)

lemma abides_pairs [abides_rules]: "abides R (detect_pairs V i b ps)"
proof (induction ps arbitrary: b)
  case Nil
  show ?case unfolding detect_pairs.simps by (rule abides_rules)
next
  case (Cons p ps)
  show ?case unfolding detect_pairs.simps by (intro abides_rules Cons)
qed

lemma abides_detect [abides_rules]: "abides R (detect V ss i)"
  unfolding detect_def Let_def by (rule abides_rules)

lemma abides_draft [abides_rules]: "abides R (conclude_draft v s ds i draft)"
  unfolding conclude_draft_def Let_def by (intro abides_rules)

lemma abides_generate [abides_rules]: "abides R (generate V i topic ss cs)"
  unfolding generate_def Let_def by (intro abides_rules)

lemma abides_rows [abides_rules]:
  "abides R (passage_row E sid x)" "abides R (source_row i f t ty h rr st)" "abides R (blob_get V ref)"
proof -
  show "abides R (passage_row E sid x)" "abides R (source_row i f t ty h rr st)"
    unfolding passage_row_def source_row_def by (intro abides_rules)+
  show "abides R (blob_get V ref)" by (rule same_outside) (simp add: blob_get_def split: option.split)
qed

end

section \<open>The stage tasks\<close>

locale outside_relation = outside_preorder +
  fixes V :: services
  assumes R_put: "R w (snd (blob_put ref content w))" and R_fetch: "R w (snd (fetch V uri c w))"
begin

lemma abides_outside [abides_rules]: "abides R (blob_put ref content)" "abides R (fetch V uri c)"
  by (simp_all add: abides_def R_put R_fetch)

lemma abides_record_source [abides_rules]: "abides R (record_source i u t s al h rr ac de re)"
  unfolding record_source_def by (intro abides_rules)

lemma abides_store_fetched [abides_rules]: "abides R (store_fetched V i u seen f)"
  unfolding store_fetched_def Let_def by (intro abides_rules)

lemma abides_fetch_and_store [abides_rules]: "abides R (fetch_and_store V i u seen)"
  unfolding fetch_and_store_def by (intro abides_rules)

lemma abides_collect_one [abides_rules]: "abides R (collect_one V i u seen)"
  unfolding collect_one_def by (intro abides_rules)

lemma abides_collect_uris [abides_rules]: "abides R (collect_uris V i ex seen us)"
proof (induction us arbitrary: seen)
  case Nil
  show ?case unfolding collect_uris.simps by (rule abides_rules)
next
  case (Cons u us)
  show ?case unfolding collect_uris.simps by (intro abides_rules Cons)
qed

lemma abides_store_source [abides_rules]: "abides R (store_source V hs s)" "abides R (save_finding i ls g)"
  unfolding store_source_def save_finding_def Let_def by (intro abides_rules)+

lemma abides_require_run [abides_rules]: "abides R (require_run i)"
  unfolding require_run_def by (intro abides_rules)

lemma abides_stages:
  assumes "bn_services B = V"
  shows "abides R (run_define B i)" "abides R (run_search B i)" "abides R (run_collect B i)" "abides R (run_store B i)"
    "abides R (run_extract B i)" "abides R (run_verify B i)" "abides R (run_find B i)" "abides R (run_detect B i)"
    "abides R (run_conclude B i)" "abides R (run_trace B i)"
  unfolding run_define_def run_search_def run_collect_def run_store_def run_extract_def run_verify_def run_find_def
    run_detect_def run_conclude_def run_trace_def Let_def assms
  by (intro abides_rules)+

lemma abides_stage_task: "bn_services B = V \<Longrightarrow> abides R (stage_task B i stage)"
  unfolding stage_task_def by (simp add: abides_stages abides_rules)

end

section \<open>Three relations\<close>

definition blobs_kept :: "world \<Rightarrow> world \<Rightarrow> bool" where
  \<comment> \<open>no stored blob is lost or overwritten\<close>
  "blobs_kept w w' \<longleftrightarrow> w_blobs w \<subseteq>\<^sub>m w_blobs w'"

definition egress_admitted :: "services \<Rightarrow> world \<Rightarrow> world \<Rightarrow> bool" where
  \<comment> \<open>every new request is for a URI the allowlist admits\<close>
  "egress_admitted V w w' \<longleftrightarrow>
     (\<exists>new. w_requests w' = w_requests w @ new \<and>
        list_all (\<lambda>u. allowlist_check (brackets_ok (sv_env V)) (egress_domains V) u = Inr u) new)"

definition events_same :: "world \<Rightarrow> world \<Rightarrow> bool" where
  "events_same w w' \<longleftrightarrow> w_events w' = w_events w"

interpretation quiet: outside_preorder events_same
  by unfold_locales (auto simp: events_same_def outside_def)

lemma fetch_events: "abides events_same (fetch V uri c)"
proof -
  have "abides events_same (rate_limit V c)"
    by (simp add: abides_def events_same_def rate_limit_def Let_def split: option.split)
  moreover have "abides events_same (stamp_fetch c)"
    by (simp add: abides_def events_same_def stamp_fetch_def)
  moreover have "abides events_same (http_request V uri)"
    by (simp add: abides_def events_same_def http_request_def Let_def)
  ultimately show ?thesis
    unfolding fetch_def fetch_http_def fetch_file_def Let_def by (intro abides_rules)
qed

interpretation kept: outside_relation blobs_kept V for V
proof
  show "outside w' = outside w \<Longrightarrow> blobs_kept w w'" for w w' by (simp add: outside_def blobs_kept_def)
  show "blobs_kept a b \<Longrightarrow> blobs_kept b c \<Longrightarrow> blobs_kept a c" for a b c
    unfolding blobs_kept_def by (rule map_le_trans)
  show "blobs_kept w (snd (blob_put ref content w))" for ref content w
    unfolding blobs_kept_def map_le_def using blobs.keeps_value by fastforce
  show "blobs_kept w (snd (fetch V uri c w))" for uri c w
    using fetch_run [of V uri c w] by (cases "fetch V uri c w") (simp add: blobs_kept_def)
qed

interpretation egress: outside_relation "egress_admitted V" V for V
proof
  show "outside w' = outside w \<Longrightarrow> egress_admitted V w w'" for w w' by (simp add: outside_def egress_admitted_def)
  show "egress_admitted V a b \<Longrightarrow> egress_admitted V b c \<Longrightarrow> egress_admitted V a c" for a b c
    unfolding egress_admitted_def by (elim exE conjE) (rule exI, rule conjI, simp, simp)
  show "egress_admitted V w (snd (blob_put ref content w))" for ref content w
    by (simp add: egress_admitted_def blob_put_def)
  show "egress_admitted V w (snd (fetch V uri c w))" for uri c w
  proof (cases "fetch V uri c w")
    case (Pair r w')
    from fetch_run [OF this] have "w_requests w' = w_requests w \<or> w_requests w' = w_requests w @ [uri] \<and>
        allowlist_check (brackets_ok (sv_env V)) (egress_domains V) uri = Inr uri" by blast
    then have "egress_admitted V w w'"
      unfolding egress_admitted_def by (elim disjE) (intro exI [of _ "[]"] exI [of _ "[uri]"]; simp)+
    with Pair show ?thesis by simp
  qed
qed

interpretation silent: outside_relation events_same V for V
  using fetch_events by unfold_locales (auto simp: events_same_def outside_def blob_put_def abides_def)

end
