(* ===== verification/Flow.thy ===== *)
theory Flow
  imports Outside
begin

text \<open>
  The flows, \<open>app/pipeline/flows.py\<close>, and the lifecycle events, \<open>app/pipeline/events.py\<close>.
  An event is its name with the fields the logger receives. Gauges, histograms, tracing spans and
  the log of a tripped breaker are not modelled. \<open>lifecycle\<close> is the state machine the
  events of an execution follow.
\<close>

section \<open>Events\<close>

definition emit :: "uuid \<Rightarrow> string \<Rightarrow> (string \<times> json) list \<Rightarrow> unit prog" where
  "emit i event fs w =
     (Inr (), w\<lparr>w_events := w_events w @ [(event, JObj ([(''run_id'', JStr (str_uuid i)), (''correlation_id'', JStr (str_uuid i)),
        (''event'', JStr event)] @ map (\<lambda>(k, v). (k, redact_json v)) fs))]\<rparr>)"

definition emit_stage_started :: "uuid \<Rightarrow> string \<Rightarrow> json option \<Rightarrow> unit prog" where
  "emit_stage_started i stage detail = emit i ''stage_started'' [(''stage'', JStr stage), (''detail'', jopt id detail)]"

definition emit_stage_completed :: "uuid \<Rightarrow> string \<Rightarrow> bool \<Rightarrow> json option \<Rightarrow> unit prog" where
  "emit_stage_completed i stage ok detail =
     emit i ''stage_completed'' [(''stage'', JStr stage), (''ok'', JBool ok), (''detail'', jopt id detail)]"

definition emit_run_completed :: "uuid \<Rightarrow> json option \<Rightarrow> unit prog" where
  "emit_run_completed i detail = emit i ''run_completed'' [(''detail'', jopt id detail)]"

definition emit_run_paused :: "uuid \<Rightarrow> string \<Rightarrow> json option \<Rightarrow> unit prog" where
  "emit_run_paused i reason detail = emit i ''run_paused'' [(''reason'', JStr reason), (''detail'', jopt id detail)]"

definition emit_run_failed :: "uuid \<Rightarrow> string \<Rightarrow> json option \<Rightarrow> unit prog" where
  "emit_run_failed i error detail = emit i ''run_failed'' [(''error'', JStr error), (''detail'', jopt id detail)]"

section \<open>The flow\<close>

definition update_run :: "uuid \<Rightarrow> (run \<Rightarrow> run) \<Rightarrow> unit prog" where
  \<comment> \<open>load the run, change it if there is one, commit\<close>
  "update_run i f = and_then (fetch_db (run_lookup i)) (\<lambda>r. case r of None \<Rightarrow> ret () | Some _ \<Rightarrow> tx [UpdRun i f])"

definition mark_stage_start :: "uuid \<Rightarrow> string \<Rightarrow> unit prog" where
  "mark_stage_start i stage =
     and_then (require_run i) (\<lambda>_.
     case (STAGE_STATUS stage, STAGE_PROGRESS stage) of
       (Some status, Some progress) \<Rightarrow>
         tx [UpdRun i (\<lambda>r. r\<lparr>r_stage := Some stage, r_status := status, r_progress := progress\<rparr>)]
     | _ \<Rightarrow> throw (KeyErr stage))"

definition mark_checkpoint :: "uuid \<Rightarrow> unit prog" where
  "mark_checkpoint i =
     and_then (completed_stages i) (\<lambda>completed.
     update_run i (\<lambda>r. r\<lparr>r_checkpoint :=
       Some (JObj [(''completed_stages'', JList (map JStr (sorted_list_of_set completed)))])\<rparr>))"

definition check_breaker :: "pipeline_services \<Rightarrow> uuid \<Rightarrow> rat \<Rightarrow> string \<Rightarrow> unit prog" where
  "check_breaker B i run_budget stage =
     (if stage = last STAGES then ret ()
      else
        and_then (fetch_db (run_lookup i)) (\<lambda>run.
        lift (breaker_check (show_decimal (sv_env (bn_services B))) default_stage_fraction stage
          (case run of None \<Rightarrow> 0 | Some r \<Rightarrow> r_spent r) run_budget)))"

definition settle_stage :: "pipeline_services \<Rightarrow> uuid \<Rightarrow> rat \<Rightarrow> string \<Rightarrow> stage_result \<Rightarrow> unit prog" where
  \<comment> \<open>what follows the task of a stage\<close>
  "settle_stage B i run_budget stage result =
     and_then (guard (sr_ok result) (RuntimeErr (''stage '' @ quoted stage @ '' reported failure''))) (\<lambda>_.
     and_then (cp_save i stage (sr_detail result)) (\<lambda>_.
     and_then (mark_checkpoint i) (\<lambda>_.
     and_then (emit_stage_completed i stage True (sr_detail result)) (\<lambda>_.
     check_breaker B i run_budget stage))))"

definition run_stage :: "pipeline_services \<Rightarrow> uuid \<Rightarrow> rat \<Rightarrow> string \<Rightarrow> unit prog" where
  \<comment> \<open>one round of the loop for a stage without a checkpoint\<close>
  "run_stage B i run_budget stage =
     and_then (mark_stage_start i stage) (\<lambda>_.
     and_then (emit_stage_started i stage None) (\<lambda>_.
     and_then (stage_task B i stage) (settle_stage B i run_budget stage)))"

fun run_stages :: "pipeline_services \<Rightarrow> uuid \<Rightarrow> rat \<Rightarrow> string set \<Rightarrow> string list \<Rightarrow> unit prog" where
  "run_stages B i run_budget completed [] = ret ()"
| "run_stages B i run_budget completed (stage # stages) =
     (if stage \<in> completed then run_stages B i run_budget completed stages
      else and_then (run_stage B i run_budget stage) (\<lambda>_. run_stages B i run_budget completed stages))"

definition pause_run :: "uuid \<Rightarrow> string \<Rightarrow> string prog" where
  "pause_run i reason =
     and_then (update_run i (\<lambda>r. r\<lparr>r_status := ''paused''\<rparr>)) (\<lambda>_.
     and_then (emit_run_paused i reason None) (\<lambda>_. ret ''paused''))"

definition failure_audit :: "uuid \<Rightarrow> uuid \<Rightarrow> time \<Rightarrow> string \<Rightarrow> audit_row" where
  "failure_audit a i t reason = \<lparr>a_id = a, a_run = i, a_entity_type = ''run'', a_entity_id = Some (str_uuid i),
     a_action = ''run.failed'', a_actor = Some ''pipeline'', a_decision = Some ''failed'',
     a_reason = Some (take 2000 (redact_secrets reason)), a_evidence = None, a_ts = t\<rparr>"

definition mark_failed :: "uuid \<Rightarrow> string \<Rightarrow> unit prog" where
  "mark_failed i reason =
     and_then uuid4 (\<lambda>a. and_then (reads w_now) (\<lambda>t.
     tx [UpdRun i (\<lambda>r. r\<lparr>r_status := ''failed''\<rparr>), AddAudit (failure_audit a i t reason)]))"

definition fail_run :: "uuid \<Rightarrow> exn \<Rightarrow> 'a prog" where
  "fail_run i e =
     and_then (fetch_db (run_lookup i)) (\<lambda>run.
     and_then (case run of None \<Rightarrow> ret () | Some _ \<Rightarrow> mark_failed i (exn_message e)) (\<lambda>_.
     and_then (emit_run_failed i (exn_message e) None) (\<lambda>_.
     throw e)))"

definition execute_stages :: "pipeline_services \<Rightarrow> uuid \<Rightarrow> string prog" where
  "execute_stages B i =
     and_then (completed_stages i) (\<lambda>completed.
     and_then (require_run i) (\<lambda>run.
     and_then (outcome_of (run_stages B i (r_budget run) completed STAGES)) (\<lambda>r.
     case r of
       Inl (CircuitBreakerError reason) \<Rightarrow> pause_run i reason
     | Inl e \<Rightarrow> fail_run i e
     | Inr _ \<Rightarrow> and_then (emit_run_completed i None) (\<lambda>_. ret ''completed''))))"

definition research_pipeline :: "(settings \<Rightarrow> services) \<Rightarrow> settings \<Rightarrow> uuid \<Rightarrow> pipeline_services option \<Rightarrow> string prog" where
  "research_pipeline surroundings S i given =
     and_then (case given of Some B \<Rightarrow> ret B | None \<Rightarrow> lift (build_pipeline_services surroundings S)) (\<lambda>B.
     execute_stages B i)"

definition resume_pipeline :: "(settings \<Rightarrow> services) \<Rightarrow> settings \<Rightarrow> uuid \<Rightarrow> pipeline_services option \<Rightarrow> string prog" where
  "resume_pipeline surroundings S i given =
     and_then (case given of Some B \<Rightarrow> ret B | None \<Rightarrow> lift (build_pipeline_services surroundings S)) (\<lambda>B.
     research_pipeline surroundings S i (Some B))"

text \<open>Programs are evaluated only when they meet a world.\<close>

lemmas flow_code [code] =
  update_run_def [THEN fun_cong] mark_stage_start_def [THEN fun_cong] mark_checkpoint_def [THEN fun_cong]
  emit_stage_started_def [THEN fun_cong] emit_stage_completed_def [THEN fun_cong] emit_run_completed_def [THEN fun_cong]
  emit_run_paused_def [THEN fun_cong] emit_run_failed_def [THEN fun_cong]
  check_breaker_def [THEN fun_cong] settle_stage_def [THEN fun_cong] run_stage_def [THEN fun_cong] run_stages.simps [THEN fun_cong] pause_run_def [THEN fun_cong]
  mark_failed_def [THEN fun_cong] fail_run_def [THEN fun_cong] execute_stages_def [THEN fun_cong]
  research_pipeline_def [THEN fun_cong] resume_pipeline_def [THEN fun_cong]

section \<open>What the flow changes\<close>

lemma emit_db [simp]: "w_db (snd (emit i event fs w)) = w_db w"
  by (simp add: emit_def)

context db_relation
begin

lemma emit_keeps [keeps_rules]:
  "keeps Q (emit i event fs)" "keeps Q (emit_stage_started i stage d)" "keeps Q (emit_stage_completed i stage b d)"
  "keeps Q (emit_run_completed i d)" "keeps Q (emit_run_paused i m d)" "keeps Q (emit_run_failed i m d)"
  unfolding emit_stage_started_def emit_stage_completed_def emit_run_completed_def emit_run_paused_def emit_run_failed_def
  by (rule same_db; simp)+

lemma flow_steps_keep [keeps_rules]:
  "keeps Q (update_run i f)" "keeps Q (mark_failed i m)"
  unfolding update_run_def mark_failed_def by (intro keeps_rules)+

lemma mark_keeps [keeps_rules]:
  "keeps Q (mark_stage_start i stage)" "keeps Q (mark_checkpoint i)" "keeps Q (pause_run i m)" "keeps Q (fail_run i e)"
  unfolding mark_stage_start_def mark_checkpoint_def pause_run_def fail_run_def prod.case_eq_if
  by (intro keeps_rules)+

lemma run_stage_keeps [keeps_rules]: "keeps Q (run_stage B i budget stage)"
  unfolding run_stage_def settle_stage_def check_breaker_def by (intro keeps_rules)

lemma run_stages_keep [keeps_rules]: "keeps Q (run_stages B i budget completed stages)"
proof (induction stages)
  case Nil
  show ?case unfolding run_stages.simps by (rule keeps_rules)
next
  case (Cons s ss)
  show ?case unfolding run_stages.simps by (intro keeps_rules Cons)
qed

lemma execute_keeps [keeps_rules]: "keeps Q (execute_stages B i)"
  unfolding execute_stages_def by (intro keeps_rules)

lemma pipeline_keeps [keeps_rules]:
  "keeps Q (research_pipeline env S i given)" "keeps Q (resume_pipeline env S i given)"
  unfolding resume_pipeline_def research_pipeline_def by (intro keeps_rules)+

end

context outside_relation
begin

lemma abides_marks [abides_rules]:
  "abides R (update_run i f)" "abides R (mark_failed i m)" "abides R (mark_stage_start i stage)"
  unfolding update_run_def mark_failed_def mark_stage_start_def prod.case_eq_if by (intro abides_rules)+

lemma abides_mark_checkpoint [abides_rules]: "abides R (mark_checkpoint i)"
  unfolding mark_checkpoint_def by (intro abides_rules)

end

locale flow_relation = outside_relation +
  assumes R_emit: "R w (w\<lparr>w_events := es\<rparr>)"
begin

lemma abides_emit [abides_rules]:
  "abides R (emit i event fs)" "abides R (emit_stage_started i stage d)" "abides R (emit_stage_completed i stage b d)"
  "abides R (emit_run_completed i d)" "abides R (emit_run_paused i m d)" "abides R (emit_run_failed i m d)"
  unfolding emit_stage_started_def emit_stage_completed_def emit_run_completed_def emit_run_paused_def emit_run_failed_def
  by (simp_all add: abides_def emit_def R_emit)

lemma abides_ends [abides_rules]: "abides R (pause_run i m)" "abides R (fail_run i e)"
  unfolding pause_run_def fail_run_def by (intro abides_rules)+

lemma abides_run_stages: "bn_services B = V \<Longrightarrow> abides R (run_stages B i budget completed stages)"
proof (induction stages)
  case Nil
  show ?case unfolding run_stages.simps by (rule abides_rules)
next
  case (Cons s ss)
  show ?case unfolding run_stages.simps run_stage_def settle_stage_def check_breaker_def
    by (intro abides_rules abides_stage_task Cons)
qed

lemma abides_execute: "bn_services B = V \<Longrightarrow> abides R (execute_stages B i)"
  unfolding execute_stages_def by (intro abides_rules abides_run_stages)

end

interpretation kept_flow: flow_relation blobs_kept V for V
  by unfold_locales (simp add: blobs_kept_def)

interpretation egress_flow: flow_relation "egress_admitted V" V for V
  by unfold_locales (simp add: egress_admitted_def)

section \<open>The lifecycle of an execution\<close>

datatype flow_event = Started string | Finished string | Run_Completed | Run_Paused | Run_Failed

datatype flow_state = Idle "string list" | Busy string "string list" | Closed string

inductive flow_step :: "flow_state \<Rightarrow> flow_event \<Rightarrow> flow_state \<Rightarrow> bool" where
  start: "flow_step (Idle (s # ss)) (Started s) (Busy s ss)"
| finish: "flow_step (Busy s ss) (Finished s) (Idle ss)"
| complete: "flow_step (Idle []) Run_Completed (Closed ''completed'')"
| pause: "flow_step (Idle ss) Run_Paused (Closed ''paused'')"
| pause_busy: "flow_step (Busy s ss) Run_Paused (Closed ''paused'')"
| fail: "flow_step (Idle ss) Run_Failed (Closed ''failed'')"
| fail_busy: "flow_step (Busy s ss) Run_Failed (Closed ''failed'')"

code_pred flow_step .

inductive flow_trace :: "flow_state \<Rightarrow> flow_event list \<Rightarrow> flow_state \<Rightarrow> bool" where
  empty: "flow_trace q [] q"
| more: "flow_step q e q' \<Longrightarrow> flow_trace q' es q'' \<Longrightarrow> flow_trace q (e # es) q''"

inductive_simps flow_step_simps [simp]:
  "flow_step (Idle ss) e q" "flow_step (Busy s ss) e q" "flow_step (Closed c) e q"

inductive_simps flow_trace_simps [simp]:
  "flow_trace q [] q'" "flow_trace q (e # es) q'"

lemma flow_trace_append: "flow_trace q es q' \<Longrightarrow> flow_trace q' es' q'' \<Longrightarrow> flow_trace q (es @ es') q''"
  by (induction rule: flow_trace.induct) (auto intro: flow_trace.intros)

lemma closed_is_final: "flow_trace (Closed c) es q \<longleftrightarrow> es = [] \<and> q = Closed c"
  by (cases es) auto

fun started_of :: "flow_event list \<Rightarrow> string list" where
  "started_of [] = []"
| "started_of (Started s # es) = s # started_of es"
| "started_of (_ # es) = started_of es"

fun finished_of :: "flow_event list \<Rightarrow> string list" where
  "finished_of [] = []"
| "finished_of (Finished s # es) = s # finished_of es"
| "finished_of (_ # es) = finished_of es"

fun owed :: "flow_state \<Rightarrow> string list" where
  \<comment> \<open>stages the state still has to start\<close>
  "owed (Idle ss) = ss" | "owed (Busy s ss) = ss" | "owed (Closed c) = []"

lemma trace_in_order:
  "flow_trace q es q' \<Longrightarrow> prefix (started_of es) (owed q) \<and>
     (case q of Idle _ \<Rightarrow> prefix (finished_of es) (started_of es)
      | Busy s _ \<Rightarrow> prefix (finished_of es) (s # started_of es) | Closed _ \<Rightarrow> finished_of es = []) \<and>
     (q' = Closed ''completed'' \<longrightarrow> (case q of Idle ss \<Rightarrow> started_of es = ss \<and> finished_of es = ss
      | Busy s ss \<Rightarrow> started_of es = ss \<and> finished_of es = s # ss | Closed _ \<Rightarrow> True))"
proof (induction rule: flow_trace.induct)
  case (empty q)
  then show ?case by (cases q) auto
next
  case (more q e q' es q'')
  from more(1) more(2,3) show ?case by (cases rule: flow_step.cases) (auto simp: closed_is_final)
qed

section \<open>Executions follow the lifecycle\<close>

definition flow_event_of :: "string \<times> json \<Rightarrow> flow_event" where
  "flow_event_of x = (case x of (name, payload) \<Rightarrow>
     let stage = (case jget ''stage'' payload of Some (JStr s) \<Rightarrow> s | _ \<Rightarrow> [])
     in if name = ''stage_started'' then Started stage
        else if name = ''stage_completed'' then Finished stage
        else if name = ''run_completed'' then Run_Completed
        else if name = ''run_paused'' then Run_Paused
        else Run_Failed)"

definition pending_stages :: "uuid \<Rightarrow> db \<Rightarrow> string list" where
  "pending_stages i d = filter (\<lambda>s. s \<notin> completed_of i d) STAGES"

definition steps_by :: "world \<Rightarrow> flow_event list \<Rightarrow> world \<Rightarrow> bool" where
  \<comment> \<open>the events emitted between two worlds\<close>
  "steps_by w es w' \<longleftrightarrow> (\<exists>new. w_events w' = w_events w @ new \<and> map flow_event_of new = es)"

lemma steps_by_same: "events_same w w' \<Longrightarrow> steps_by w [] w'"
  by (simp add: steps_by_def events_same_def)

lemma steps_by_trans: "steps_by a es b \<Longrightarrow> steps_by b es' c \<Longrightarrow> steps_by a (es @ es') c"
  unfolding steps_by_def by (metis append.assoc map_append)

lemma stage_names_plain: "\<forall>s \<in> set STAGES. redact_secrets s = s"
  by code_simp

lemma emit_steps:
  "s \<in> set STAGES \<Longrightarrow> steps_by w [Started s] (snd (emit_stage_started i s d w))"
  "s \<in> set STAGES \<Longrightarrow> steps_by w [Finished s] (snd (emit_stage_completed i s b d w))"
  "steps_by w [Run_Completed] (snd (emit_run_completed i d w))"
  "steps_by w [Run_Paused] (snd (emit_run_paused i m d w))"
  "steps_by w [Run_Failed] (snd (emit_run_failed i m d w))"
  using stage_names_plain
  by (simp_all add: steps_by_def emit_def emit_stage_started_def emit_stage_completed_def emit_run_completed_def
      emit_run_paused_def emit_run_failed_def flow_event_of_def jget_def)

lemma emit_run:
  "emit_stage_started i s d w = (Inr (), snd (emit_stage_started i s d w))"
  "emit_stage_completed i s b d w = (Inr (), snd (emit_stage_completed i s b d w))"
  "emit_run_completed i d w = (Inr (), snd (emit_run_completed i d w))"
  "emit_run_paused i m d w = (Inr (), snd (emit_run_paused i m d w))"
  "emit_run_failed i m d w = (Inr (), snd (emit_run_failed i m d w))"
  by (simp_all add: emit_def emit_stage_started_def emit_stage_completed_def emit_run_completed_def
      emit_run_paused_def emit_run_failed_def)

lemma and_thenE:
  assumes "and_then p f w = (r, w')"
  obtains (fail) e where "p w = (Inl e, w')" "r = Inl e"
    | (step) x w1 where "p w = (Inr x, w1)" "f x w1 = (r, w')"
  using assms by (cases "p w"; cases "fst (p w)") (auto simp: and_then_def)

lemma ret_then: "and_then (ret x) f w = f x w"
  by (simp add: and_then_def)

lemma completed_keys: "s \<in> completed_of i d \<longleftrightarrow> (i, s) \<in> set (checkpoint_keys d)"
  by (auto simp: completed_of_def checkpoint_keys_def)

lemma completed_mono: "keys_grow d d' \<Longrightarrow> completed_of i d \<subseteq> completed_of i d'"
  unfolding keys_grow_def by (auto simp: completed_keys dest!: prefix_set)

lemma cp_save_completes:
  assumes "cp_save i s st w = (Inr u, w')"
  shows "s \<in> completed_of i (w_db w')"
proof (cases "cp_lookup i s (w_db w)")
  case None
  with assms show ?thesis
    by (auto simp: cp_save_def prog_results Let_def commit_ok completed_of_def)
next
  case (Some c)
  then have "(i, s) \<in> set (checkpoint_keys (w_db w))"
    by (auto simp: cp_lookup_def checkpoint_keys_def dest: find_mem)
  moreover have "keys_grow (w_db w) (w_db w')"
    using keepsD [OF keyed.cache_keeps(4) assms] .
  ultimately show ?thesis using completed_mono completed_keys by blast
qed

lemma check_breaker_run:
  assumes "check_breaker B i budget s w = (r, w')"
  shows "w' = w \<and> (r = Inr () \<or> (\<exists>m. r = Inl (CircuitBreakerError m)))"
proof -
  let ?c = "breaker_check (show_decimal (sv_env (bn_services B))) default_stage_fraction s
    (case run_lookup i (w_db w) of None \<Rightarrow> 0 | Some x \<Rightarrow> r_spent x) budget"
  have "?c = Inr () \<or> (\<exists>m. ?c = Inl (CircuitBreakerError m))"
  proof (cases ?c)
    case (Inl e)
    with breaker_error [OF Inl] show ?thesis by auto
  next
    case (Inr u)
    then show ?thesis by (cases u) simp
  qed
  with assms show ?thesis by (auto simp: check_breaker_def and_then_def split: if_splits)
qed

lemma settle_stage_run:
  assumes run: "settle_stage B i budget s result w = (r, w')" and s: "s \<in> set STAGES"
  shows "steps_by w [] w' \<and> (\<exists>e. r = Inl e) \<or>
    steps_by w [Finished s] w' \<and> s \<in> completed_of i (w_db w') \<and> (r = Inr () \<or> (\<exists>m. r = Inl (CircuitBreakerError m)))"
proof (cases "sr_ok result")
  case False
  with run show ?thesis by (auto simp: settle_stage_def and_then_def guard_def steps_by_def)
next
  case True
  with run have "and_then (cp_save i s (sr_detail result)) (\<lambda>_. and_then (mark_checkpoint i) (\<lambda>_.
     and_then (emit_stage_completed i s True (sr_detail result)) (\<lambda>_. check_breaker B i budget s))) w = (r, w')"
    by (simp add: settle_stage_def guard_def ret_then)
  then show ?thesis
  proof (cases rule: and_thenE)
    case (fail e)
    then have "events_same w w'" using quiet.abides_store(4) by (blast dest: abidesD)
    with fail steps_by_same show ?thesis by blast
  next
    case (step u w1)
    from step(1) have e1: "events_same w w1" and c1: "s \<in> completed_of i (w_db w1)"
      using quiet.abides_store(4) cp_save_completes by (blast dest: abidesD)+
    from step(2) show ?thesis
    proof (cases rule: and_thenE)
      case (fail e)
      then have "events_same w1 w'" using silent.abides_mark_checkpoint by (blast dest: abidesD)
      with e1 fail show ?thesis using quiet.R_trans steps_by_same by blast
    next
      case (step v w2)
      let ?w3 = "snd (emit_stage_completed i s True (sr_detail result) w2)"
      from step(1) have e2: "events_same w1 w2" using silent.abides_mark_checkpoint by (blast dest: abidesD)
      have k2: "keys_grow (w_db w1) (w_db w2)" using keepsD [OF keyed.mark_keeps(2) step(1)] .
      from step(2) have "check_breaker B i budget s ?w3 = (r, w')"
        by (simp add: and_then_run(2) [OF emit_run(2)])
      note check_breaker_run [OF this]
      moreover have "steps_by w [Finished s] ?w3"
        using steps_by_trans [OF steps_by_same [OF quiet.R_trans [OF e1 e2]] emit_steps(2) [OF s]] by simp
      moreover have "w_db ?w3 = w_db w2" by (simp add: emit_stage_completed_def)
      ultimately show ?thesis using c1 completed_mono [OF k2] by auto
    qed
  qed
qed

lemma run_stage_run:
  assumes run: "run_stage B i budget s w = (r, w')" and s: "s \<in> set STAGES"
  shows "(\<exists>e. r = Inl e) \<and> (steps_by w [] w' \<or> steps_by w [Started s] w') \<or>
    steps_by w [Started s, Finished s] w' \<and> s \<in> completed_of i (w_db w') \<and> (r = Inr () \<or> (\<exists>m. r = Inl (CircuitBreakerError m)))"
  using run [unfolded run_stage_def]
proof (cases rule: and_thenE)
  case (fail e)
  then have "events_same w w'" using silent.abides_marks(3) by (blast dest: abidesD)
  with fail steps_by_same show ?thesis by blast
next
  case (step u w1)
  let ?w2 = "snd (emit_stage_started i s None w1)"
  from step(1) have "events_same w w1" using silent.abides_marks(3) by (blast dest: abidesD)
  from steps_by_trans [OF steps_by_same [OF this] emit_steps(1) [OF s]] have e2: "steps_by w [Started s] ?w2" by simp
  from step(2) have "and_then (stage_task B i s) (settle_stage B i budget s) ?w2 = (r, w')"
    by (simp add: and_then_run(2) [OF emit_run(1)])
  then show ?thesis
  proof (cases rule: and_thenE)
    case (fail e)
    then have "events_same ?w2 w'" using silent.abides_stage_task [OF refl] by (blast dest: abidesD)
    from steps_by_trans [OF e2 steps_by_same [OF this]] fail show ?thesis by simp
  next
    case (step result w3)
    then have "events_same ?w2 w3" using silent.abides_stage_task [OF refl] by (blast dest: abidesD)
    note e3 = steps_by_trans [OF e2 steps_by_same [OF this]]
    from settle_stage_run [OF step(2) s] show ?thesis
      using steps_by_trans [OF e3] by fastforce
  qed
qed

lemma run_stages_run:
  assumes "run_stages B i budget completed ss w = (r, w')" and "set ss \<subseteq> set STAGES"
  shows "\<exists>es q. steps_by w es w' \<and> flow_trace (Idle (filter (\<lambda>s. s \<notin> completed) ss)) es q \<and>
    (r = Inr () \<longrightarrow> q = Idle [] \<and> (\<forall>s \<in> set ss. s \<in> completed \<or> s \<in> completed_of i (w_db w'))) \<and> (\<forall>c. q \<noteq> Closed c)"
  using assms
proof (induction ss arbitrary: w)
  case Nil
  then show ?case by (intro exI [of _ "[]"] exI [of _ "Idle []"]) (simp add: steps_by_def)
next
  case (Cons s ss)
  show ?case
  proof (cases "s \<in> completed")
    case True
    with Cons show ?thesis by simp
  next
    case False
    let ?p = "filter (\<lambda>s. s \<notin> completed) ss"
    from False Cons.prems(1) have "and_then (run_stage B i budget s) (\<lambda>_. run_stages B i budget completed ss) w = (r, w')" by simp
    then show ?thesis
    proof (cases rule: and_thenE)
      case (fail e)
      have "s \<in> set STAGES" using Cons.prems(2) by simp
      from run_stage_run [OF fail(1) this] obtain es where es: "steps_by w es w'" "es \<in> {[], [Started s], [Started s, Finished s]}"
        by blast
      then have "\<exists>q. flow_trace (Idle (s # ?p)) es q \<and> (\<forall>c. q \<noteq> Closed c)" by auto
      with es fail False show ?thesis by auto
    next
      case (step u w1)
      have "s \<in> set STAGES" using Cons.prems(2) by simp
      from run_stage_run [OF step(1) this] have e1: "steps_by w [Started s, Finished s] w1" "s \<in> completed_of i (w_db w1)" by auto
      from Cons.IH [OF step(2)] Cons.prems(2) obtain es q where
        es: "steps_by w1 es w'" "flow_trace (Idle ?p) es q" "\<forall>c. q \<noteq> Closed c"
          "r = Inr () \<longrightarrow> q = Idle [] \<and> (\<forall>s \<in> set ss. s \<in> completed \<or> s \<in> completed_of i (w_db w'))" by auto
      have "keys_grow (w_db w1) (w_db w')" using keepsD [OF keyed.run_stages_keep step(2)] .
      then have "s \<in> completed_of i (w_db w')" using e1(2) completed_mono by blast
      moreover have "flow_trace (Idle (s # ?p)) ([Started s, Finished s] @ es) q" using es(2) by auto
      ultimately show ?thesis
        using steps_by_trans [OF e1(1) es(1)] es(3,4) False by (intro exI [of _ "[Started s, Finished s] @ es"] exI [of _ q]) simp
    qed
  qed
qed

lemma refused_update:
  "commit [UpdRun i f] d = Inl e \<Longrightarrow> \<exists>m. e = IntegrityError m"
  "commit [UpdRun i f, AddAudit a] d = Inl e \<Longrightarrow> \<exists>m. e = IntegrityError m"
  by (auto simp: commit_def split: if_splits)

lemma update_run_run:
  assumes "update_run i f w = (r, w')"
  shows "r = Inr () \<or> (\<exists>m. r = Inl (IntegrityError m)) \<and> w' = w"
  using assms by (auto simp: update_run_def and_then_def tx_def refused_update(1) split: option.splits sum.splits)

lemma mark_failed_run:
  assumes "mark_failed i reason w = (r, w')"
  shows "r = Inr () \<and> commit [UpdRun i (\<lambda>r. r\<lparr>r_status := ''failed''\<rparr>), AddAudit (failure_audit (w_next w) i (w_now w) reason)]
      (w_db w) = Inr (w_db w') \<or> (\<exists>m. r = Inl (IntegrityError m)) \<and> w_db w' = w_db w"
  using assms by (auto simp: mark_failed_def and_then_def tx_def refused_update(2) split: sum.splits)

lemma pause_run_run:
  assumes "pause_run i m w = (r, w')"
  shows "(\<exists>m. r = Inl (IntegrityError m)) \<and> steps_by w [] w' \<or> r = Inr ''paused'' \<and> steps_by w [Run_Paused] w'"
  using assms [unfolded pause_run_def]
proof (cases rule: and_thenE)
  case (fail e)
  with update_run_run [OF fail(1)] show ?thesis by (auto simp: steps_by_def)
next
  case (step u w1)
  then have same: "events_same w w1" using silent.abides_marks(1) by (blast dest: abidesD)
  from step(2) have "r = Inr ''paused''" "w' = snd (emit_run_paused i m None w1)"
    by (simp_all add: and_then_run(2) [OF emit_run(4)])
  with steps_by_trans [OF steps_by_same [OF same] emit_steps(4)] show ?thesis by simp
qed

lemma fail_run_run:
  assumes "fail_run i e w = (r, w')"
  shows "(\<exists>m. r = Inl (IntegrityError m)) \<and> steps_by w [] w' \<or>
    r = Inl e \<and> steps_by w [Run_Failed] w' \<and> (run_lookup i (w_db w) = None \<or>
      (\<exists>a t. commit [UpdRun i (\<lambda>r. r\<lparr>r_status := ''failed''\<rparr>), AddAudit (failure_audit a i t (exn_message e))] (w_db w) = Inr (w_db w')))"
proof -
  let ?p = "case run_lookup i (w_db w) of None \<Rightarrow> ret () | Some _ \<Rightarrow> mark_failed i (exn_message e)"
  have quiet: "abides events_same ?p"
    by (cases "run_lookup i (w_db w)") (simp_all add: quiet.abides_basic silent.abides_marks(2))
  from assms have "and_then ?p (\<lambda>_. and_then (emit_run_failed i (exn_message e) None) (\<lambda>_. throw e)) w = (r, w')"
    by (simp add: fail_run_def and_then_run(2) [of "fetch_db (run_lookup i)"])
  then show ?thesis
  proof (cases rule: and_thenE)
    case (fail e')
    then have "steps_by w [] w'" using quiet steps_by_same by (blast dest: abidesD)
    moreover have "\<exists>m. e' = IntegrityError m"
      using fail(1) by (cases "run_lookup i (w_db w)") (auto dest: mark_failed_run)
    ultimately show ?thesis using fail(2) by blast
  next
    case (step u w1)
    then have same: "events_same w w1" using quiet by (blast dest: abidesD)
    from step(2) have r: "r = Inl e" "w' = snd (emit_run_failed i (exn_message e) None w1)"
      by (simp_all add: and_then_run(2) [OF emit_run(5)])
    then have "w_db w' = w_db w1" by (simp add: emit_run_failed_def)
    moreover have "run_lookup i (w_db w) = None \<or>
        (\<exists>a t. commit [UpdRun i (\<lambda>r. r\<lparr>r_status := ''failed''\<rparr>), AddAudit (failure_audit a i t (exn_message e))] (w_db w) = Inr (w_db w1))"
      using step(1) mark_failed_run by (cases "run_lookup i (w_db w)") fastforce+
    ultimately show ?thesis
      using r steps_by_trans [OF steps_by_same [OF same] emit_steps(5)] by simp
  qed
qed

definition ended :: "uuid \<Rightarrow> unit result \<Rightarrow> world \<Rightarrow> string result \<Rightarrow> world \<Rightarrow> bool" where
  \<comment> \<open>how an execution ends once its stages have returned or raised\<close>
  "ended i o1 w1 r w' \<longleftrightarrow>
     (o1 = Inr () \<and> r = Inr ''completed'' \<and> w_db w' = w_db w1 \<and> steps_by w1 [Run_Completed] w') \<or>
     (\<exists>m. o1 = Inl (CircuitBreakerError m) \<and> pause_run i m w1 = (r, w')) \<or>
     (\<exists>e. o1 = Inl e \<and> fail_run i e w1 = (r, w'))"

lemma execute_run:
  assumes "execute_stages B i w = (r, w')"
  obtains (missing) "run_lookup i (w_db w) = None" "w' = w" "\<exists>m. r = Inl (ValueError m)"
    | (ran) run o1 w1 where "run_lookup i (w_db w) = Some run"
        "run_stages B i (r_budget run) (completed_of i (w_db w)) STAGES w = (o1, w1)" "ended i o1 w1 r w'"
proof -
  define h where "h = (\<lambda>r. case r of
       Inl (CircuitBreakerError reason) \<Rightarrow> pause_run i reason
     | Inl e \<Rightarrow> fail_run i e
     | Inr (_ :: unit) \<Rightarrow> and_then (emit_run_completed i None) (\<lambda>_. ret ''completed''))"
  have ex: "execute_stages B i = and_then (completed_stages i) (\<lambda>completed. and_then (require_run i) (\<lambda>run.
      and_then (outcome_of (run_stages B i (r_budget run) completed STAGES)) h))"
    unfolding execute_stages_def h_def ..
  have cs: "completed_stages i w = (Inr (completed_of i (w_db w)), w)" by (simp add: completed_stages_def)
  show ?thesis
  proof (cases "run_lookup i (w_db w)")
    case None
    then have "require_run i w = (Inl (ValueError (''no Run row for run_id='' @ str_uuid i)), w)"
      by (simp add: require_run_def and_then_run(2) [of "fetch_db (run_lookup i)"])
    with assms have "r = Inl (ValueError (''no Run row for run_id='' @ str_uuid i))" "w' = w"
      unfolding ex by (simp_all only: and_then_run(2) [where p = "completed_stages i" and w = w, OF cs] and_then_run(1) prod.inject)
    with None missing show ?thesis by blast
  next
    case (Some run)
    obtain o1 w1 where o1: "run_stages B i (r_budget run) (completed_of i (w_db w)) STAGES w = (o1, w1)" by fastforce
    have "outcome_of (run_stages B i (r_budget run) (completed_of i (w_db w)) STAGES) w = (Inr o1, w1)"
      by (simp add: outcome_of_def o1)
    moreover have "require_run i w = (Inr run, w)"
      by (simp add: require_run_def and_then_run(2) [of "fetch_db (run_lookup i)"] Some)
    ultimately have h: "h o1 w1 = (r, w')"
      using assms unfolding ex by (simp only: and_then_run(2) [where p = "completed_stages i" and w = w, OF cs] and_then_run(2))
    have "ended i o1 w1 r w'"
    proof (cases o1)
      case (Inl e)
      with h show ?thesis by (cases e) (simp_all add: h_def ended_def)
    next
      case (Inr u)
      with h have "r = Inr ''completed''" "w' = snd (emit_run_completed i None w1)"
        by (simp_all add: h_def and_then_run(2) [OF emit_run(3)])
      with Inr emit_steps(3) show ?thesis by (auto simp: ended_def emit_run_completed_def)
    qed
    with ran Some o1 show ?thesis by blast
  qed
qed

lemma ended_steps:
  assumes "ended i o1 w1 r w'" and "flow_trace q es q1" and "\<forall>c. q1 \<noteq> Closed c" and "o1 = Inr () \<longrightarrow> q1 = Idle []"
    and "steps_by w es w1"
  shows "\<exists>es' q'. steps_by w es' w' \<and> flow_trace q es' q' \<and>
    (case r of Inr outcome \<Rightarrow> q' = Closed outcome | Inl e \<Rightarrow> q' = Closed ''failed'' \<or> (\<exists>m. e = IntegrityError m) \<and> (\<forall>c. q' \<noteq> Closed c))"
proof -
  have extend: "steps_by w (es @ [e]) w' \<and> flow_trace q (es @ [e]) q'" if "steps_by w1 [e] w'" "flow_step q1 e q'" for e q'
    using that steps_by_trans [OF assms(5)] flow_trace_append [OF assms(2)] by simp
  have stay: "steps_by w es w' \<and> flow_trace q es q1" if "steps_by w1 [] w'"
    using that steps_by_trans [OF assms(5)] assms(2) by fastforce
  have pauses: "flow_step q1 Run_Paused (Closed ''paused'')" "flow_step q1 Run_Failed (Closed ''failed'')"
    using assms(3) by (cases q1; simp)+
  from assms(1) consider (ok) "o1 = Inr ()" "r = Inr ''completed''" "steps_by w1 [Run_Completed] w'"
    | (paused) m where "pause_run i m w1 = (r, w')" | (failed) e where "fail_run i e w1 = (r, w')"
    unfolding ended_def by blast
  then show ?thesis
  proof cases
    case ok
    then have "flow_step q1 Run_Completed (Closed ''completed'')" using assms(4) by simp
    with extend ok show ?thesis by fastforce
  next
    case paused
    from pause_run_run [OF this] show ?thesis
    proof
      assume "(\<exists>m. r = Inl (IntegrityError m)) \<and> steps_by w1 [] w'"
      with stay assms(3) show ?thesis by (intro exI [of _ es] exI [of _ q1]) auto
    next
      assume "r = Inr ''paused'' \<and> steps_by w1 [Run_Paused] w'"
      with extend pauses show ?thesis by (intro exI [of _ "es @ [Run_Paused]"] exI [of _ "Closed ''paused''"]) simp
    qed
  next
    case failed
    from fail_run_run [OF this] show ?thesis
    proof
      assume "(\<exists>m. r = Inl (IntegrityError m)) \<and> steps_by w1 [] w'"
      with stay assms(3) show ?thesis by (intro exI [of _ es] exI [of _ q1]) auto
    next
      assume "r = Inl e \<and> steps_by w1 [Run_Failed] w' \<and> (run_lookup i (w_db w1) = None \<or>
        (\<exists>a t. commit [UpdRun i (\<lambda>r. r\<lparr>r_status := ''failed''\<rparr>), AddAudit (failure_audit a i t (exn_message e))] (w_db w1) = Inr (w_db w')))"
      with extend pauses show ?thesis by (intro exI [of _ "es @ [Run_Failed]"] exI [of _ "Closed ''failed''"]) simp
    qed
  qed
qed

section \<open>Properties\<close>

text \<open>
  C7. The events of an execution follow the lifecycle: each stage without a checkpoint is started
  and finished in the order of the pipeline, one at a time, no stage is started after the run
  ended, and the execution ends with exactly one closing event, which is the outcome it returns;
  an execution that raises closes as failed, unless the database refused its closing transaction.
\<close>
theorem execution_follows_lifecycle:
  assumes "execute_stages B i w = (r, w')" and "run_lookup i (w_db w) \<noteq> None"
  shows "\<exists>new q. w_events w' = w_events w @ new \<and>
    flow_trace (Idle (pending_stages i (w_db w))) (map flow_event_of new) q \<and>
    (case r of Inr outcome \<Rightarrow> q = Closed outcome
     | Inl e \<Rightarrow> q = Closed ''failed'' \<or> (\<exists>m. e = IntegrityError m) \<and> (\<forall>c. q \<noteq> Closed c))"
  using assms(1)
proof (cases rule: execute_run)
  case missing
  with assms(2) show ?thesis by simp
next
  case (ran run o1 w1)
  from run_stages_run [OF ran(2)] obtain es q where es: "steps_by w es w1"
      "flow_trace (Idle (pending_stages i (w_db w))) es q" "o1 = Inr () \<longrightarrow> q = Idle []" "\<forall>c. q \<noteq> Closed c"
    unfolding pending_stages_def by blast
  from ended_steps [OF ran(3) es(2,4,3,1)] show ?thesis unfolding steps_by_def by blast
qed

text \<open>
  C8. An execution that returns ``completed'' leaves every stage of the pipeline with a durable
  checkpoint, has started and finished exactly the stages that had none, in pipeline order, and
  has lost no checkpoint; whatever it returns or raises, the started stages are an initial segment
  of the pending ones and the finished stages one of the started.
\<close>
theorem completed_means_checkpointed:
  assumes "execute_stages B i w = (r, w')" and "run_lookup i (w_db w) \<noteq> None"
  shows "completed_of i (w_db w) \<subseteq> completed_of i (w_db w') \<and>
    (\<exists>new. w_events w' = w_events w @ new \<and>
       prefix (started_of (map flow_event_of new)) (pending_stages i (w_db w)) \<and>
       prefix (finished_of (map flow_event_of new)) (started_of (map flow_event_of new)) \<and>
       (r = Inr ''completed'' \<longrightarrow> set STAGES \<subseteq> completed_of i (w_db w') \<and>
          finished_of (map flow_event_of new) = pending_stages i (w_db w)))"
  using assms(1)
proof (cases rule: execute_run)
  case missing
  with assms(2) show ?thesis by simp
next
  case (ran run o1 w1)
  from run_stages_run [OF ran(2)] obtain es q where es: "steps_by w es w1"
      "flow_trace (Idle (pending_stages i (w_db w))) es q" "o1 = Inr () \<longrightarrow> q = Idle []" "\<forall>c. q \<noteq> Closed c"
    and all: "o1 = Inr () \<longrightarrow> (\<forall>s \<in> set STAGES. s \<in> completed_of i (w_db w) \<or> s \<in> completed_of i (w_db w1))"
    unfolding pending_stages_def by blast
  from ended_steps [OF ran(3) es(2,4,3,1)] obtain new q' where new: "w_events w' = w_events w @ new"
      "flow_trace (Idle (pending_stages i (w_db w))) (map flow_event_of new) q'"
      "r = Inr ''completed'' \<longrightarrow> q' = Closed ''completed''"
    unfolding steps_by_def by (cases r) auto
  have grown: "completed_of i (w_db w) \<subseteq> completed_of i (w_db w')"
    by (rule completed_mono [OF keepsD [OF keyed.execute_keeps assms(1)]])
  have grown1: "completed_of i (w_db w) \<subseteq> completed_of i (w_db w1)"
    by (rule completed_mono [OF keepsD [OF keyed.run_stages_keep ran(2)]])
  have "set STAGES \<subseteq> completed_of i (w_db w')" if "r = Inr ''completed''"
  proof -
    from ran(3) that have "o1 = Inr () \<and> w_db w' = w_db w1"
      unfolding ended_def using pause_run_run fail_run_run by fastforce
    with all grown1 show ?thesis by auto
  qed
  with grown trace_in_order [OF new(2)] new show ?thesis by auto
qed



section \<open>Concrete executions\<close>

definition demo_bundle :: "env \<Rightarrow> pipeline_services" where
  "demo_bundle E = \<lparr>bn_services = demo_services E,
     bn_connector = \<lparr>sc_provider = ''mock'', sc_search_fn = Some Mock_Search, sc_default_limit = 10\<rparr>,
     bn_blobs = LocalBlobs ''blobs''\<rparr>"

definition nearly_done_world :: world where
  \<comment> \<open>every stage but two has its checkpoint\<close>
  "nearly_done_world = world_of (one_run_db\<lparr>checkpoints :=
     map (\<lambda>(k, s). \<lparr>cp_id = 10 + k, cp_run = 2, cp_stage = s, cp_state = None, cp_ts = 0\<rparr>)
       (enumerate 0 (filter (\<lambda>s. s \<notin> {''extract'', ''find''}) STAGES))\<rparr>)"

definition failing_env :: env where
  \<comment> \<open>a provider that is down\<close>
  "failing_env = scripted_env (\<lambda>_. Inl (OtherError ''provider down'')) (\<lambda>_. None)"

lemma nearly_done_run: "\<exists>w'. execute_stages (demo_bundle obliging_env) 2 nearly_done_world = (Inr ''completed'', w')"
proof -
  have "fst (execute_stages (demo_bundle obliging_env) 2 nearly_done_world) = Inr ''completed''" by code_simp
  then show ?thesis by (blast intro: run_result)
qed

lemma nearly_done_facts:
  "run_lookup 2 (w_db nearly_done_world) \<noteq> None" "pending_stages 2 (w_db nearly_done_world) = [''extract'', ''find'']"
  "w_events nearly_done_world = []"
  by code_simp+

lemma failing_run: "\<exists>w'. execute_stages (demo_bundle failing_env) 2 one_run_world = (Inl (OtherError ''provider down''), w')"
proof -
  have "fst (execute_stages (demo_bundle failing_env) 2 one_run_world) = Inl (OtherError ''provider down'')" by code_simp
  then show ?thesis by (blast intro: run_result)
qed

theorem execution_follows_lifecycle_witness:
  "\<exists>w'. flow_trace (Idle [''extract'', ''find'']) (map flow_event_of (w_events w')) (Closed ''completed'') \<and>
     execute_stages (demo_bundle obliging_env) 2 nearly_done_world = (Inr ''completed'', w')"
proof -
  from nearly_done_run obtain w' where r: "execute_stages (demo_bundle obliging_env) 2 nearly_done_world = (Inr ''completed'', w')" ..
  from execution_follows_lifecycle [OF r nearly_done_facts(1)] have
    "flow_trace (Idle [''extract'', ''find'']) (map flow_event_of (w_events w')) (Closed ''completed'')"
    by (auto simp: nearly_done_facts(2,3))
  with r show ?thesis by blast
qed

theorem completed_means_checkpointed_witness:
  "\<exists>w'. execute_stages (demo_bundle obliging_env) 2 nearly_done_world = (Inr ''completed'', w') \<and>
     set STAGES \<subseteq> completed_of 2 (w_db w') \<and> finished_of (map flow_event_of (w_events w')) = [''extract'', ''find'']"
proof -
  from nearly_done_run obtain w' where r: "execute_stages (demo_bundle obliging_env) 2 nearly_done_world = (Inr ''completed'', w')" ..
  from completed_means_checkpointed [OF r nearly_done_facts(1)] r show ?thesis
    by (intro exI [of _ w']) (auto simp: nearly_done_facts(2,3))
qed



end
