(* ===== verification/Execution.thy ===== *)
theory Execution
  imports Flow
begin

text \<open>
  What one execution of the pipeline sends to the LLM provider. \<open>spends Q n p\<close> says that
  program \<open>p\<close>, finished or failed, sends at most \<open>n\<close> requests and that each of them
  satisfies \<open>Q\<close>. The bounds add up along the programs (a branch costs its dearer side, a loop
  its length times its body), so the bound of a stage follows from its caps
  (\<open>app/pipeline/stages\<close>) and twelve calls per completion. \<open>clean_request\<close> is what the
  guardrails G-01 and G-05 promise of a request: fixed instructions, one prompt template filled with
  redacted texts, and the schema the answer must have. The last section is about executions that find
  every stage checkpointed.
\<close>

section \<open>Counting and inspecting requests\<close>

definition spends :: "(request \<Rightarrow> bool) \<Rightarrow> nat \<Rightarrow> 'a prog \<Rightarrow> bool" where
  "spends Q n p \<longleftrightarrow> (\<forall>w. \<exists>log. w_sent (snd (p w)) = w_sent w @ log \<and> length log \<le> n \<and>
     list_all (\<lambda>x. Q (snd x)) log)"

named_theorems spends_rules \<open>bounds on provider calls, additive along programs\<close>

lemma spendsI:
  "(\<And>w. \<exists>log. w_sent (snd (p w)) = w_sent w @ log \<and> length log \<le> n \<and> list_all (\<lambda>x. Q (snd x)) log) \<Longrightarrow>
     spends Q n p"
  unfolding spends_def by blast

lemma spendsD:
  "spends Q n p \<Longrightarrow> p w = (r, w') \<Longrightarrow>
     \<exists>log. w_sent w' = w_sent w @ log \<and> length log \<le> n \<and> list_all (\<lambda>x. Q (snd x)) log"
  unfolding spends_def by (metis snd_conv)

lemma spends_mono: "spends Q m p \<Longrightarrow> m \<le> n \<Longrightarrow> spends Q n p"
  unfolding spends_def by (meson order_trans)

lemma spends_nothing: "(\<And>w. w_sent (snd (p w)) = w_sent w) \<Longrightarrow> spends Q 0 p"
  by (simp add: spends_def)

lemma spends_basic [spends_rules]:
  "spends Q 0 (ret x)" "spends Q 0 (throw e)" "spends Q 0 (lift r)" "spends Q 0 (reads g)" "spends Q 0 (fetch_db h)"
  "spends Q 0 uuid4" "spends Q 0 (sleep t)" "spends Q 0 (guard b e)" "spends Q 0 (tx cs)"
  by (rule spends_nothing; simp add: guard_def tx_def split: sum.split)+

lemma spends_chain:
  \<comment> \<open>the programs of a sequence or of a handler run one after the other\<close>
  assumes "spends Q m p" and "p w = (r, w1)" and "w2 = w1 \<or> (\<exists>q. spends Q n q \<and> w2 = snd (q w1))"
  shows "\<exists>log. w_sent w2 = w_sent w @ log \<and> length log \<le> m + n \<and> list_all (\<lambda>x. Q (snd x)) log"
proof -
  from spendsD [OF assms(1,2)] obtain a where
    a: "w_sent w1 = w_sent w @ a" "length a \<le> m" "list_all (\<lambda>x. Q (snd x)) a" by blast
  from assms(3) obtain b where
    b: "w_sent w2 = w_sent w1 @ b" "length b \<le> n" "list_all (\<lambda>x. Q (snd x)) b"
    unfolding spends_def by (metis append_Nil2 le0 list.pred_inject(1) list.size(3))
  from a b have "w_sent w2 = w_sent w @ (a @ b) \<and> length (a @ b) \<le> m + n \<and> list_all (\<lambda>x. Q (snd x)) (a @ b)"
    by simp
  then show ?thesis by blast
qed

lemma spends_and_then [spends_rules]:
  fixes f :: "'a \<Rightarrow> 'b prog"
  assumes "spends Q m p" and "\<And>x. spends Q n (f x)"
  shows "spends Q (m + n) (and_then p f)"
proof (rule spendsI)
  fix w
  obtain r w1 where p: "p w = (r, w1)" by fastforce
  have "snd (and_then p f w) = w1 \<or> (\<exists>q :: 'b prog. spends Q n q \<and> snd (and_then p f w) = snd (q w1))"
    using assms(2) p by (cases r) (auto simp: and_then_def)
  from spends_chain [OF assms(1) p this]
  show "\<exists>log. w_sent (snd (and_then p f w)) = w_sent w @ log \<and> length log \<le> m + n \<and> list_all (\<lambda>x. Q (snd x)) log" .
qed

lemma spends_attempt [spends_rules]:
  fixes p :: "'a prog"
  assumes "spends Q m p" and "\<And>e. spends Q n (h e)"
  shows "spends Q (m + n) (attempt p h)"
proof (rule spendsI)
  fix w
  obtain r w1 where p: "p w = (r, w1)" by fastforce
  have "snd (attempt p h w) = w1 \<or> (\<exists>q :: 'a prog. spends Q n q \<and> snd (attempt p h w) = snd (q w1))"
    using assms(2) p by (cases r) (auto simp: attempt_def)
  from spends_chain [OF assms(1) p this]
  show "\<exists>log. w_sent (snd (attempt p h w)) = w_sent w @ log \<and> length log \<le> m + n \<and> list_all (\<lambda>x. Q (snd x)) log" .
qed

lemma and_then_lift: "and_then (lift (Inr x)) f = f x"
  by (rule ext) (simp add: and_then_def)

lemma spends_lift:
  \<comment> \<open>what a pure step returned is known afterwards\<close>
  "(\<And>x. r = Inr x \<Longrightarrow> spends Q n (f x)) \<Longrightarrow> spends Q n (and_then (lift r) f)"
  by (cases r) (simp_all add: spends_def and_then_def)

lemma spends_outcome [spends_rules]: "spends Q n p \<Longrightarrow> spends Q n (outcome_of p)"
  unfolding spends_def outcome_of_def by (simp add: split_def)

lemma spends_max: "spends Q m p \<Longrightarrow> spends Q (max m n) p" "spends Q n p \<Longrightarrow> spends Q (max m n) p"
  by (erule spends_mono; simp)+

lemma spends_cases [spends_rules]:
  "spends Q m p \<Longrightarrow> spends Q n q \<Longrightarrow> spends Q (max m n) (if b then p else q)"
  "spends Q m p \<Longrightarrow> (\<And>x. spends Q n (f x)) \<Longrightarrow> spends Q (max m n) (case v of None \<Rightarrow> p | Some x \<Rightarrow> f x)"
  "(\<And>e. spends Q m (g e)) \<Longrightarrow> (\<And>x. spends Q n (f x)) \<Longrightarrow> spends Q (max m n) (case s of Inl e \<Rightarrow> g e | Inr x \<Rightarrow> f x)"
  "(\<And>a b. spends Q n (k a b)) \<Longrightarrow> spends Q n (case ab of (a, b) \<Rightarrow> k a b)"
  "(\<And>x. spends Q n (f x)) \<Longrightarrow> spends Q n (Let y f)"
  by (auto intro: spends_max split: option.split sum.split prod.split)

lemma spends_each: "(\<And>x. spends Q k (f x)) \<Longrightarrow> spends Q (length xs * k) (each f xs)"
proof (induction xs)
  case (Cons x xs)
  have "spends Q (k + (length xs * k + 0)) (each f (x # xs))"
    unfolding each.simps by (intro spends_and_then Cons) (rule spends_basic)
  then show ?case by simp
qed (simp add: spends_basic)

lemma spends_each_nothing [spends_rules]: "(\<And>x. spends Q 0 (f x)) \<Longrightarrow> spends Q 0 (each f xs)"
  using spends_each [of Q 0 f xs] by simp

lemma spends_paced: "(\<And>x. spends Q k (f x)) \<Longrightarrow> spends Q (length xs * k) (paced t b f xs)"
proof (induction xs arbitrary: b)
  case (Cons x xs)
  have "spends Q (max 0 0 + (k + (length xs * k + 0))) (paced t b f (x # xs))"
    unfolding paced.simps by (intro spends_and_then spends_cases(1) Cons; rule spends_basic)
  then show ?case by simp
qed (simp add: spends_basic)

lemma spends_paced_take [spends_rules]: "(\<And>x. spends Q k (f x)) \<Longrightarrow> spends Q (n * k) (paced t b f (take n xs))"
  by (rule spends_mono [OF spends_paced]) (assumption, rule mult_le_mono1, simp)

section \<open>What the components send\<close>

lemma spends_store [spends_rules]:
  "spends Q 0 (kv_get key)" "spends Q 0 (kv_set key m h p ttl)" "spends Q 0 (cp_save r s st)" "spends Q 0 (cp_load r s)"
  "spends Q 0 (completed_stages r)" "spends Q 0 (audit_append a)"
  unfolding kv_get_def kv_set_def cp_save_def cp_load_def completed_stages_def audit_append_def Let_def
  by (rule spends_mono, (rule spends_rules)+, simp)+

text \<open>
  The prompts of the six services with redacted texts in their data blocks, and the messages of a
  request made of one: instructions (when there are any), data block and the schema the answer must
  have. No other text reaches the provider.
\<close>

inductive clean_prompt :: "services \<Rightarrow> string \<times> string \<Rightarrow> bool" for V where
  planning: "secret_free topic \<Longrightarrow> clean_prompt V (build_plan_prompt V topic)"
| extraction: "secret_free passage \<Longrightarrow> clean_prompt V (in_extract (sv_instructions V), build_data_block i passage)"
| judging: "secret_free claim \<Longrightarrow> secret_free passage \<Longrightarrow> clean_prompt V (build_judge_prompt V claim passage)"
| flagging: "secret_free a \<Longrightarrow> secret_free b \<Longrightarrow> clean_prompt V (build_flag_prompt V a b)"
| confirming: "secret_free a \<Longrightarrow> secret_free b \<Longrightarrow> clean_prompt V (build_confirm_prompt V a b)"
| synthesis: "list_all (\<lambda>(i, t). secret_free t) verified \<Longrightarrow> list_all (\<lambda>(a, b, summary). secret_free summary) confirmed \<Longrightarrow>
    clean_prompt V (build_synthesis_prompt V verified confirmed)"

definition clean_request :: "services \<Rightarrow> request \<Rightarrow> bool" where
  "clean_request V q \<longleftrightarrow> (\<exists>system data name n. clean_prompt V (system, data) \<and>
     rq_messages q = (if system = [] then [] else [\<lparr>msg_role = ''system'', msg_content = system\<rparr>]) @
       [\<lparr>msg_role = ''user'', msg_content = data\<rparr>,
        \<lparr>msg_role = ''system'', msg_content = schema_instruction (sc_text (sv_schemas V) name) n\<rparr>])"

definition known_schema :: "services \<Rightarrow> 'm response_model \<Rightarrow> bool" where
  "known_schema V rm \<longleftrightarrow> (\<exists>name. rm_schema rm = sc_text (sv_schemas V) name)"

lemma known_schemas [spends_rules]:
  "known_schema V (plan_model V)" "known_schema V (extraction_model V)" "known_schema V (verdict_model V)"
  "known_schema V (flag_model V)" "known_schema V (confirm_model V)" "known_schema V (conclusions_model V)"
  by (auto simp: known_schema_def plan_model_def extraction_model_def verdict_model_def flag_model_def confirm_model_def
      conclusions_model_def model_of_def)

lemmas clean_prompts [spends_rules] =
  clean_prompt.planning [unfolded build_plan_prompt_def] clean_prompt.extraction clean_prompt.judging [unfolded build_judge_prompt_def]
  clean_prompt.flagging [unfolded build_flag_prompt_def] clean_prompt.confirming [unfolded build_confirm_prompt_def]
  redact_secret_free

lemmas prompt_defs = build_plan_prompt_def build_judge_prompt_def build_flag_prompt_def build_confirm_prompt_def

lemma spends_call: "Q rq \<Longrightarrow> spends Q 4 (call_with_rate_limit_retry E rq)"
proof (rule spendsI)
  fix w
  assume Q: "Q rq"
  obtain r w' where c: "call_with_rate_limit_retry E rq w = (r, w')" by fastforce
  from rate_limited_frame [OF c] obtain log
    where "w_sent w' = w_sent w @ log" "length log \<le> 4" "\<forall>x \<in> set log. snd x = rq" by auto
  with c Q show "\<exists>log. w_sent (snd (call_with_rate_limit_retry E rq w)) = w_sent w @ log \<and> length log \<le> 4 \<and>
      list_all (\<lambda>x. Q (snd x)) log" by (auto simp: list_all_iff)
qed

lemma spends_attempts:
  assumes "gw_hooks G = []" and "\<And>n. Q (attempt_request model base (map_option rm_schema rm) a n)"
  shows "spends Q (length ns * 4) (attempts_loop E G a rm model base key ns)"
proof (induction ns)
  case Nil
  show ?case unfolding attempts_loop.simps by (rule spends_mono [OF spends_basic(2)]) simp
next
  case (Cons n ns)
  have run: "spends Q 0 (run_hooks (gw_hooks G) ctx)" for ctx by (simp add: assms(1) spends_basic)
  have tail: "spends Q (length ns * 4) (ret x)" "spends Q (length ns * 4) (throw e)" for x :: "response \<times> string \<times> 'a reply_data" and e
    by (rule spends_mono [OF spends_basic(1)], simp, rule spends_mono [OF spends_basic(2)], simp)
  have "spends Q (0 + (4 + (0 + length ns * 4))) (attempts_loop E G a rm model base key (n # ns))"
    unfolding attempts_loop.simps
    by (intro spends_and_then run spends_call assms(2) spends_basic)
      (auto simp: tail split: option.split sum.split, use Cons in simp)
  then show ?case by simp
qed

lemma spends_meter [spends_rules]: "spends Q 0 (record_call E model i c)"
  unfolding record_call_def Let_def by (rule spends_mono, (rule spends_rules)+, simp)

lemma spends_complete:
  assumes "known_schema V rm" and "clean_prompt V (sys, data)"
  shows "spends (clean_request V) 12 (complete (sv_env V) (build_gateway (sv_settings V)) (Some rm) (llm_args tier sys data i))"
proof -
  let ?a = "llm_args tier sys data i"
  let ?base = "(if sys = [] then [] else [\<lparr>msg_role = ''system'', msg_content = sys\<rparr>]) @ [\<lparr>msg_role = ''user'', msg_content = data\<rparr>]"
  have base: "build_messages ?a = Inr ?base" by (simp add: build_messages_def llm_args_def)
  have sent: "clean_request V (attempt_request model ?base (map_option rm_schema (Some rm)) ?a n)" for model n
    using assms unfolding clean_request_def known_schema_def attempt_request_def by force
  have uncached: "spends (clean_request V) 12 (complete_uncached (sv_env V) (build_gateway (sv_settings V)) ?a (Some rm) model ?base p key)"
    for model p key
  proof -
    have "spends (clean_request V) (length [0..<2 + 1] * 4) (attempts_loop (sv_env V) (build_gateway (sv_settings V)) ?a (Some rm) model ?base key [0..<2 + 1])"
      by (rule spends_attempts) (simp_all only: build_gateway_simps sent)
    then have loop: "spends (clean_request V) 12 (attempts_loop (sv_env V) (build_gateway (sv_settings V)) ?a (Some rm) model ?base key [0..<2 + 1])" by simp
    show ?thesis
      unfolding complete_uncached_def Let_def build_gateway_simps by (rule spends_mono, (rule loop spends_rules)+, simp)
  qed
  have nc: "\<not> ca_use_cache ?a" by (simp add: llm_args_def)
  have "spends (clean_request V) (0 + 12) (complete (sv_env V) (build_gateway (sv_settings V)) (Some rm) ?a)"
    unfolding complete_def base
    by (rule spends_and_then [OF spends_basic(3)]) (simp only: and_then_lift Let_def if_not_P [OF nc] uncached)
  then show ?thesis by simp
qed

lemma spends_ask [spends_rules]:
  assumes "known_schema V rm" and "clean_prompt V (sys, data)"
  shows "spends (clean_request V) 12 (ask V rm tier sys data i)"
proof -
  have "spends Q 0 (case d of RModel m \<Rightarrow> ret (m, k) | RText t \<Rightarrow> throw e)" for Q and d :: "'x reply_data" and k :: string and e
    by (cases d) (simp_all add: spends_basic)
  then have "spends (clean_request V) (12 + 0) (ask V rm tier sys data i)"
    unfolding ask_def by (intro spends_and_then spends_complete assms)
  then show ?thesis by simp
qed

lemma spends_plan [spends_rules]: "spends (clean_request V) 12 (plan_run V topic i)"
  unfolding plan_run_def Let_def prompt_defs prod.case by (rule spends_mono, (rule spends_rules)+, simp)

lemma spends_rows [spends_rules]: "spends Q 0 (draft_row p i x)" "spends Q 0 (new_link s pid i sc m)"
  unfolding draft_row_def new_link_def Let_def by (rule spends_mono, (rule spends_rules)+, simp)+

lemma spends_extract [spends_rules]: "spends (clean_request V) 12 (extract_run V p i)"
  unfolding extract_run_def Let_def by (rule spends_mono, (rule spends_rules)+, simp)

lemma spends_judge [spends_rules]: "secret_free s \<Longrightarrow> secret_free p \<Longrightarrow> spends (clean_request V) 12 (judge V s p i sc x)"
  unfolding judge_def Let_def prompt_defs prod.case by (rule spends_mono, (assumption | rule spends_rules)+, simp)

lemma spends_verify [spends_rules]: "spends (clean_request V) 12 (verify V st pa i f)"
  unfolding verify_def Let_def by (rule spends_mono, (rule spends_rules)+, simp)

lemma spends_confirm [spends_rules]: "secret_free a \<Longrightarrow> secret_free b \<Longrightarrow> spends (clean_request V) 12 (confirm V a b i)"
  unfolding confirm_def Let_def prompt_defs prod.case by (rule spends_mono, (assumption | rule spends_rules)+, simp)

lemma spends_record [spends_rules]: "spends Q 0 (save_contradiction c r e)" "spends Q 0 (record_contradiction i s t r e)"
  unfolding record_contradiction_def save_contradiction_def by (rule spends_mono, (rule spends_rules)+, simp)+

lemma spends_pair [spends_rules]: "spends (clean_request V) 24 (detect_pair V i p)"
  unfolding detect_pair_def Let_def prompt_defs prod.case by (rule spends_mono, (rule spends_rules)+, simp)

lemma spends_pairs: "spends (clean_request V) (length ps * 24) (detect_pairs V i b ps)"
proof (induction ps arbitrary: b)
  case (Cons p ps)
  have "spends (clean_request V) (max 0 0 + (24 + (length ps * 24 + 0))) (detect_pairs V i b (p # ps))"
    unfolding detect_pairs.simps by (intro spends_and_then spends_cases(1) spends_pair Cons; rule spends_basic)
  then show ?case by simp
qed (simp add: spends_basic)

lemma spends_detect [spends_rules]: "spends (clean_request V) 240 (detect V ss i)"
  unfolding detect_def Let_def by (rule spends_mono [OF spends_pairs]) (simp add: max_contradiction_pairs_def)

lemma spends_draft [spends_rules]: "spends Q 0 (conclude_draft v s ds i draft)"
  unfolding conclude_draft_def Let_def by (rule spends_mono, (rule spends_rules)+, simp)

lemma summaries_clean:
  assumes "map_results (contradiction_summary E) cs = Inr ts"
  shows "list_all secret_free ts"
proof -
  have fixed: "secret_free ''confirmed contradiction''" by (rule plain_text_free) code_simp
  have one: "contradiction_summary E c = Inr t \<Longrightarrow> secret_free t" for c t
    by (auto simp: contradiction_summary_def Let_def redact_secret_free fixed split: if_splits)
  show ?thesis using assms
    by (induction cs arbitrary: ts) (auto simp: result_bind_ok dest: one)
qed

lemma spends_generate [spends_rules]: "spends (clean_request V) 12 (generate V i topic ss cs)"
proof -
  let ?vs = "sort_key s_id (filter (\<lambda>s. s_status s = VERIFIED) ss)"
  let ?cs = "filter (\<lambda>c. c_status c = CONFIRMED) cs"
  have prompt: "clean_prompt V (build_synthesis_prompt V (map (\<lambda>s. (str_uuid (s_id s), redact_secrets (s_text s))) ?vs)
      (map2 (\<lambda>c t. (str_uuid (c_a c), str_uuid (c_b c), t)) ?cs ts))"
    if "map_results (contradiction_summary (sv_env V)) ?cs = Inr ts" for ts
    using summaries_clean [OF that]
    by (intro clean_prompt.synthesis) (auto simp: list_all_iff redact_secret_free dest: set_zip_rightD)
  note asked = spends_ask [OF known_schemas(6) prompt [unfolded build_synthesis_prompt_def]]
  show ?thesis
    unfolding generate_def Let_def build_synthesis_prompt_def prod.case
    by (rule spends_mono, (rule spends_cases(1) spends_lift spends_basic)+, (rule asked spends_rules | assumption)+, simp)
qed

lemma spends_blobs [spends_rules]: "spends Q 0 (blob_put ref content)" "spends Q 0 (blob_get V ref)"
  by (rule spends_nothing; simp add: blob_put_def blob_get_def split: option.split)+

lemma spends_network [spends_rules]:
  "spends Q 0 (rate_limit V c)" "spends Q 0 (stamp_fetch c)" "spends Q 0 (http_request V uri)"
  by (rule spends_nothing; simp add: rate_limit_def stamp_fetch_def http_request_def Let_def split: option.split)+

lemma spends_fetch [spends_rules]: "spends Q 0 (fetch_file V uri c)" "spends Q 0 (fetch_http V uri c)" "spends Q 0 (fetch V uri c)"
  unfolding fetch_def fetch_http_def fetch_file_def Let_def by (rule spends_mono, (rule spends_rules)+, simp)+

lemma spends_collecting [spends_rules]:
  "spends Q 0 (record_source i u t s al h rr ac de re)" "spends Q 0 (store_fetched V i u seen f)"
  unfolding store_fetched_def record_source_def Let_def by (rule spends_mono, (rule spends_rules)+, simp)+

lemma spends_exn:
  assumes "\<And>m. spends Q n (f1 m)" "\<And>m. spends Q n (f2 m)" "\<And>m. spends Q n (f3 m)" "\<And>m. spends Q n (f4 m)" "\<And>m. spends Q n (f5 m)" "\<And>m. spends Q n (f6 m)" "\<And>m. spends Q n (f7 m)" "\<And>m. spends Q n (f8 m)"
    "\<And>m. spends Q n (f9 m)" "\<And>m. spends Q n (f10 m)" "\<And>m. spends Q n (f11 m)" "\<And>m. spends Q n (f12 m)" "\<And>m. spends Q n (f13 m)" "\<And>m. spends Q n (f14 m)" "\<And>m. spends Q n (f15 m)" "\<And>m. spends Q n (f16 m)"
    "\<And>m. spends Q n (f17 m)" "\<And>m. spends Q n (f18 m)" "\<And>m. spends Q n (f19 m)" "\<And>m. spends Q n (f20 m)" "\<And>m. spends Q n (f21 m)" "\<And>i m. spends Q n (f22 i m)" "\<And>m. spends Q n (f23 m)"
  shows "spends Q n (case_exn f1 f2 f3 f4 f5 f6 f7 f8 f9 f10 f11 f12 f13 f14 f15 f16 f17 f18 f19 f20 f21 f22 f23 e)"
  using assms by (cases e) simp_all

lemma spends_collect_one [spends_rules]: "spends Q 0 (fetch_and_store V i u seen)" "spends Q 0 (collect_one V i u seen)"
proof -
  have recorded: "spends Q 0 (and_then (record_source i u t s al h rr ac de re) (\<lambda>_. ret x))" for t s al h rr ac de re and x :: 'x
    by (rule spends_mono, (rule spends_rules)+, simp)
  show fetched: "spends Q 0 (fetch_and_store V i u seen)" for V i u seen
    unfolding fetch_and_store_def
    by (intro spends_mono [OF spends_and_then [where m = 0 and n = 0]] spends_mono [OF spends_cases(3) [where m = 0 and n = 0]] spends_outcome spends_fetch
        spends_exn recorded spends_basic spends_collecting) simp_all
  show "spends Q 0 (collect_one V i u seen)"
    unfolding collect_one_def
    by (intro spends_mono [OF spends_cases(1) [where m = 0 and n = 0]] spends_mono [OF spends_cases(3) [where m = 0 and n = 0]] fetched spends_exn recorded spends_basic) simp_all
qed

lemma spends_uris [spends_rules]: "spends Q 0 (collect_uris V i ex seen us)"
proof (induction us arbitrary: seen)
  case (Cons u us)
  show ?case unfolding collect_uris.simps by (rule spends_mono, (rule spends_rules Cons)+, simp)
qed (simp add: spends_basic)

lemma spends_passage [spends_rules]: "spends Q 0 (passage_row E sid x)" "spends Q 0 (require_run i)"
  unfolding passage_row_def require_run_def by (rule spends_mono, (rule spends_rules)+, simp)+

lemma spends_source [spends_rules]: "spends Q 0 (store_source V hs s)" "spends Q 0 (save_finding i ls g)"
  unfolding store_source_def save_finding_def Let_def
  by (rule spends_mono, (rule spends_rules)+, simp)+

section \<open>What a stage and an execution send\<close>

definition stage_calls :: "string \<Rightarrow> nat" where
  \<comment> \<open>twelve calls per completion: one plan, at most ten extractions, twenty-five verdicts, twice ten pairs, one synthesis\<close>
  "stage_calls stage = (case map_of [(''define'', 12), (''extract'', 10 * 12), (''verify'', 25 * 12), (''detect'', 10 * 24),
     (''conclude'', 12)] stage of Some n \<Rightarrow> n | None \<Rightarrow> 0)"

lemma spends_stages:
  "spends (clean_request (bn_services B)) 12 (run_define B i)" "spends (clean_request (bn_services B)) 0 (run_search B i)" "spends (clean_request (bn_services B)) 0 (run_collect B i)" "spends (clean_request (bn_services B)) 0 (run_store B i)"
  "spends (clean_request (bn_services B)) 120 (run_extract B i)" "spends (clean_request (bn_services B)) 300 (run_verify B i)" "spends (clean_request (bn_services B)) 0 (run_find B i)" "spends (clean_request (bn_services B)) 240 (run_detect B i)"
  "spends (clean_request (bn_services B)) 12 (run_conclude B i)" "spends (clean_request (bn_services B)) 0 (run_trace B i)"
  unfolding run_define_def run_search_def run_collect_def run_store_def run_extract_def run_verify_def run_find_def
    run_detect_def run_conclude_def run_trace_def Let_def max_extract_passages_def max_verify_def
  by (rule spends_mono, (rule spends_rules)+, simp)+

lemma spends_task: "spends (clean_request (bn_services B)) (stage_calls stage) (stage_task B i stage)"
  using spends_stages [of B i] by (simp add: stage_calls_def stage_task_def spends_basic)

lemma spends_emit [spends_rules]:
  "spends Q 0 (emit i event fs)" "spends Q 0 (emit_stage_started i stage d)" "spends Q 0 (emit_stage_completed i stage b d)"
  "spends Q 0 (emit_run_completed i d)" "spends Q 0 (emit_run_paused i m d)" "spends Q 0 (emit_run_failed i m d)"
  unfolding emit_stage_started_def emit_stage_completed_def emit_run_completed_def emit_run_paused_def emit_run_failed_def
  by (rule spends_nothing; simp add: emit_def)+

lemma spends_marks [spends_rules]: "spends Q 0 (update_run i f)" "spends Q 0 (mark_failed i m)"
  unfolding update_run_def mark_failed_def by (rule spends_mono, (rule spends_rules)+, simp)+

lemma spends_flow_steps [spends_rules]:
  "spends Q 0 (mark_stage_start i stage)" "spends Q 0 (mark_checkpoint i)" "spends Q 0 (check_breaker B i budget stage)"
  "spends Q 0 (pause_run i m)" "spends Q 0 (fail_run i e)"
  unfolding mark_stage_start_def mark_checkpoint_def check_breaker_def pause_run_def fail_run_def
  by (rule spends_mono, (rule spends_rules)+, simp)+

lemma spends_run_stage: "spends (clean_request (bn_services B)) (stage_calls stage) (run_stage B i budget stage)"
  unfolding run_stage_def settle_stage_def by (rule spends_mono, (rule spends_rules spends_task)+, simp)

lemma spends_run_stages:
  "spends (clean_request (bn_services B)) (sum_list (map stage_calls (filter (\<lambda>s. s \<notin> completed) stages))) (run_stages B i budget completed stages)"
proof (induction stages)
  case Nil
  show ?case unfolding run_stages.simps by (rule spends_mono [OF spends_basic(1)]) simp
next
  case (Cons s ss)
  then show ?case by (simp add: spends_and_then [OF spends_run_stage])
qed

lemma spends_after:
  "spends Q 0 (case r of Inl (CircuitBreakerError reason) \<Rightarrow> pause_run i reason | Inl e \<Rightarrow> fail_run i e
     | Inr _ \<Rightarrow> and_then (emit_run_completed i None) (\<lambda>_. ret ''completed''))"
proof -
  have "spends Q 0 (and_then (emit_run_completed i None) (\<lambda>_. ret ''completed''))"
    by (rule spends_mono, (rule spends_rules)+, simp)
  then show ?thesis by (cases r) (auto intro: spends_exn spends_flow_steps)
qed

section \<open>Properties\<close>

lemma stage_calls_total: "sum_list (map stage_calls STAGES) = 684"
  by (simp add: stage_calls_def STAGES_def)

lemma sum_list_filter_le: "sum_list (map (f :: 'a \<Rightarrow> nat) (filter P xs)) \<le> sum_list (map f xs)"
  by (induction xs) auto

lemma spends_execution: "\<exists>log. w_sent (snd (execute_stages B i w)) = w_sent w @ log \<and>
    length log \<le> sum_list (map stage_calls (pending_stages i (w_db w))) \<and> list_all (\<lambda>x. clean_request (bn_services B) (snd x)) log"
proof -
  let ?n = "sum_list (map stage_calls (pending_stages i (w_db w)))"
  let ?rest = "and_then (require_run i) (\<lambda>run.
      and_then (outcome_of (run_stages B i (r_budget run) (completed_of i (w_db w)) STAGES)) (\<lambda>r. case r of
        Inl (CircuitBreakerError reason) \<Rightarrow> pause_run i reason | Inl e \<Rightarrow> fail_run i e
      | Inr _ \<Rightarrow> and_then (emit_run_completed i None) (\<lambda>_. ret ''completed'')))"
  have "spends (clean_request (bn_services B)) (0 + (?n + 0)) ?rest"
    unfolding pending_stages_def
    by (intro spends_and_then spends_outcome spends_run_stages spends_after spends_passage)
  moreover have "execute_stages B i w = ?rest w"
    by (simp add: execute_stages_def completed_stages_def and_then_def)
  ultimately show ?thesis by (simp add: spends_def)
qed

text \<open>
  C5. Nothing but redacted text reaches the provider, and never as an instruction: whatever the
  database holds, each request an execution adds is made of the fixed instructions of one service, of
  that service's data block around texts none of which matches a secret pattern, and of the schema of
  the expected answer.
\<close>
theorem prompts_carry_redacted_text:
  "\<exists>log. w_sent (snd (execute_stages B i w)) = w_sent w @ log \<and>
     list_all (clean_request (bn_services B)) (map snd log)"
  using spends_execution [of B i w] by (auto simp: list.pred_map comp_def)

text \<open>
  C13. The bill of an execution is bounded before it starts: whatever the provider answers and however
  the execution ends, it makes at most the calls allotted to the stages that have no checkpoint yet,
  and never more than 684; stages finished by an earlier execution are not paid for again.
\<close>
theorem execution_bounds_provider_calls:
  "length (w_sent (snd (execute_stages B i w))) \<le>
     length (w_sent w) + sum_list (map stage_calls (pending_stages i (w_db w))) \<and>
   sum_list (map stage_calls (pending_stages i (w_db w))) \<le> 684"
  using spends_execution [of B i w] sum_list_filter_le [of stage_calls _ STAGES]
  by (auto simp: pending_stages_def stage_calls_total)

lemma run_stages_skip: "set stages \<subseteq> completed \<Longrightarrow> run_stages B i budget completed stages = ret ()"
  by (induction stages) auto

text \<open>
  Executing a finished run again does no work: when every stage has its checkpoint, the execution
  returns ``completed'', emits that one event and changes nothing else, the run's row included,
  whatever status it holds.
\<close>
theorem finished_runs_are_not_repeated:
  assumes "run_lookup i (w_db w) \<noteq> None" and "set STAGES \<subseteq> completed_of i (w_db w)"
  shows "\<exists>payload. execute_stages B i w = (Inr ''completed'', w\<lparr>w_events := w_events w @ [(''run_completed'', payload)]\<rparr>)"
proof -
  from assms(1) obtain run where "run_lookup i (w_db w) = Some run" by blast
  then have "execute_stages B i w = (Inr ''completed'', snd (emit_run_completed i None w))"
    using run_stages_skip [OF assms(2)]
    by (simp add: execute_stages_def completed_stages_def require_run_def outcome_of_def and_then_def
        emit_run_completed_def emit_def)
  then show ?thesis unfolding emit_run_completed_def emit_def snd_conv by blast
qed

definition failed_at_the_end :: world where
  \<comment> \<open>a run whose last transaction failed after the checkpoint of its last stage\<close>
  "failed_at_the_end = world_of (one_run_db\<lparr>runs := map (\<lambda>r. r\<lparr>r_status := ''failed''\<rparr>) (runs one_run_db), checkpoints :=
     map (\<lambda>(k, s). \<lparr>cp_id = 10 + k, cp_run = 2, cp_stage = s, cp_state = None, cp_ts = 0\<rparr>) (enumerate 0 STAGES)\<rparr>)"

theorem finished_runs_are_not_repeated_witness:
  "fst (execute_stages (demo_bundle obliging_env) 2 failed_at_the_end) = Inr ''completed'' \<and>
   map_option r_status (run_lookup 2 (w_db (snd (execute_stages (demo_bundle obliging_env) 2 failed_at_the_end)))) = Some ''failed''"
proof -
  have row: "map_option r_status (run_lookup 2 (w_db failed_at_the_end)) = Some ''failed''" by code_simp
  have "set STAGES \<subseteq> completed_of 2 (w_db failed_at_the_end)" by code_simp
  with row obtain payload where "execute_stages (demo_bundle obliging_env) 2 failed_at_the_end =
      (Inr ''completed'', failed_at_the_end\<lparr>w_events := w_events failed_at_the_end @ [(''run_completed'', payload)]\<rparr>)"
    using finished_runs_are_not_repeated [of 2 failed_at_the_end "demo_bundle obliging_env"] by auto
  with row show ?thesis by simp
qed

end
