(* ===== verification/ObjectStore.thy ===== *)
theory ObjectStore
  imports Fetching
begin

text \<open>
  The S3 backend of \<open>app/services/blob_store.py\<close>: its construction, which needs the optional
  library, and its two operations. The client library and the service behind it are the record
  \<open>s3_client\<close>, over a state of its own; \<open>lawful_client\<close> says what the code relies on: an
  admitted request reads and writes one object, a request with credentials that are not admitted is a
  \<open>ClientError\<close>, and so is reading an object that does not exist.
\<close>

section \<open>The client\<close>

datatype s3_error =
    ClientError string        \<comment> \<open>the service refused the request\<close>
  | ClientRaised exn          \<comment> \<open>anything else the library raises\<close>

type_synonym credentials = "string option \<times> string option"

record 's s3_client =
  put_object :: "string \<Rightarrow> credentials \<Rightarrow> string \<Rightarrow> string \<Rightarrow> bytes \<Rightarrow> 's \<Rightarrow> (s3_error + unit) \<times> 's"
    \<comment> \<open>endpoint, keys, bucket, object and body\<close>
  get_object :: "string \<Rightarrow> credentials \<Rightarrow> string \<Rightarrow> string \<Rightarrow> 's \<Rightarrow> (s3_error + bytes) \<times> 's"

fun client_exn :: "s3_error \<Rightarrow> exn" where
  "client_exn (ClientError m) = OtherError m"
| "client_exn (ClientRaised e) = e"

section \<open>The store\<close>

record s3_store =
  s3_endpoint :: string
  s3_bucket :: string
  s3_access :: "string option"
  s3_secret :: "string option"

definition S3BlobStore :: "bool \<Rightarrow> string \<Rightarrow> string \<Rightarrow> string option \<Rightarrow> string option \<Rightarrow> s3_store result" where
  \<comment> \<open>the flag says whether \<open>import aiobotocore\<close> succeeds\<close>
  "S3BlobStore installed endpoint bucket access_key secret_key =
     (if \<not> installed
      then Inl (OtherError (''S3BlobStore requires the optional [s3] extra (aiobotocore); '' @
        ''install with '' @ quoted ''pip install -e .[s3]'' @ '' or set BLOB_STORE_BACKEND=local''))
      else Inr \<lparr>s3_endpoint = endpoint, s3_bucket = bucket, s3_access = access_key, s3_secret = secret_key\<rparr>)"

definition s3_keys :: "s3_store \<Rightarrow> credentials" where
  "s3_keys st = (s3_access st, s3_secret st)"

definition s3_put :: "'s s3_client \<Rightarrow> s3_store \<Rightarrow> string \<Rightarrow> bytes \<Rightarrow> 's \<Rightarrow> unit result \<times> 's" where
  "s3_put C st ref content s =
     (case put_object C (s3_endpoint st) (s3_keys st) (s3_bucket st) ref content s of
        (Inl e, s') \<Rightarrow> (Inl (client_exn e), s')
      | (Inr u, s') \<Rightarrow> (Inr (), s'))"

definition s3_get :: "'s s3_client \<Rightarrow> s3_store \<Rightarrow> string \<Rightarrow> 's \<Rightarrow> bytes result \<times> 's" where
  "s3_get C st ref s =
     (case get_object C (s3_endpoint st) (s3_keys st) (s3_bucket st) ref s of
        (Inl (ClientError m), s') \<Rightarrow> (Inl (BlobNotFoundError (''blob '' @ quoted ref @ '' not found in bucket '' @ s3_bucket st)), s')
      | (Inl (ClientRaised e), s') \<Rightarrow> (Inl e, s')
      | (Inr body, s') \<Rightarrow> (Inr body, s'))"

section \<open>What the code relies on\<close>

definition lawful_client :: "'s s3_client \<Rightarrow> ('s \<Rightarrow> string \<Rightarrow> string \<Rightarrow> bytes option) \<Rightarrow> (credentials \<Rightarrow> bool) \<Rightarrow> bool" where
  "lawful_client C objects admits \<longleftrightarrow> (\<forall>e c b k s.
     (admits c \<longrightarrow>
        (\<forall>x. fst (put_object C e c b k x s) = Inr () \<and>
             objects (snd (put_object C e c b k x s)) = (objects s)(b := (objects s b)(k \<mapsto> x))) \<and>
        (\<forall>x. objects s b k = Some x \<longrightarrow> get_object C e c b k s = (Inr x, s)) \<and>
        (objects s b k = None \<longrightarrow> (\<exists>m. get_object C e c b k s = (Inl (ClientError m), s)))) \<and>
     (\<not> admits c \<longrightarrow>
        (\<forall>x. \<exists>m. put_object C e c b k x s = (Inl (ClientError m), s)) \<and>
        (\<exists>m. get_object C e c b k s = (Inl (ClientError m), s))))"

lemma lawful:
  assumes "lawful_client C objects admits"
  shows "admits c \<Longrightarrow> fst (put_object C e c b k x s) = Inr ()"
    and "admits c \<Longrightarrow> objects (snd (put_object C e c b k x s)) = (objects s)(b := (objects s b)(k \<mapsto> x))"
    and "admits c \<Longrightarrow> objects s b k = Some x \<Longrightarrow> get_object C e c b k s = (Inr x, s)"
    and "admits c \<Longrightarrow> objects s b k = None \<Longrightarrow> \<exists>m. get_object C e c b k s = (Inl (ClientError m), s)"
    and "\<not> admits c \<Longrightarrow> \<exists>m. put_object C e c b k x s = (Inl (ClientError m), s)"
    and "\<not> admits c \<Longrightarrow> \<exists>m. get_object C e c b k s = (Inl (ClientError m), s)"
  using assms unfolding lawful_client_def by blast+

lemma lawful_put:
  assumes "lawful_client C objects admits" and "admits (s3_keys st)"
  shows "\<exists>s'. s3_put C st ref content s = (Inr (), s') \<and>
    objects s' = (objects s)(s3_bucket st := (objects s (s3_bucket st))(ref \<mapsto> content))"
  using lawful(1,2) [OF assms, of "s3_endpoint st" "s3_bucket st" ref content s]
  by (auto simp: s3_put_def split: prod.split)

lemma lawful_get:
  assumes "lawful_client C objects admits" and "admits (s3_keys st)"
  shows "s3_get C st ref s = (case objects s (s3_bucket st) ref of
        Some x \<Rightarrow> (Inr x, s)
      | None \<Rightarrow> (Inl (BlobNotFoundError (''blob '' @ quoted ref @ '' not found in bucket '' @ s3_bucket st)), s))"
  using lawful(3) [OF assms, of s "s3_bucket st" ref _ "s3_endpoint st"] lawful(4) [OF assms, of s "s3_bucket st" ref "s3_endpoint st"]
  by (auto simp: s3_get_def split: option.split)

lemma lawful_denied:
  assumes "lawful_client C objects admits" and "\<not> admits (s3_keys st)"
  shows "\<exists>m. s3_put C st ref content s = (Inl (OtherError m), s)"
    and "s3_get C st ref s = (Inl (BlobNotFoundError (''blob '' @ quoted ref @ '' not found in bucket '' @ s3_bucket st)), s)"
  using lawful(5) [OF assms, of "s3_endpoint st" "s3_bucket st" ref content s]
    lawful(6) [OF assms, of "s3_endpoint st" "s3_bucket st" ref s]
  by (auto simp: s3_put_def s3_get_def)

section \<open>Properties\<close>

text \<open>
  What is stored is read back, as it was stored last: unlike the local store, the S3 store replaces
  the object a reference already has, and it touches no other object.
\<close>
theorem s3_last_write_wins:
  assumes "lawful_client C objects admits" and "admits (s3_keys st)" and "s3_put C st ref content s = (r, s')"
  shows "r = Inr () \<and> s3_get C st ref s' = (Inr content, s') \<and>
    (\<forall>other. other \<noteq> ref \<longrightarrow> fst (s3_get C st other s') = fst (s3_get C st other s))"
  using lawful_put [OF assms(1,2), of ref content s] assms(3) lawful_get [OF assms(1,2)]
  by (auto split: option.split)

text \<open>
  A configured secret key shuts the store: \<open>make_blob_store\<close> hands over the stars a
  \<open>SecretStr\<close> shows, so against a service that does not admit them every write fails and
  every read reports a missing blob, even of an object that is there.
\<close>
theorem masked_keys_shut_the_store:
  assumes "lawful_client C objects admits" and "\<And>a. \<not> admits (a, Some ''**********'')"
    and "py_lower (py_strip (blob_store_backend S)) = ''s3''" and "blob_secret_key S = Some (c # cs)"
  shows "\<exists>access secret. make_blob_store S = Inr (S3Blobs (blob_endpoint S) (blob_bucket S) access secret) \<and>
    (\<forall>st. S3BlobStore True (blob_endpoint S) (blob_bucket S) access secret = Inr st \<longrightarrow>
      (\<exists>m. s3_put C st ref content s = (Inl (OtherError m), s)) \<and>
      s3_get C st ref s = (Inl (BlobNotFoundError (''blob '' @ quoted ref @ '' not found in bucket '' @ s3_bucket st)), s))"
proof -
  have "blob_store_backend S \<noteq> []" using assms(3) by (auto simp: py_strip_def py_lower_def)
  then have "make_blob_store S = Inr (S3Blobs (blob_endpoint S) (blob_bucket S) (shown_secret (blob_access_key S)) (Some ''**********''))"
    using assms(3,4) by (simp add: make_blob_store_def shown_secret_def)
  moreover have "\<not> admits (s3_keys st)"
    if "S3BlobStore True (blob_endpoint S) (blob_bucket S) (shown_secret (blob_access_key S)) (Some ''**********'') = Inr st" for st
    using that assms(2) by (auto simp: S3BlobStore_def s3_keys_def)
  ultimately show ?thesis using lawful_denied [OF assms(1)] by blast
qed

section \<open>A service in memory\<close>

definition memory_client :: "(string \<Rightarrow> string \<Rightarrow> bytes option) s3_client" where
  "memory_client = \<lparr>
     put_object = (\<lambda>e c b k x s. if snd c = Some ''key'' then (Inr (), s(b := (s b)(k \<mapsto> x))) else (Inl (ClientError ''AccessDenied''), s)),
     get_object = (\<lambda>e c b k s. if snd c \<noteq> Some ''key'' then (Inl (ClientError ''AccessDenied''), s)
       else case s b k of Some x \<Rightarrow> (Inr x, s) | None \<Rightarrow> (Inl (ClientError ''NoSuchKey''), s))\<rparr>"

lemma memory_client_lawful: "lawful_client memory_client (\<lambda>s. s) (\<lambda>c. snd c = Some ''key'')"
  by (simp add: lawful_client_def memory_client_def)

definition s3_settings :: settings where
  "s3_settings = demo_settings\<lparr>blob_store_backend := ''s3'', blob_secret_key := Some ''key''\<rparr>"

theorem masked_keys_shut_the_store_witness:
  "\<exists>access secret st. make_blob_store s3_settings = Inr (S3Blobs (blob_endpoint s3_settings) (blob_bucket s3_settings) access secret) \<and>
     S3BlobStore True (blob_endpoint s3_settings) (blob_bucket s3_settings) access secret = Inr st \<and>
     fst (s3_get memory_client st ''r'' (\<lambda>_ _. Some ''x'')) = Inl (BlobNotFoundError (''blob '' @ quoted ''r'' @ '' not found in bucket '' @ s3_bucket st))"
proof -
  have "py_lower (py_strip (blob_store_backend s3_settings)) = ''s3''" by code_simp
  moreover have "blob_secret_key s3_settings = Some (CHR ''k'' # ''ey'')" by (simp add: s3_settings_def)
  ultimately obtain access secret where
    "make_blob_store s3_settings = Inr (S3Blobs (blob_endpoint s3_settings) (blob_bucket s3_settings) access secret)"
    "\<And>st. S3BlobStore True (blob_endpoint s3_settings) (blob_bucket s3_settings) access secret = Inr st \<Longrightarrow>
       s3_get memory_client st ''r'' (\<lambda>_ _. Some ''x'') =
         (Inl (BlobNotFoundError (''blob '' @ quoted ''r'' @ '' not found in bucket '' @ s3_bucket st)), (\<lambda>_ _. Some ''x''))"
    using masked_keys_shut_the_store [OF memory_client_lawful, of s3_settings "CHR ''k''" "''ey''" "''r''" "[]" "\<lambda>_ _. Some ''x''"]
    by auto
  then show ?thesis unfolding S3BlobStore_def by (metis fst_conv)
qed

end
