(* ===== verification/Runner.thy ===== *)
theory Runner
  imports Flow
begin

text \<open>
  How the HTTP layer reaches the pipeline: \<open>DefaultPipelineRunner\<close> of \<open>app/api/deps.py\<close>
  and the names of \<open>app/workers/worker.py\<close>. The Prefect client is a parameter: connecting to the
  configured URL, looking up the deployment and creating a flow run may each raise; the flow run's
  state may be absent or have no name. What the worker does with the flow run happens in its own process.
\<close>

section \<open>The runner\<close>

record prefect_client =
  read_deployment_by_name :: "string \<Rightarrow> string result"
  create_flow_run_from_deployment :: "string \<Rightarrow> json \<Rightarrow> string option option result"

record api =
  ap_settings :: settings
  ap_surroundings :: "settings \<Rightarrow> services"
  ap_prefect :: "string \<Rightarrow> prefect_client result"

definition ap_env :: "api \<Rightarrow> env" where
  "ap_env A = sv_env (ap_surroundings A (ap_settings A))"

definition FLOW_NAME :: string where "FLOW_NAME = ''research-pipeline''"
definition WORK_POOL_NAME :: string where "WORK_POOL_NAME = ''research''"
definition DEPLOYMENT_NAME :: string where "DEPLOYMENT_NAME = ''research-worker''"

definition submitting :: "api \<Rightarrow> bool" where
  "submitting A \<longleftrightarrow> prefect_api_url (ap_settings A) \<noteq> []"

definition persist_start_failure :: "uuid \<Rightarrow> string \<Rightarrow> unit prog" where
  \<comment> \<open>every exception of the block is swallowed\<close>
  "persist_start_failure i reason =
     attempt
       (and_then (fetch_db (run_lookup i)) (\<lambda>r. case r of
          None \<Rightarrow> ret ()
        | Some run \<Rightarrow> if r_status run \<noteq> ''submitted'' then ret () else mark_failed i reason))
       (\<lambda>_. ret ())"

definition submitted_state :: "string option option \<Rightarrow> string" where
  "submitted_state state = (case state of
     None \<Rightarrow> ''unknown''
   | Some state_name \<Rightarrow> (case state_name of None \<Rightarrow> ''unknown'' | Some n \<Rightarrow> if n = [] then ''unknown'' else n))"

definition submit_run :: "api \<Rightarrow> uuid \<Rightarrow> string prog" where
  "submit_run A i =
     (let deployment_name = FLOW_NAME @ CHR ''/'' # DEPLOYMENT_NAME
      in case result_bind (ap_prefect A (prefect_api_url (ap_settings A))) (\<lambda>client.
              result_bind (read_deployment_by_name client deployment_name) (\<lambda>deployment.
              create_flow_run_from_deployment client deployment (JObj [(''run_id'', JStr (str_uuid i))]))) of
           Inr state \<Rightarrow> ret (submitted_state state)
         | Inl exc \<Rightarrow> and_then (persist_start_failure i (exn_message exc)) (\<lambda>_. ret ''failed''))"

definition runner_services :: "api \<Rightarrow> pipeline_services option \<Rightarrow> pipeline_services result" where
  \<comment> \<open>\<open>services or self._build_services(...)\<close>\<close>
  "runner_services A given = (case given of
     Some B \<Rightarrow> Inr B | None \<Rightarrow> build_pipeline_services (ap_surroundings A) (ap_settings A))"

definition runner_run :: "api \<Rightarrow> uuid \<Rightarrow> pipeline_services option \<Rightarrow> string prog" where
  "runner_run A i given =
     (if submitting A then submit_run A i
      else case runner_services A given of
          Inl exc \<Rightarrow> and_then (persist_start_failure i (exn_message exc)) (\<lambda>_. ret ''failed'')
        | Inr B \<Rightarrow> attempt (research_pipeline (ap_surroundings A) (ap_settings A) i (Some B)) (\<lambda>_. ret ''failed''))"

definition runner_resume :: "api \<Rightarrow> uuid \<Rightarrow> pipeline_services option \<Rightarrow> string prog" where
  "runner_resume A i given =
     (if submitting A then submit_run A i
      else case runner_services A given of
          Inl exc \<Rightarrow> ret ''failed''
        | Inr B \<Rightarrow> attempt (resume_pipeline (ap_surroundings A) (ap_settings A) i (Some B)) (\<lambda>_. ret ''failed''))"

text \<open>Programs are evaluated only when they meet a world.\<close>

lemmas runner_code [code] =
  persist_start_failure_def [THEN fun_cong] submit_run_def [THEN fun_cong]
  runner_run_def [THEN fun_cong] runner_resume_def [THEN fun_cong]

section \<open>What the runner changes\<close>

context db_relation
begin

lemma runner_keeps [keeps_rules]:
  "keeps Q (persist_start_failure i m)" "keeps Q (submit_run A i)"
  "keeps Q (runner_run A i given)" "keeps Q (runner_resume A i given)"
  unfolding persist_start_failure_def submit_run_def runner_run_def runner_resume_def Let_def
  by (intro keeps_rules)+

end

lemma research_pipeline_given:
  "research_pipeline env S i (Some B) = execute_stages B i" "resume_pipeline env S i (Some B) = execute_stages B i"
  by (rule ext; simp add: research_pipeline_def resume_pipeline_def and_then_def)+

lemma start_failure_run:
  "persist_start_failure i m w = (Inr (), snd (persist_start_failure i m w)) \<and>
   (w_db (snd (persist_start_failure i m w)) = w_db w \<or>
    map_option r_status (run_lookup i (w_db w)) = Some ''submitted'' \<and>
    (\<exists>a t. commit [UpdRun i (\<lambda>r. r\<lparr>r_status := ''failed''\<rparr>), AddAudit (failure_audit a i t m)] (w_db w) =
       Inr (w_db (snd (persist_start_failure i m w)))))"
proof (cases "map_option r_status (run_lookup i (w_db w)) = Some ''submitted''")
  case False
  then show ?thesis
    by (auto simp: persist_start_failure_def attempt_def and_then_def split: option.split)
next
  case True
  then obtain run where run: "run_lookup i (w_db w) = Some run" "r_status run = ''submitted''" by auto
  obtain r w' where m: "mark_failed i m w = (r, w')" by fastforce
  from run m have "persist_start_failure i m w = (Inr (), w')"
    by (cases r) (auto simp: persist_start_failure_def attempt_def and_then_def)
  with mark_failed_run [OF m] True show ?thesis by (cases r) auto
qed

lemma persisted_start_failure:
  assumes "persist_start_failure i m w = (r, w')"
  shows "r = Inr () \<and> (w_db w' = w_db w \<or> map_option r_status (run_lookup i (w_db w)) = Some ''submitted'' \<and>
    (\<exists>a t. commit [UpdRun i (\<lambda>r. r\<lparr>r_status := ''failed''\<rparr>), AddAudit (failure_audit a i t m)] (w_db w) = Inr (w_db w')))"
  using start_failure_run [of i m w] assms by auto

lemma submit_run_run:
  assumes "submit_run A i w = (r, w')"
  shows "(\<exists>outcome. r = Inr outcome) \<and> (w_db w' = w_db w \<or> map_option r_status (run_lookup i (w_db w)) = Some ''submitted'' \<and>
    (\<exists>a t m. commit [UpdRun i (\<lambda>r. r\<lparr>r_status := ''failed''\<rparr>), AddAudit (failure_audit a i t m)] (w_db w) = Inr (w_db w')))"
proof -
  from assms obtain m where "(\<exists>outcome. r = Inr outcome) \<and> w' = w \<or>
      and_then (persist_start_failure i m) (\<lambda>_. ret ''failed'') w = (r, w')"
    unfolding submit_run_def Let_def by (auto split: sum.splits)
  then show ?thesis
  proof
    assume p: "and_then (persist_start_failure i m) (\<lambda>_. ret ''failed'') w = (r, w')"
    obtain q w1 where q: "persist_start_failure i m w = (q, w1)" by fastforce
    have "w' = w1" "r = Inr ''failed''"
      using p persisted_start_failure [OF q] q by (simp_all add: and_then_def)
    with persisted_start_failure [OF q] show ?thesis by blast
  qed blast
qed

lemma runner_ends:
  "\<exists>outcome w'. runner_run A i given w = (Inr outcome, w')" "\<exists>outcome w'. runner_resume A i given w = (Inr outcome, w')"
proof -
  have s: "\<exists>outcome w'. submit_run A i w = (Inr outcome, w')"
    using submit_run_run [of A i w] by (cases "submit_run A i w") auto
  have p: "\<exists>w'. persist_start_failure i m w = (Inr (), w')" for m
    using persisted_start_failure [of i m w] by (cases "persist_start_failure i m w") auto
  have a: "\<exists>outcome w'. attempt q (\<lambda>_. ret ''failed'') w = (Inr outcome, w')" for q :: "string prog"
    by (cases "q w"; cases "fst (q w)") (auto simp: attempt_def)
  show "\<exists>outcome w'. runner_run A i given w = (Inr outcome, w')"
  proof (cases "runner_services A given")
    case (Inl e)
    obtain w' where "persist_start_failure i (exn_message e) w = (Inr (), w')" using p by blast
    with Inl s show ?thesis by (simp add: runner_run_def and_then_def)
  next
    case (Inr B)
    with s a show ?thesis by (simp add: runner_run_def)
  qed
  show "\<exists>outcome w'. runner_resume A i given w = (Inr outcome, w')"
    using s a by (cases "runner_services A given") (simp_all add: runner_resume_def)
qed

section \<open>Properties\<close>

text \<open>
  C24. The runner never raises: running a run returns an outcome, keeps every constraint of the
  database and the append-only logs. When the pipeline could not be started (the services cannot be
  built, or the worker queue refuses the run) the database changes only if the run was still
  submitted, and then exactly by setting it to failed together with its redacted audit row.
\<close>
theorem start_failure_only_from_submitted:
  assumes "runner_run A i given w = (r, w')"
  shows "(\<exists>outcome. r = Inr outcome) \<and> logs_grow (w_db w) (w_db w') \<and> (db_ok (w_db w) \<longrightarrow> db_ok (w_db w')) \<and>
    (submitting A \<or> \<not> is_ok (runner_services A given) \<longrightarrow> w_db w' = w_db w \<or>
       map_option r_status (run_lookup i (w_db w)) = Some ''submitted'' \<and>
       (\<exists>a t m. commit [UpdRun i (\<lambda>r. r\<lparr>r_status := ''failed''\<rparr>), AddAudit (failure_audit a i t m)] (w_db w) = Inr (w_db w')))"
proof -
  have "\<exists>outcome. r = Inr outcome" using runner_ends(1) [of A i given w] assms by auto
  moreover have "logs_grow (w_db w) (w_db w')" by (rule keepsD [OF grow.runner_keeps(3) assms])
  moreover have "db_ok (w_db w) \<longrightarrow> db_ok (w_db w')"
    using keepsD [OF okay.runner_keeps(3) assms] by (simp add: stays_ok_def)
  moreover have "w_db w' = w_db w \<or> map_option r_status (run_lookup i (w_db w)) = Some ''submitted'' \<and>
       (\<exists>a t m. commit [UpdRun i (\<lambda>r. r\<lparr>r_status := ''failed''\<rparr>), AddAudit (failure_audit a i t m)] (w_db w) = Inr (w_db w'))"
    if "submitting A \<or> \<not> is_ok (runner_services A given)"
  proof (cases "submitting A")
    case True
    with assms have "submit_run A i w = (r, w')" by (simp add: runner_run_def)
    from submit_run_run [OF this] show ?thesis by blast
  next
    case False
    with that obtain e where e: "runner_services A given = Inl e" by (cases "runner_services A given") auto
    obtain q w1 where q: "persist_start_failure i (exn_message e) w = (q, w1)" by fastforce
    have "w' = w1" using assms q persisted_start_failure [OF q] False e by (simp add: runner_run_def and_then_def)
    with persisted_start_failure [OF q] show ?thesis by blast
  qed
  ultimately show ?thesis by blast
qed

definition demo_api :: "env \<Rightarrow> api" where
  "demo_api E = \<lparr>ap_settings = demo_settings, ap_surroundings = (\<lambda>S. demo_services E), ap_prefect = (\<lambda>_. Inl (OtherError ''offline''))\<rparr>"

definition queue_api :: "env \<Rightarrow> api" where
  \<comment> \<open>a service that hands its runs to a worker queue it cannot reach\<close>
  "queue_api E = (demo_api E)\<lparr>ap_settings := demo_settings\<lparr>prefect_api_url := ''u''\<rparr>\<rparr>"

theorem start_failure_only_from_submitted_witness:
  "\<exists>w'. runner_run (queue_api obliging_env) 2 None one_run_world = (Inr ''failed'', w') \<and> db_ok (w_db w') \<and>
     map_option r_status (run_lookup 2 (w_db w')) = Some ''failed''"
proof -
  let ?r = "runner_run (queue_api obliging_env) 2 None one_run_world"
  have r: "fst ?r = Inr ''failed''" "map_option r_status (run_lookup 2 (w_db (snd ?r))) = Some ''failed''" by code_simp+
  note run = run_result [OF r(1)]
  have "db_ok (w_db (snd ?r))" using start_failure_only_from_submitted [OF run] one_run_ok by simp
  with r(2) show ?thesis by (intro exI [of _ "snd ?r"] conjI run)
qed

end
