(* ===== verification/Responses.thy ===== *)
theory Responses
  imports Runner "HOL-Library.Monad_Syntax"
begin

text \<open>
  The contract models of \<open>app/api/schemas.py\<close>, the validation of a stored report
  (\<open>Report.model_validate\<close> of \<open>app/services/report_renderer.py\<close>) and the problem bodies
  of \<open>app/main.py\<close>. Pydantic's coercion of a scalar (a boolean, a float, a timestamp) is the
  parameter \<open>coercions\<close>; strings, lists and objects are not coerced. The report of a JSON value
  is written with the option monad: \<open>None\<close> is a validation error.
\<close>

section \<open>Validating a stored report\<close>

record coercions =
  co_bool :: "json \<Rightarrow> bool option"
  co_float :: "json \<Rightarrow> rat option"
  co_time :: "json \<Rightarrow> time option"

fun read_str :: "json \<Rightarrow> string option" where
  "read_str (JStr s) = Some s"
| "read_str _ = None"

fun read_list :: "(json \<Rightarrow> 'a option) \<Rightarrow> json \<Rightarrow> 'a list option" where
  "read_list p (JList xs) = those (map p xs)"
| "read_list p _ = None"

fun read_opt :: "(json \<Rightarrow> 'a option) \<Rightarrow> json \<Rightarrow> 'a option option" where
  "read_opt p JNull = Some None"
| "read_opt p j = map_option Some (p j)"

definition required :: "(json \<Rightarrow> 'a option) \<Rightarrow> string \<Rightarrow> json \<Rightarrow> 'a option" where
  "required p key j = Option.bind (jget key j) p"

definition with_default :: "'a \<Rightarrow> (json \<Rightarrow> 'a option) \<Rightarrow> string \<Rightarrow> json \<Rightarrow> 'a option" where
  "with_default d p key j = (case jget key j of None \<Rightarrow> Some d | Some x \<Rightarrow> p x)"

definition read_unit :: "coercions \<Rightarrow> json \<Rightarrow> rat option" where
  \<comment> \<open>a float with \<open>ge=0.0, le=1.0\<close>\<close>
  "read_unit C j = Option.bind (co_float C j) (\<lambda>x. if 0 \<le> x \<and> x \<le> 1 then Some x else None)"

definition read_support :: "json \<Rightarrow> report_support option" where
  "read_support j = do {
     statement \<leftarrow> required read_str ''statement_id'' j;
     passage \<leftarrow> required read_str ''passage_id'' j;
     score \<leftarrow> required read_str ''support_score'' j;
     Some \<lparr>rs_statement = statement, rs_passage = passage, rs_score = score\<rparr> }"

definition read_evidence :: "json \<Rightarrow> report_evidence option" where
  "read_evidence j = do {
     i \<leftarrow> required read_str ''id'' j;
     t \<leftarrow> required read_str ''text'' j;
     domain \<leftarrow> required read_str ''source_domain'' j;
     Some \<lparr>re_id = i, re_text = t, re_domain = domain\<rparr> }"

definition read_conclusion :: "coercions \<Rightarrow> json \<Rightarrow> report_conclusion option" where
  "read_conclusion C j = do {
     i \<leftarrow> required read_str ''id'' j;
     t \<leftarrow> required read_str ''text'' j;
     confidence \<leftarrow> with_default None (read_opt (read_unit C)) ''confidence'' j;
     review \<leftarrow> with_default False (co_bool C) ''human_review_required'' j;
     one_sided \<leftarrow> with_default False (co_bool C) ''one_sided'' j;
     warnings \<leftarrow> with_default [] (read_list read_str) ''contradiction_warnings'' j;
     support \<leftarrow> with_default [] (read_list read_support) ''support_matrix'' j;
     evidence \<leftarrow> with_default [] (read_list read_evidence) ''evidence_statements'' j;
     Some \<lparr>rc_id = i, rc_text = t, rc_confidence = confidence, rc_review = review, rc_one_sided = one_sided,
       rc_warnings = warnings, rc_support = support, rc_evidence = evidence\<rparr> }"

definition read_report :: "coercions \<Rightarrow> json \<Rightarrow> report option" where
  "read_report C j = do {
     i \<leftarrow> required read_str ''run_id'' j;
     topic \<leftarrow> required read_str ''topic'' j;
     t \<leftarrow> required (co_time C) ''generated_at'' j;
     cs \<leftarrow> with_default [] (read_list (read_conclusion C)) ''conclusions'' j;
     Some \<lparr>rep_run = i, rep_topic = topic, rep_generated = t, rep_conclusions = cs\<rparr> }"

definition validate_report :: "coercions \<Rightarrow> json \<Rightarrow> report result" where
  "validate_report C j = (case read_report C j of
     None \<Rightarrow> Inl (ValidationError ''validation error for Report'') | Some r \<Rightarrow> Inr r)"

lemma those_map_Some [simp]: "(\<And>x. x \<in> set xs \<Longrightarrow> p (f x) = Some x) \<Longrightarrow> those (map (p \<circ> f) xs) = Some xs"
  by (induction xs) auto

lemma read_list_map: "(\<And>x. x \<in> set xs \<Longrightarrow> p (f x) = Some x) \<Longrightarrow> read_list p (JList (map f xs)) = Some xs"
  by simp

definition coerces :: "coercions \<Rightarrow> env \<Rightarrow> bool" where
  \<comment> \<open>what Pydantic documents: a value dumped in JSON mode is read back\<close>
  "coerces C E \<longleftrightarrow> (\<forall>b. co_bool C (JBool b) = Some b) \<and> (\<forall>x. co_float C (JFloat x) = Some x) \<and>
     (\<forall>t. co_time C (JStr (model_time E t)) = Some t)"

lemma read_support_dump: "read_support (JObj [(''statement_id'', JStr (rs_statement s)),
    (''passage_id'', JStr (rs_passage s)), (''support_score'', JStr (rs_score s))]) = Some s"
  by (simp add: read_support_def required_def jget_def)

lemma read_evidence_dump: "read_evidence (JObj [(''id'', JStr (re_id e)), (''text'', JStr (re_text e)),
    (''source_domain'', JStr (re_domain e))]) = Some e"
  by (simp add: read_evidence_def required_def jget_def)

lemma read_conclusion_dump:
  assumes "coerces C E" and "unit_interval (rc_confidence c)"
  shows "read_conclusion C (conclusion_json c) = Some c"
proof -
  have "read_opt (read_unit C) (jopt JFloat (rc_confidence c)) = Some (rc_confidence c)"
    using assms by (cases "rc_confidence c") (simp_all add: jopt_def read_unit_def coerces_def unit_interval_def)
  moreover have "co_bool C (JBool b) = Some b" for b using assms(1) by (simp add: coerces_def)
  moreover have "read_list read_str (JList (map JStr xs)) = Some xs" for xs by (rule read_list_map) simp
  ultimately show ?thesis
    unfolding read_conclusion_def conclusion_json_def with_default_def required_def jget_def
    by (simp add: read_list_map read_support_dump read_evidence_dump del: read_list.simps)
qed

section \<open>The contract models\<close>

record run_create =
  rq_question :: string
  rq_budget :: "rat option"
  rq_execute :: bool

record run_read =
  rr_run :: uuid
  rr_tenant :: uuid
  rr_question :: string
  rr_status :: string
  rr_stage :: "string option"
  rr_progress :: rat
  rr_budget :: rat
  rr_spent :: rat
  rr_created :: time
  rr_completed :: "time option"

record stage_info =
  si_stage :: string
  si_ts :: time
  si_summary :: "json option"

record evidence_ref =
  er_statement :: uuid

record conclusion_read =
  cr_id :: uuid
  cr_text :: string
  cr_confidence :: "rat option"
  cr_review :: bool
  cr_evidence :: "evidence_ref list"

record trace_node =
  tn_id :: uuid
  tn_kind :: string
  tn_text :: "string option"
  tn_uri :: "string option"
  tn_title :: "string option"

record trace_chain =
  tc_statement :: trace_node
  tc_passage :: trace_node
  tc_source :: trace_node

record contradiction_read =
  cx_id :: uuid
  cx_a :: uuid
  cx_b :: uuid
  cx_status :: contradiction_status
  cx_evidence :: "json option"
  cx_created :: time

record report_read =
  rd_run :: uuid
  rd_markdown :: string

record kb_result =
  kr_statement :: uuid
  kr_run :: uuid
  kr_text :: string
  kr_confidence :: "rat option"
  kr_passage :: "string option"
  kr_uri :: "string option"

record audit_read =
  ar_id :: uuid
  ar_ts :: time
  ar_entity_type :: string
  ar_entity_id :: "string option"
  ar_action :: string
  ar_actor :: "string option"
  ar_decision :: "string option"
  ar_reason :: "string option"
  ar_evidence :: "json option"

record audit_export =
  ae_run :: uuid
  ae_count :: nat
  ae_rows :: "audit_read list"

datatype body =
    Run_Body run_read
  | Stages_Body "stage_info list"
  | Conclusions_Body "conclusion_read list"
  | Trace_Body trace_chain
  | Contradictions_Body "contradiction_read list"
  | Report_Body report_read
  | Search_Body "kb_result list"
  | Audit_Body audit_export

definition validate_question :: "string \<Rightarrow> string option" where
  \<comment> \<open>the bounds of the field, then \<open>_question_not_blank\<close>\<close>
  "validate_question value =
     (if length value < 1 \<or> 2000 < length value then None
      else let stripped = py_strip value in if stripped = [] then None else Some stripped)"

definition validate_run_create :: "run_create \<Rightarrow> run_create option" where
  "validate_run_create b =
     (case validate_question (rq_question b) of
        None \<Rightarrow> None
      | Some q \<Rightarrow> if (case rq_budget b of None \<Rightarrow> True | Some x \<Rightarrow> 0 \<le> x) then Some (b\<lparr>rq_question := q\<rparr>) else None)"

definition as_dict :: "json option \<Rightarrow> json option result" where
  \<comment> \<open>a field typed \<open>dict[str, Any] | None\<close>\<close>
  "as_dict j = (case j of
     None \<Rightarrow> Inr None
   | Some x \<Rightarrow> if is_object x then Inr (Some x) else Inl (ValidationError ''Input should be a valid dictionary''))"

definition unit_field :: "rat option \<Rightarrow> rat option result" where
  \<comment> \<open>\<open>ge=0.0, le=1.0\<close>\<close>
  "unit_field c = (if unit_interval c then Inr c else Inl (ValidationError ''confidence out of range''))"

section \<open>Problem bodies\<close>

record problem =
  pb_type :: string
  pb_title :: string
  pb_status :: nat
  pb_detail :: string
  pb_instance :: string

definition http_phrases :: "(nat \<times> string) list" where
  \<comment> \<open>\<open>http.HTTPStatus\<close>, for the codes the service answers with (Python 3.12)\<close>
  "http_phrases = [(200, ''OK''), (201, ''Created''), (400, ''Bad Request''), (401, ''Unauthorized''),
     (403, ''Forbidden''), (404, ''Not Found''), (405, ''Method Not Allowed''), (422, ''Unprocessable Entity''),
     (500, ''Internal Server Error''), (503, ''Service Unavailable'')]"

definition status_title :: "nat \<Rightarrow> string" where
  "status_title code = (case map_of http_phrases code of Some phrase \<Rightarrow> phrase | None \<Rightarrow> ''Error'')"

definition problem_response :: "string \<Rightarrow> nat \<Rightarrow> string \<Rightarrow> problem" where
  "problem_response url code detail = \<lparr>pb_type = ''about:blank'', pb_title = status_title code, pb_status = code,
     pb_detail = redact_secrets detail, pb_instance = url\<rparr>"

section \<open>Properties\<close>

text \<open>
  C26. A report survives being stored: reading the JSON dump of a report gives back the report,
  provided its confidences lie in the unit interval and the scalars are read back as they were dumped.
\<close>
theorem report_json_roundtrip:
  assumes "coerces C E" and "\<forall>c \<in> set (rep_conclusions r). unit_interval (rc_confidence c)"
  shows "validate_report C (render_json E r) = Inr r"
proof -
  have "co_time C (JStr (model_time E t)) = Some t" for t using assms(1) by (simp add: coerces_def)
  moreover have "read_list (read_conclusion C) (JList (map conclusion_json (rep_conclusions r))) = Some (rep_conclusions r)"
    using assms by (intro read_list_map read_conclusion_dump [of C E]) auto
  ultimately have "read_report C (render_json E r) = Some r"
    unfolding read_report_def render_json_def with_default_def required_def jget_def
    by (simp del: read_list.simps)
  then show ?thesis by (simp add: validate_report_def)
qed

definition demo_coercions :: coercions where
  \<comment> \<open>a timestamp is dumped as that many marks\<close>
  "demo_coercions = \<lparr>co_bool = (\<lambda>j. case j of JBool b \<Rightarrow> Some b | _ \<Rightarrow> None),
     co_float = (\<lambda>j. case j of JFloat x \<Rightarrow> Some x | JInt i \<Rightarrow> Some (of_int i) | _ \<Rightarrow> None),
     co_time = (\<lambda>j. case j of JStr s \<Rightarrow> Some (if startswith ''-'' s then - int (length s - 1) else int (length s)) | _ \<Rightarrow> None)\<rparr>"

definition marked_env :: env where
  "marked_env = obliging_env\<lparr>model_time := (\<lambda>t. if t < 0 then CHR ''-'' # replicate (nat (- t)) CHR ''|'' else replicate (nat t) CHR ''|'')\<rparr>"

definition demo_report :: report where
  "demo_report = \<lparr>rep_run = ''r'', rep_topic = ''q'', rep_generated = 3, rep_conclusions =
     [\<lparr>rc_id = ''k'', rc_text = ''c'', rc_confidence = Some (1/2), rc_review = True, rc_one_sided = False, rc_warnings = [''w''],
       rc_support = [\<lparr>rs_statement = ''s'', rs_passage = ''p'', rs_score = ''full''\<rparr>],
       rc_evidence = [\<lparr>re_id = ''s'', re_text = ''t'', re_domain = ''a.org''\<rparr>]\<rparr>]\<rparr>"

lemma demo_coerces: "coerces demo_coercions marked_env"
proof -
  have "replicate n CHR ''|'' \<noteq> CHR ''-'' # ta" for n ta by (cases n) simp_all
  then show ?thesis by (simp add: coerces_def demo_coercions_def marked_env_def startswith_iff)
qed

theorem report_json_roundtrip_witness:
  "validate_report demo_coercions (render_json marked_env demo_report) = Inr demo_report"
  by (rule report_json_roundtrip [OF demo_coerces]) (simp add: demo_report_def unit_interval_def)

end
