(* ===== verification/Api.thy ===== *)
theory Api
  imports Responses "HOL-Library.Multiset"
begin

text \<open>
  The HTTP surface: the ten endpoints of \<open>app/api/routes.py\<close>, the tenant of a request
  (\<open>app/api/tenant.py\<close>) and the answers of \<open>app/main.py\<close>. A query returns its rows in
  insertion order. The framework's part is what FastAPI documents: the tenant dependency is resolved
  before the body and the query are validated, an \<open>HTTPException\<close> becomes its problem body, an
  invalid request becomes status 422 and any other exception status 500. The text the framework
  writes for an invalid request is a parameter.
\<close>

section \<open>Tenants and runs\<close>

definition get_tenant_id :: "string \<Rightarrow> uuid prog" where
  "get_tenant_id x_tenant_id =
     and_then (fetch_db (\<lambda>d. find (\<lambda>t. t_namespace t = x_tenant_id) (tenants d))) (\<lambda>tenant. case tenant of
       None \<Rightarrow> throw (HTTPException 403 (''unknown tenant namespace '' @ quoted x_tenant_id))
     | Some t \<Rightarrow> ret (t_id t))"

definition load_run :: "uuid \<Rightarrow> uuid \<Rightarrow> run prog" where
  "load_run i tenant =
     and_then (fetch_db (run_lookup i)) (\<lambda>run. case run of
       None \<Rightarrow> throw (HTTPException 404 ''run not found'')
     | Some r \<Rightarrow> if r_tenant r \<noteq> tenant then throw (HTTPException 403 ''cross-tenant access denied'') else ret r)"

definition run_to_read :: "run \<Rightarrow> run_read" where
  "run_to_read r = \<lparr>rr_run = r_id r, rr_tenant = r_tenant r, rr_question = redact_secrets (r_question r),
     rr_status = r_status r, rr_stage = r_stage r, rr_progress = r_progress r, rr_budget = r_budget r,
     rr_spent = r_spent r, rr_created = r_created r, rr_completed = r_completed r\<rparr>"

section \<open>Submitting, polling and resuming\<close>

definition submitted_run :: "uuid \<Rightarrow> uuid \<Rightarrow> settings \<Rightarrow> run_create \<Rightarrow> time \<Rightarrow> run" where
  "submitted_run i tenant S body t = \<lparr>r_id = i, r_tenant = tenant, r_question = rq_question body,
     r_status = ''submitted'', r_stage = None, r_progress = 0,
     r_budget = (case rq_budget body of Some x \<Rightarrow> x | None \<Rightarrow> run_budget_usd S), r_spent = 0,
     r_checkpoint = None, r_created = t, r_completed = None\<rparr>"

definition create_run :: "api \<Rightarrow> uuid \<Rightarrow> run_create \<Rightarrow> run_read prog" where
  "create_run A tenant body =
     and_then uuid4 (\<lambda>i.
     and_then (reads w_now) (\<lambda>t.
     and_then (tx [AddRun (submitted_run i tenant (ap_settings A) body t)]) (\<lambda>_.
     and_then (if rq_execute body then runner_run A i None else ret []) (\<lambda>_.
     and_then (fetch_db (run_lookup i)) (\<lambda>fresh. case fresh of
       None \<Rightarrow> throw (HTTPException 500 ''run created but could not be re-read'')
     | Some r \<Rightarrow> ret (run_to_read r))))))"

definition get_run :: "uuid \<Rightarrow> uuid \<Rightarrow> run_read prog" where
  "get_run i tenant = and_then (load_run i tenant) (\<lambda>run. ret (run_to_read run))"

definition resume_run :: "api \<Rightarrow> uuid \<Rightarrow> uuid \<Rightarrow> run_read prog" where
  "resume_run A i tenant =
     and_then (load_run i tenant) (\<lambda>run.
     and_then (runner_resume A (r_id run) None) (\<lambda>_.
     and_then (fetch_db (run_lookup (r_id run))) (\<lambda>fresh.
     ret (run_to_read (case fresh of None \<Rightarrow> run | Some r \<Rightarrow> r)))))"

section \<open>Stages, conclusions, contradictions, audit\<close>

definition stage_index :: "string \<Rightarrow> nat" where
  \<comment> \<open>\<open>STAGES.index(stage)\<close>, or the length of the list for an unknown stage\<close>
  "stage_index stage = length (takeWhile (\<lambda>s. s \<noteq> stage) STAGES)"

definition stage_to_read :: "checkpoint \<Rightarrow> stage_info result" where
  "stage_to_read row = result_bind (as_dict (map_option redact_json (cp_state row))) (\<lambda>summary.
     Inr \<lparr>si_stage = cp_stage row, si_ts = cp_ts row, si_summary = summary\<rparr>)"

definition get_stages :: "uuid \<Rightarrow> uuid \<Rightarrow> stage_info list prog" where
  "get_stages i tenant =
     and_then (load_run i tenant) (\<lambda>_.
     and_then (fetch_db (\<lambda>d. filter (\<lambda>c. cp_run c = i) (checkpoints d))) (\<lambda>rows.
     lift (map_results stage_to_read (sort_key (\<lambda>row. stage_index (cp_stage row)) rows))))"

definition conclusion_to_read :: "db \<Rightarrow> conclusion \<Rightarrow> conclusion_read result" where
  \<comment> \<open>the pipeline never fills in \<open>finding_id\<close>\<close>
  "conclusion_to_read d k = result_bind (unit_field (k_confidence k)) (\<lambda>confidence.
     Inr \<lparr>cr_id = k_id k, cr_text = redact_secrets (k_text k), cr_confidence = confidence, cr_review = k_review k,
       cr_evidence = map (\<lambda>(c, s). \<lparr>er_statement = s\<rparr>) (filter (\<lambda>(c, s). c = k_id k) (conclusion_evidence d))\<rparr>)"

definition get_conclusions :: "env \<Rightarrow> uuid \<Rightarrow> uuid \<Rightarrow> conclusion_read list prog" where
  "get_conclusions E i tenant =
     and_then (load_run i tenant) (\<lambda>_.
     and_then (fetch_db (\<lambda>d. map_results (conclusion_to_read d)
       (sort_key (\<lambda>k. isoformat E (k_created k)) (filter (\<lambda>k. k_run k = i) (conclusions d))))) lift)"

definition contradiction_to_read :: "contradiction \<Rightarrow> contradiction_read result" where
  "contradiction_to_read c = result_bind (as_dict (map_option redact_json (c_evidence c))) (\<lambda>evidence.
     Inr \<lparr>cx_id = c_id c, cx_a = c_a c, cx_b = c_b c, cx_status = c_status c, cx_evidence = evidence, cx_created = c_created c\<rparr>)"

definition get_contradictions :: "env \<Rightarrow> uuid \<Rightarrow> uuid \<Rightarrow> contradiction_read list prog" where
  "get_contradictions E i tenant =
     and_then (load_run i tenant) (\<lambda>_.
     and_then (fetch_db (\<lambda>d. filter (\<lambda>c. c_run c = i) (contradictions d))) (\<lambda>rows.
     lift (map_results contradiction_to_read (sort_key (\<lambda>c. isoformat E (c_created c)) rows))))"

definition audit_to_read :: "audit_row \<Rightarrow> audit_read result" where
  "audit_to_read a = result_bind (as_dict (map_option redact_json (a_evidence a))) (\<lambda>evidence.
     Inr \<lparr>ar_id = a_id a, ar_ts = a_ts a, ar_entity_type = redact_secrets (a_entity_type a),
       ar_entity_id = map_option redact_secrets (a_entity_id a), ar_action = redact_secrets (a_action a),
       ar_actor = map_option redact_secrets (a_actor a), ar_decision = map_option redact_secrets (a_decision a),
       ar_reason = map_option redact_secrets (a_reason a), ar_evidence = evidence\<rparr>)"

definition get_audit :: "env \<Rightarrow> uuid \<Rightarrow> uuid \<Rightarrow> audit_export prog" where
  "get_audit E i tenant =
     and_then (load_run i tenant) (\<lambda>_.
     and_then (fetch_db (\<lambda>d. filter (\<lambda>a. a_run a = i) (audit d))) (\<lambda>rows.
     and_then (lift (map_results audit_to_read (sort_key (\<lambda>a. isoformat E (a_ts a)) rows))) (\<lambda>audit_rows.
     ret \<lparr>ae_run = i, ae_count = length audit_rows, ae_rows = audit_rows\<rparr>)))"

section \<open>Provenance\<close>

definition find_passage :: "uuid \<Rightarrow> db \<Rightarrow> passage option" where
  "find_passage i d = find (\<lambda>p. p_id p = i) (passages d)"

definition find_source :: "uuid \<Rightarrow> db \<Rightarrow> source option" where
  "find_source i d = find (\<lambda>s. src_id s = i) (sources d)"

definition find_statement :: "uuid \<Rightarrow> db \<Rightarrow> statement option" where
  "find_statement i d = find (\<lambda>s. s_id s = i) (statements d)"

definition found :: "string \<Rightarrow> 'a option \<Rightarrow> 'a prog" where
  "found what x = (case x of None \<Rightarrow> throw (HTTPException 404 (what @ '' not found'')) | Some y \<Rightarrow> ret y)"

definition trace_chain_of :: "statement \<Rightarrow> passage \<Rightarrow> source \<Rightarrow> trace_chain" where
  "trace_chain_of s p x = \<lparr>
     tc_statement = \<lparr>tn_id = s_id s, tn_kind = ''statement'', tn_text = Some (redact_secrets (s_text s)), tn_uri = None, tn_title = None\<rparr>,
     tc_passage = \<lparr>tn_id = p_id p, tn_kind = ''passage'', tn_text = Some (redact_secrets (p_text p)), tn_uri = None, tn_title = None\<rparr>,
     tc_source = \<lparr>tn_id = src_id x, tn_kind = ''source'', tn_text = None, tn_uri = Some (redact_secrets (src_uri x)),
       tn_title = map_option redact_secrets (src_title x)\<rparr>\<rparr>"

definition get_statement_trace :: "uuid \<Rightarrow> uuid \<Rightarrow> trace_chain prog" where
  "get_statement_trace statement_id tenant =
     and_then (fetch_db (find_statement statement_id)) (\<lambda>s. and_then (found ''statement'' s) (\<lambda>statement.
     and_then (fetch_db (run_lookup (s_run statement))) (\<lambda>r. and_then (found ''statement'' r) (\<lambda>run.
     and_then (guard (r_tenant run = tenant) (HTTPException 403 ''cross-tenant access denied'')) (\<lambda>_.
     and_then (fetch_db (find_passage (s_passage statement))) (\<lambda>p. and_then (found ''passage'' p) (\<lambda>passage.
     and_then (fetch_db (find_source (p_source passage))) (\<lambda>x. and_then (found ''source'' x) (\<lambda>source.
     ret (trace_chain_of statement passage source))))))))))"

section \<open>The report\<close>

definition url_domain :: "(string \<Rightarrow> bool) \<Rightarrow> string \<Rightarrow> string result" where
  \<comment> \<open>\<open>_domain\<close>: the network location, else what precedes the first slash\<close>
  "url_domain brackets uri =
     (let netloc = url_netloc uri; lb = CHR ''['' \<in> set netloc; rb = CHR '']'' \<in> set netloc
      in if lb \<noteq> rb \<or> lb \<and> \<not> brackets netloc then Inl (ValueError ''Invalid IPv6 URL'')
         else Inr (if netloc \<noteq> [] then netloc else hd (split_char CHR ''/'' uri)))"

definition row_score :: "uuid \<Rightarrow> db \<Rightarrow> statement \<Rightarrow> string" where
  \<comment> \<open>\<open>evidence_scores.get((id, passage_id), none)\<close>: of two links of a pair the later one counts\<close>
  "row_score i d s =
     (case find (\<lambda>l. l_run l = i \<and> l_statement l = s_id s \<and> l_passage l = s_passage s) (rev (links d)) of
        None \<Rightarrow> score_value NONE | Some l \<Rightarrow> score_value (l_score l))"

definition row_domain :: "env \<Rightarrow> db \<Rightarrow> statement \<Rightarrow> string result" where
  "row_domain E d s = (case Option.bind (find_passage (s_passage s) d) (\<lambda>p. find_source (p_source p) d) of
     None \<Rightarrow> Inr [] | Some x \<Rightarrow> url_domain (brackets_ok E) (src_uri x))"

definition row_evidence :: "env \<Rightarrow> db \<Rightarrow> statement \<Rightarrow> report_evidence result" where
  "row_evidence E d s = result_bind (row_domain E d s) (\<lambda>domain.
     Inr \<lparr>re_id = str_uuid (s_id s), re_text = redact_secrets (s_text s), re_domain = domain\<rparr>)"

definition cited_rows :: "db \<Rightarrow> conclusion \<Rightarrow> statement list" where
  \<comment> \<open>the statements of the conclusion's links, in the order of the links; a missing row is skipped\<close>
  "cited_rows d k = List.map_filter (\<lambda>(c, s). if c = k_id k then find_statement s d else None) (conclusion_evidence d)"

definition row_conclusion :: "env \<Rightarrow> uuid \<Rightarrow> db \<Rightarrow> conclusion \<Rightarrow> report_conclusion result" where
  "row_conclusion E i d k =
     result_bind (map_results (row_evidence E d) (cited_rows d k)) (\<lambda>evidence.
     result_bind (unit_field (k_confidence k)) (\<lambda>confidence.
     Inr \<lparr>rc_id = str_uuid (k_id k), rc_text = redact_secrets (k_text k), rc_confidence = confidence, rc_review = k_review k,
       rc_one_sided = False, rc_warnings = [],
       rc_support = map (\<lambda>s. \<lparr>rs_statement = str_uuid (s_id s), rs_passage = str_uuid (s_passage s), rs_score = row_score i d s\<rparr>)
         (cited_rows d k),
       rc_evidence = evidence\<rparr>))"

definition report_from_rows :: "env \<Rightarrow> run \<Rightarrow> report prog" where
  "report_from_rows E run =
     and_then (fetch_db (\<lambda>d. map_results (row_conclusion E (r_id run) d) (filter (\<lambda>k. k_run k = r_id run) (conclusions d)))) (\<lambda>r.
     and_then (lift r) (\<lambda>cs.
     and_then (reads w_now) (\<lambda>t.
     ret \<lparr>rep_run = str_uuid (r_id run), rep_topic = redact_secrets (r_question run), rep_generated = t, rep_conclusions = cs\<rparr>)))"

definition report_from_trace_payload :: "coercions \<Rightarrow> json option \<Rightarrow> report option result" where
  "report_from_trace_payload C payload = (case payload of
     None \<Rightarrow> Inr None
   | Some p \<Rightarrow>
       if \<not> is_object p then Inl (OtherError ''the payload has no attribute get'')
       else case jget ''report'' p of
           Some (JObj kvs) \<Rightarrow> result_bind (validate_report C (JObj kvs)) (\<lambda>r. Inr (Some r))
         | _ \<Rightarrow> (case validate_report C p of Inl _ \<Rightarrow> Inr None | Inr r \<Rightarrow> Inr (Some r)))"

definition report_of_checkpoint :: "coercions \<Rightarrow> json option \<Rightarrow> report option result" where
  \<comment> \<open>the report of the conclude checkpoint, if it holds one\<close>
  "report_of_checkpoint C state = (case state of
     None \<Rightarrow> Inr None
   | Some s \<Rightarrow>
       if \<not> is_object s then Inl (OtherError ''the checkpoint has no attribute get'')
       else case jget ''report'' s of
           Some (JObj kvs) \<Rightarrow> result_bind (validate_report C (JObj kvs)) (\<lambda>r. Inr (Some r))
         | _ \<Rightarrow> Inr None)"

definition report_answer :: "env \<Rightarrow> run \<Rightarrow> report \<Rightarrow> report_read" where
  "report_answer E run report = \<lparr>rd_run = r_id run, rd_markdown = redact_secrets (render_markdown E report)\<rparr>"

definition get_report :: "env \<Rightarrow> coercions \<Rightarrow> uuid \<Rightarrow> uuid \<Rightarrow> report_read prog" where
  "get_report E C i tenant =
     and_then (load_run i tenant) (\<lambda>run.
     and_then (kv_get (trace_key i)) (\<lambda>trace_payload.
     and_then (lift (report_from_trace_payload C trace_payload)) (\<lambda>traced. case traced of
       Some report \<Rightarrow> ret (report_answer E run report)
     | None \<Rightarrow>
         and_then (cp_load i ''conclude'') (\<lambda>conclude_state.
         and_then (lift (report_of_checkpoint C conclude_state)) (\<lambda>concluded. case concluded of
           Some report \<Rightarrow> ret (report_answer E run report)
         | None \<Rightarrow> and_then (report_from_rows E run) (\<lambda>report. ret (report_answer E run report)))))))"

section \<open>Searching the knowledge base\<close>

definition kb_query :: "string option \<Rightarrow> string" where
  "kb_query q = py_lower (py_strip (case q of None \<Rightarrow> [] | Some s \<Rightarrow> s))"

definition kb_matches :: "uuid \<Rightarrow> string option \<Rightarrow> db \<Rightarrow> statement list" where
  \<comment> \<open>verified statements of the tenant's runs whose text has the query\<close>
  "kb_matches tenant q d =
     (let run_ids = map r_id (filter (\<lambda>r. r_tenant r = tenant) (runs d));
          verified = filter (\<lambda>s. s_status s = VERIFIED) (filter (\<lambda>s. s_run s \<in> set run_ids) (statements d))
      in if kb_query q = [] then verified else filter (\<lambda>s. py_in (kb_query q) (py_lower (s_text s))) verified)"

definition kb_to_result :: "db \<Rightarrow> statement \<Rightarrow> kb_result" where
  "kb_to_result d s =
     (let passage = find_passage (s_passage s) d; source = Option.bind passage (\<lambda>p. find_source (p_source p) d)
      in \<lparr>kr_statement = s_id s, kr_run = s_run s, kr_text = redact_secrets (s_text s), kr_confidence = s_confidence s,
          kr_passage = map_option (\<lambda>p. redact_secrets (p_text p)) passage,
          kr_uri = map_option (\<lambda>x. redact_secrets (src_uri x)) source\<rparr>)"

definition kb_search :: "uuid \<Rightarrow> string option \<Rightarrow> kb_result list prog" where
  "kb_search tenant q = fetch_db (\<lambda>d. map (kb_to_result d) (kb_matches tenant q d))"

section \<open>Requests and answers\<close>

datatype endpoint =
    Create_Run run_create
  | Get_Run uuid
  | Get_Stages uuid
  | Get_Conclusions uuid
  | Get_Trace uuid
  | Get_Contradictions uuid
  | Get_Report uuid
  | Resume_Run uuid
  | Kb_Search "string option"
  | Get_Audit uuid

datatype reply = Success nat body | Problem problem | Server_Error

definition request_ok :: "endpoint \<Rightarrow> bool" where
  \<comment> \<open>the declared bounds of the body and of the query\<close>
  "request_ok ep = (case ep of
     Create_Run b \<Rightarrow> validate_run_create b \<noteq> None
   | Kb_Search q \<Rightarrow> (case q of None \<Rightarrow> True | Some s \<Rightarrow> length s \<le> 500)
   | _ \<Rightarrow> True)"

definition as_body :: "('a \<Rightarrow> body) \<Rightarrow> 'a prog \<Rightarrow> body prog" where
  "as_body f p = and_then p (\<lambda>x. ret (f x))"

definition handle :: "api \<Rightarrow> coercions \<Rightarrow> uuid \<Rightarrow> endpoint \<Rightarrow> body prog" where
  "handle A C tenant ep = (case ep of
     Create_Run b \<Rightarrow> as_body Run_Body (create_run A tenant (the (validate_run_create b)))
   | Get_Run i \<Rightarrow> as_body Run_Body (get_run i tenant)
   | Get_Stages i \<Rightarrow> as_body Stages_Body (get_stages i tenant)
   | Get_Conclusions i \<Rightarrow> as_body Conclusions_Body (get_conclusions (ap_env A) i tenant)
   | Get_Trace s \<Rightarrow> as_body Trace_Body (get_statement_trace s tenant)
   | Get_Contradictions i \<Rightarrow> as_body Contradictions_Body (get_contradictions (ap_env A) i tenant)
   | Get_Report i \<Rightarrow> as_body Report_Body (get_report (ap_env A) C i tenant)
   | Resume_Run i \<Rightarrow> as_body Run_Body (resume_run A i tenant)
   | Kb_Search q \<Rightarrow> as_body Search_Body (kb_search tenant q)
   | Get_Audit i \<Rightarrow> as_body Audit_Body (get_audit (ap_env A) i tenant))"

definition success_code :: "endpoint \<Rightarrow> nat" where
  "success_code ep = (case ep of Create_Run b \<Rightarrow> 201 | _ \<Rightarrow> 200)"

definition answer :: "string \<Rightarrow> endpoint \<Rightarrow> body result \<Rightarrow> reply" where
  "answer url ep r = (case r of
     Inr b \<Rightarrow> Success (success_code ep) b
   | Inl e \<Rightarrow> (case e of HTTPException code detail \<Rightarrow> Problem (problem_response url code detail) | _ \<Rightarrow> Server_Error))"

definition serve :: "api \<Rightarrow> coercions \<Rightarrow> (endpoint \<Rightarrow> string) \<Rightarrow> string \<Rightarrow> string \<Rightarrow> endpoint \<Rightarrow> reply prog" where
  \<comment> \<open>the third argument writes the validation errors as JSON text\<close>
  "serve A C errors url x_tenant_id ep =
     and_then (outcome_of (get_tenant_id x_tenant_id)) (\<lambda>t. case t of
       Inl e \<Rightarrow> ret (answer url ep (Inl e))
     | Inr tenant \<Rightarrow>
         if \<not> request_ok ep then ret (Problem (problem_response url 422 (redact_secrets (errors ep))))
         else and_then (outcome_of (handle A C tenant ep)) (\<lambda>r. ret (answer url ep r)))"

text \<open>Programs are evaluated only when they meet a world.\<close>

lemmas api_code [code] =
  get_tenant_id_def [THEN fun_cong] load_run_def [THEN fun_cong] create_run_def [THEN fun_cong] get_run_def [THEN fun_cong]
  resume_run_def [THEN fun_cong] get_stages_def [THEN fun_cong] get_conclusions_def [THEN fun_cong]
  get_contradictions_def [THEN fun_cong] get_audit_def [THEN fun_cong] get_statement_trace_def [THEN fun_cong]
  report_from_rows_def [THEN fun_cong] get_report_def [THEN fun_cong] kb_search_def [THEN fun_cong]
  as_body_def [THEN fun_cong] handle_def [THEN fun_cong] serve_def [THEN fun_cong]

section \<open>How a request runs\<close>

definition tenant_named :: "string \<Rightarrow> db \<Rightarrow> tenant option" where
  "tenant_named ns d = find (\<lambda>t. t_namespace t = ns) (tenants d)"

lemma serve_run:
  "serve A C errors url ns ep w = (case tenant_named ns (w_db w) of
     None \<Rightarrow> (Inr (Problem (problem_response url 403 (''unknown tenant namespace '' @ quoted ns))), w)
   | Some t \<Rightarrow> if \<not> request_ok ep then (Inr (Problem (problem_response url 422 (redact_secrets (errors ep)))), w)
       else (case handle A C (t_id t) ep w of (r, w') \<Rightarrow> (Inr (answer url ep r), w')))"
  by (cases "tenant_named ns (w_db w)")
    (simp_all add: serve_def and_then_def outcome_of_def get_tenant_id_def tenant_named_def answer_def split: prod.split)

lemma load_run_run:
  "load_run i tenant w = (case run_lookup i (w_db w) of
     None \<Rightarrow> (Inl (HTTPException 404 ''run not found''), w)
   | Some r \<Rightarrow> if r_tenant r \<noteq> tenant then (Inl (HTTPException 403 ''cross-tenant access denied''), w) else (Inr r, w))"
  by (simp add: load_run_def and_then_def split: option.split)

definition run_of_tenant :: "uuid \<Rightarrow> uuid \<Rightarrow> db \<Rightarrow> bool" where
  "run_of_tenant i tenant d = (case run_lookup i d of None \<Rightarrow> False | Some r \<Rightarrow> r_tenant r = tenant)"

lemma load_run_scope:
  assumes "load_run i tenant w = (r, w')"
  shows "w' = w \<and> (case r of
      Inr run \<Rightarrow> run_of_tenant i tenant (w_db w) \<and> run_lookup i (w_db w) = Some run
    | Inl e \<Rightarrow> \<not> run_of_tenant i tenant (w_db w) \<and> (\<exists>n m. e = HTTPException n m \<and> n \<in> {403, 404}))"
  using assms by (auto simp: load_run_run run_of_tenant_def split: option.splits if_splits)

lemma run_lookup_id: "run_lookup i d = Some r \<Longrightarrow> r_id r = i \<and> r \<in> set (runs d)"
  by (auto simp: run_lookup_def dest: find_mem)

definition in_scope :: "uuid \<Rightarrow> db \<Rightarrow> endpoint \<Rightarrow> bool" where
  \<comment> \<open>what the request is about belongs to the tenant\<close>
  "in_scope tenant d ep = (case ep of
     Create_Run b \<Rightarrow> True | Kb_Search q \<Rightarrow> True
   | Get_Trace s \<Rightarrow> (case find_statement s d of None \<Rightarrow> False | Some st \<Rightarrow> run_of_tenant (s_run st) tenant d)
   | Get_Run i \<Rightarrow> run_of_tenant i tenant d | Get_Stages i \<Rightarrow> run_of_tenant i tenant d
   | Get_Conclusions i \<Rightarrow> run_of_tenant i tenant d | Get_Contradictions i \<Rightarrow> run_of_tenant i tenant d
   | Get_Report i \<Rightarrow> run_of_tenant i tenant d | Resume_Run i \<Rightarrow> run_of_tenant i tenant d
   | Get_Audit i \<Rightarrow> run_of_tenant i tenant d)"

lemma load_run_refuses:
  assumes "\<not> run_of_tenant i tenant (w_db w)"
  obtains n m where "load_run i tenant w = (Inl (HTTPException n m), w)" "n \<in> {403, 404}"
  using load_run_scope [of i tenant w] assms by (cases "load_run i tenant w") (auto split: sum.splits)

lemma found_run: "found what x w = (case x of None \<Rightarrow> (Inl (HTTPException 404 (what @ '' not found'')), w) | Some y \<Rightarrow> (Inr y, w))"
  by (cases x) (simp_all add: found_def)

lemma scoped_refuses:
  assumes "\<not> run_of_tenant i tenant (w_db w)"
  shows "\<exists>n m. as_body f (and_then (load_run i tenant) q) w = (Inl (HTTPException n m), w) \<and> n \<in> {403, 404}"
  using assms by (rule load_run_refuses) (auto simp: as_body_def and_then_def)

lemma handle_refuses:
  assumes "\<not> in_scope tenant (w_db w) ep"
  shows "\<exists>n m. handle A C tenant ep w = (Inl (HTTPException n m), w) \<and> n \<in> {403, 404}"
proof -
  have trace: "\<exists>n m. as_body Trace_Body (get_statement_trace s tenant) w = (Inl (HTTPException n m), w) \<and> n \<in> {403, 404}"
    if "\<not> (case find_statement s (w_db w) of None \<Rightarrow> False | Some st \<Rightarrow> run_of_tenant (s_run st) tenant (w_db w))" for s
    using that by (auto simp: as_body_def get_statement_trace_def and_then_def found_run run_of_tenant_def guard_def split: option.splits)
  show ?thesis
    using assms unfolding in_scope_def handle_def
    by (cases ep) (simp_all only: endpoint.case get_run_def get_stages_def get_conclusions_def get_contradictions_def
        get_report_def resume_run_def get_audit_def scoped_refuses not_True_eq_False not_False_eq_True trace)
qed

lemma as_body_run: "as_body f p w = (case p w of (Inl e, w') \<Rightarrow> (Inl e, w') | (Inr x, w') \<Rightarrow> (Inr (f x), w'))"
  by (cases "p w"; cases "fst (p w)") (auto simp: as_body_def and_then_def)

section \<open>Properties\<close>

text \<open>
  C6. Tenants are isolated: every request is answered; a request that succeeds names a known
  tenant and is about a run of that tenant (for a trace, the run of the statement), whose own record
  is what polling returns; every result of a search belongs to a run of the tenant; and a request
  about anything else changes nothing and is refused with status 403, 404 or 422.
\<close>
theorem tenants_are_isolated:
  assumes "serve A C errors url ns ep w = (r, w')"
  shows "\<exists>reply. r = Inr reply \<and>
    (case tenant_named ns (w_db w) of
       None \<Rightarrow> w' = w \<and> (\<exists>p. reply = Problem p \<and> pb_status p = 403)
     | Some t \<Rightarrow>
         (\<not> in_scope (t_id t) (w_db w) ep \<longrightarrow> w' = w \<and> (\<exists>p. reply = Problem p \<and> pb_status p \<in> {403, 404, 422})) \<and>
         (\<forall>n x. reply = Success n (Run_Body x) \<and> (\<exists>i. ep = Get_Run i) \<longrightarrow> rr_tenant x = t_id t) \<and>
         (\<forall>n xs x. reply = Success n (Search_Body xs) \<and> x \<in> set xs \<longrightarrow>
            (\<exists>run \<in> set (runs (w_db w)). r_id run = kr_run x \<and> r_tenant run = t_id t)))"
proof (cases "tenant_named ns (w_db w)")
  case None
  with assms show ?thesis by (auto simp: serve_run problem_response_def)
next
  case (Some t)
  obtain q w1 where h: "handle A C (t_id t) ep w = (q, w1)" by fastforce
  show ?thesis
  proof (cases "request_ok ep")
    case False
    with assms Some show ?thesis by (auto simp: serve_run problem_response_def)
  next
    case True
    with assms Some h have r: "r = Inr (answer url ep q)" "w' = w1" by (simp_all add: serve_run)
    have "w' = w \<and> (\<exists>p. answer url ep q = Problem p \<and> pb_status p \<in> {403, 404, 422})" if "\<not> in_scope (t_id t) (w_db w) ep"
      using handle_refuses [OF that, of A C] h r by (auto simp: answer_def problem_response_def)
    moreover have "rr_tenant x = t_id t" if "answer url ep q = Success n (Run_Body x)" "ep = Get_Run i" for n x i
      using that h by (auto simp: answer_def handle_def as_body_run get_run_def and_then_def load_run_run run_to_read_def
          split: sum.splits exn.splits option.splits if_splits)
    moreover have "\<exists>run \<in> set (runs (w_db w)). r_id run = kr_run x \<and> r_tenant run = t_id t"
      if a: "answer url ep q = Success n (Search_Body xs)" "x \<in> set xs" for n xs x
    proof -
      from a h obtain query where "xs = map (kb_to_result (w_db w)) (kb_matches (t_id t) query (w_db w))"
        by (cases ep) (auto simp: answer_def handle_def as_body_run kb_search_def split: sum.splits exn.splits prod.splits)
      with a(2) show ?thesis by (auto simp: kb_matches_def kb_to_result_def Let_def split: if_splits)
    qed
    ultimately show ?thesis using r Some by auto
  qed
qed

definition opt_list :: "'a option \<Rightarrow> 'a list" where
  "opt_list x = (case x of None \<Rightarrow> [] | Some y \<Rightarrow> [y])"

definition opt_json_strings :: "json option \<Rightarrow> string list" where
  "opt_json_strings j = (case j of None \<Rightarrow> [] | Some x \<Rightarrow> json_strings x)"

fun node_texts :: "trace_node \<Rightarrow> string list" where
  "node_texts n = opt_list (tn_text n) @ opt_list (tn_uri n) @ opt_list (tn_title n)"

fun body_texts :: "body \<Rightarrow> string list" where
  \<comment> \<open>every text of an answer that was supplied from outside or by a model\<close>
  "body_texts (Run_Body r) = [rr_question r]"
| "body_texts (Stages_Body xs) = concat (map (\<lambda>x. opt_json_strings (si_summary x)) xs)"
| "body_texts (Conclusions_Body xs) = map cr_text xs"
| "body_texts (Trace_Body t) = node_texts (tc_statement t) @ node_texts (tc_passage t) @ node_texts (tc_source t)"
| "body_texts (Contradictions_Body xs) = concat (map (\<lambda>x. opt_json_strings (cx_evidence x)) xs)"
| "body_texts (Report_Body r) = [rd_markdown r]"
| "body_texts (Search_Body xs) = concat (map (\<lambda>x. kr_text x # opt_list (kr_passage x) @ opt_list (kr_uri x)) xs)"
| "body_texts (Audit_Body x) = concat (map (\<lambda>a. [ar_entity_type a, ar_action a] @ opt_list (ar_entity_id a) @
     opt_list (ar_actor a) @ opt_list (ar_decision a) @ opt_list (ar_reason a) @ opt_json_strings (ar_evidence a)) (ae_rows x))"

fun reply_texts :: "reply \<Rightarrow> string list" where
  "reply_texts (Success n b) = body_texts b"
| "reply_texts (Problem p) = [pb_detail p]"
| "reply_texts Server_Error = []"

lemma map_results_Inr: "map_results f xs = Inr ys \<Longrightarrow> list_all2 (\<lambda>x y. f x = Inr y) xs ys"
  by (induction xs arbitrary: ys) (auto simp: result_bind_ok)

lemma map_results_mem: "map_results f xs = Inr ys \<Longrightarrow> y \<in> set ys \<Longrightarrow> \<exists>x \<in> set xs. f x = Inr y"
  by (induction xs arbitrary: ys) (auto simp: result_bind_ok)

lemma map_results_all: "map_results f xs = Inr ys \<Longrightarrow> (\<And>x y. f x = Inr y \<Longrightarrow> P y) \<Longrightarrow> \<forall>y \<in> set ys. P y"
  using map_results_mem by metis

lemma opt_redacted_free: "s \<in> set (opt_list (map_option redact_secrets x)) \<Longrightarrow> secret_free s"
  by (cases x) (auto simp: opt_list_def redact_secret_free)

lemma as_dict_free: "as_dict (map_option redact_json j) = Inr x \<Longrightarrow> s \<in> set (opt_json_strings x) \<Longrightarrow> secret_free s"
  using redact_json_free
  by (cases j) (auto simp: as_dict_def opt_json_strings_def json_secret_free_def split: if_splits)

lemma stage_to_read_free: "stage_to_read row = Inr x \<Longrightarrow> \<forall>s \<in> set (opt_json_strings (si_summary x)). secret_free s"
  by (auto simp: stage_to_read_def result_bind_ok dest: as_dict_free)

lemma contradiction_to_read_free:
  "contradiction_to_read row = Inr x \<Longrightarrow> \<forall>s \<in> set (opt_json_strings (cx_evidence x)). secret_free s"
  by (auto simp: contradiction_to_read_def result_bind_ok dest: as_dict_free)

lemma conclusion_to_read_free: "conclusion_to_read d row = Inr x \<Longrightarrow> secret_free (cr_text x)"
  by (auto simp: conclusion_to_read_def result_bind_ok redact_secret_free)

lemma audit_to_read_free: "audit_to_read a = Inr x \<Longrightarrow> list_all secret_free (body_texts (Audit_Body \<lparr>ae_run = i, ae_count = n, ae_rows = [x]\<rparr>))"
  by (auto simp: audit_to_read_def result_bind_ok redact_secret_free list_all_iff dest: as_dict_free opt_redacted_free)

lemma chain_free: "list_all secret_free (body_texts (Trace_Body (trace_chain_of s p x)))"
  by (auto simp: trace_chain_of_def opt_list_def redact_secret_free list_all_iff split: option.splits)

lemma kb_result_free: "list_all secret_free (body_texts (Search_Body (map (kb_to_result d) ss)))"
  by (auto simp: kb_to_result_def Let_def redact_secret_free list_all_iff opt_list_def split: option.splits)

lemma create_run_answer: "create_run A tenant b w = (Inr x, w') \<Longrightarrow> \<exists>run. x = run_to_read run"
  by (auto simp: create_run_def and_then_Inr split: option.splits)

lemma resume_run_answer: "resume_run A i tenant w = (Inr x, w') \<Longrightarrow> \<exists>run. x = run_to_read run"
  by (auto simp: resume_run_def and_then_Inr)

lemma get_report_answer: "get_report E C i tenant w = (Inr x, w') \<Longrightarrow> \<exists>run report. x = report_answer E run report"
proof -
  assume "get_report E C i tenant w = (Inr x, w')"
  then obtain run traced w1 where *: "(case traced of Some report \<Rightarrow> ret (report_answer E run report)
     | None \<Rightarrow>
         and_then (cp_load i ''conclude'') (\<lambda>conclude_state.
         and_then (lift (report_of_checkpoint C conclude_state)) (\<lambda>concluded. case concluded of
           Some report \<Rightarrow> ret (report_answer E run report)
         | None \<Rightarrow> and_then (report_from_rows E run) (\<lambda>report. ret (report_answer E run report))))) w1 = (Inr x, w')"
    unfolding get_report_def and_then_Inr by blast
  show ?thesis
  proof (cases traced)
    case None
    from * [unfolded None option.case and_then_Inr] obtain concluded w2 where "(case concluded of
           Some report \<Rightarrow> ret (report_answer E run report)
         | None \<Rightarrow> and_then (report_from_rows E run) (\<lambda>report. ret (report_answer E run report))) w2 = (Inr x, w')"
      by blast
    then show ?thesis by (cases concluded) (auto simp: and_then_Inr)
  next
    case (Some report)
    with * show ?thesis by auto
  qed
qed

lemma handle_free:
  assumes "handle A C tenant ep w = (Inr b, w')"
  shows "list_all secret_free (body_texts b)"
proof (cases ep)
  case (Create_Run c)
  with assms show ?thesis
    by (auto simp: handle_def as_body_def and_then_Inr run_to_read_def redact_secret_free dest!: create_run_answer)
next
  case (Get_Run i)
  with assms show ?thesis by (auto simp: handle_def as_body_def and_then_Inr get_run_def run_to_read_def redact_secret_free)
next
  case (Get_Stages i)
  with assms show ?thesis
    by (auto simp: handle_def as_body_def and_then_Inr get_stages_def list_all_iff
        dest!: map_results_all [OF _ stage_to_read_free])
next
  case (Get_Conclusions i)
  with assms show ?thesis
    by (auto simp: handle_def as_body_def and_then_Inr get_conclusions_def list_all_iff
        dest!: map_results_all [OF _ conclusion_to_read_free])
next
  case (Get_Trace s)
  with assms show ?thesis using chain_free by (auto simp: handle_def as_body_def and_then_Inr get_statement_trace_def)
next
  case (Get_Contradictions i)
  with assms show ?thesis
    by (auto simp: handle_def as_body_def and_then_Inr get_contradictions_def list_all_iff
        dest!: map_results_all [OF _ contradiction_to_read_free])
next
  case (Get_Report i)
  with assms show ?thesis
    by (auto simp: handle_def as_body_def and_then_Inr report_answer_def redact_secret_free dest!: get_report_answer)
next
  case (Resume_Run i)
  with assms show ?thesis
    by (auto simp: handle_def as_body_def and_then_Inr run_to_read_def redact_secret_free dest!: resume_run_answer)
next
  case (Kb_Search q)
  with assms show ?thesis using kb_result_free by (auto simp: handle_def as_body_def and_then_Inr kb_search_def)
next
  case (Get_Audit i)
  with assms obtain rows xs where x: "map_results audit_to_read rows = Inr xs"
      "b = Audit_Body \<lparr>ae_run = i, ae_count = length xs, ae_rows = xs\<rparr>"
    by (auto simp: handle_def as_body_def and_then_Inr get_audit_def)
  have "list_all secret_free (body_texts (Audit_Body \<lparr>ae_run = i, ae_count = 0, ae_rows = [a]\<rparr>))" if "a \<in> set xs" for a
    using map_results_mem [OF x(1) that] audit_to_read_free by blast
  then show ?thesis unfolding x(2) list_all_iff by fastforce
qed


definition reads_only :: "endpoint \<Rightarrow> bool" where
  \<comment> \<open>the GET endpoints\<close>
  "reads_only ep = (case ep of Create_Run b \<Rightarrow> False | Resume_Run i \<Rightarrow> False | _ \<Rightarrow> True)"

definition without_kv :: "string \<Rightarrow> world \<Rightarrow> world" where
  "without_kv key w = w\<lparr>w_db := (w_db w)\<lparr>kv := filter (\<lambda>e. kv_key e \<noteq> key) (kv (w_db w))\<rparr>\<rparr>"

definition still :: "'a prog \<Rightarrow> bool" where
  "still p \<longleftrightarrow> (\<forall>w. snd (p w) = w)"

lemma still_rules:
  "still (ret x)" "still (throw e)" "still (lift r)" "still (reads g)" "still (fetch_db h)" "still (guard b e)" "still (found what y)"
  by (simp_all add: still_def guard_def found_run split: option.split)

lemma still_and_then: "still p \<Longrightarrow> (\<And>x. still (f x)) \<Longrightarrow> still (and_then p f)"
  unfolding still_def and_then_def
proof (intro allI)
  fix w assume p: "\<forall>w. snd (p w) = w" and f: "\<And>x. \<forall>w. snd (f x w) = w"
  obtain r w' where r: "p w = (r, w')" by fastforce
  then have "w' = w" using p by (metis snd_conv)
  with r f show "snd (case p w of (Inl e, w') \<Rightarrow> (Inl e, w') | (Inr x, w') \<Rightarrow> f x w') = w" by (cases r) auto
qed

lemma still_option: "still p \<Longrightarrow> (\<And>x. still (f x)) \<Longrightarrow> still (case v of None \<Rightarrow> p | Some x \<Rightarrow> f x)"
  by (cases v) simp_all

lemma still_load: "still (load_run i tenant)" "still (cp_load i s)"
  by (simp_all add: still_def load_run_run cp_load_view split: option.split)

lemmas still_intros = still_rules still_and_then still_option still_load

lemma still_as_body: "still p \<Longrightarrow> still (as_body f p)"
  unfolding as_body_def by (intro still_intros)

lemma still_report: "still (report_from_rows E run)"
  unfolding report_from_rows_def by (intro still_intros)

lemma handle_still:
  assumes "reads_only ep" and "\<forall>i. ep \<noteq> Get_Report i"
  shows "still (handle A C tenant ep)"
proof -
  have "still (as_body Run_Body (get_run i tenant))" "still (as_body Stages_Body (get_stages i tenant))"
      "still (as_body Conclusions_Body (get_conclusions E i tenant))" "still (as_body Trace_Body (get_statement_trace i tenant))"
      "still (as_body Contradictions_Body (get_contradictions E i tenant))" "still (as_body Search_Body (kb_search tenant q))"
      "still (as_body Audit_Body (get_audit E i tenant))" for i E q
    unfolding get_run_def get_stages_def get_conclusions_def get_statement_trace_def get_contradictions_def kb_search_def get_audit_def
    by (intro still_as_body still_intros)+
  with assms show ?thesis by (cases ep) (simp_all add: handle_def reads_only_def)
qed

lemma kv_get_lapses: "snd (kv_get key w) \<in> {w, without_kv key w}"
  by (auto simp: kv_get_def and_then_def tx_def commit_def without_kv_def split: option.split sum.split)

lemma report_lapses: "snd (get_report E C i tenant w) \<in> {w, without_kv (trace_key i) w}"
proof -
  define rest where "rest = (\<lambda>run trace_payload. and_then (lift (report_from_trace_payload C trace_payload)) (\<lambda>traced. case traced of
       Some report \<Rightarrow> ret (report_answer E run report)
     | None \<Rightarrow>
         and_then (cp_load i ''conclude'') (\<lambda>conclude_state.
         and_then (lift (report_of_checkpoint C conclude_state)) (\<lambda>concluded. case concluded of
           Some report \<Rightarrow> ret (report_answer E run report)
         | None \<Rightarrow> and_then (report_from_rows E run) (\<lambda>report. ret (report_answer E run report))))))"
  have still: "still (rest run payload)" for run payload
    unfolding rest_def by (intro still_intros still_report)
  have "get_report E C i tenant = and_then (load_run i tenant) (\<lambda>run. and_then (kv_get (trace_key i)) (rest run))"
    unfolding get_report_def rest_def ..
  moreover have "snd (and_then (kv_get (trace_key i)) (rest run) w) = snd (kv_get (trace_key i) w)" for run
    using still by (cases "kv_get (trace_key i) w"; cases "fst (kv_get (trace_key i) w)") (auto simp: and_then_def still_def)
  moreover have "snd (and_then (load_run i tenant) f w) \<in> {w, without_kv (trace_key i) w}"
    if "\<And>run. snd (f run w) \<in> {w, without_kv (trace_key i) w}" for f :: "run \<Rightarrow> report_read prog"
    using that by (auto simp: and_then_def load_run_run split: option.split)
  ultimately show ?thesis using kv_get_lapses [of "trace_key i" w] by simp
qed



text \<open>
  C22. Every statement is traceable: in a consistent database, tracing a statement of one of the
  tenant's runs never misses a link; it answers with the statement, the passage it was extracted
  from and the source of that passage, and changes nothing.
\<close>
theorem statements_are_traceable:
  assumes "db_ok (w_db w)" and "find_statement i (w_db w) = Some s" and "run_of_tenant (s_run s) tenant (w_db w)"
  shows "\<exists>p x. get_statement_trace i tenant w = (Inr (trace_chain_of s p x), w) \<and>
    p \<in> set (passages (w_db w)) \<and> p_id p = s_passage s \<and> x \<in> set (sources (w_db w)) \<and> src_id x = p_source p \<and>
    src_run x \<in> set (run_keys (w_db w))"
proof -
  have refs: "refs_ok (w_db w)" using assms(1) by (simp add: db_ok_def)
  have s: "s \<in> set (statements (w_db w))" using assms(2) by (auto simp: find_statement_def dest: find_mem)
  with refs have "s_passage s \<in> p_id ` set (passages (w_db w))" by (auto simp: refs_ok_def list_all_iff)
  then obtain p where p: "find_passage (s_passage s) (w_db w) = Some p"
    by (cases "find_passage (s_passage s) (w_db w)") (auto simp: find_passage_def find_None_iff)
  then have pm: "p \<in> set (passages (w_db w))" "p_id p = s_passage s" by (auto simp: find_passage_def dest: find_mem)
  with refs have "p_source p \<in> src_id ` set (sources (w_db w))" by (auto simp: refs_ok_def list_all_iff)
  then obtain x where x: "find_source (p_source p) (w_db w) = Some x"
    by (cases "find_source (p_source p) (w_db w)") (auto simp: find_source_def find_None_iff)
  then have xm: "x \<in> set (sources (w_db w))" "src_id x = p_source p" by (auto simp: find_source_def dest: find_mem)
  obtain r where "run_lookup (s_run s) (w_db w) = Some r" "r_tenant r = tenant"
    using assms(3) by (auto simp: run_of_tenant_def split: option.splits)
  with assms(2) p x have "get_statement_trace i tenant w = (Inr (trace_chain_of s p x), w)"
    by (simp add: get_statement_trace_def and_then_def found_run guard_def)
  moreover have "src_run x \<in> set (run_keys (w_db w))"
    using refs xm(1) by (auto simp: refs_ok_def list_all_iff run_keys_def)
  ultimately show ?thesis using pm xm by blast
qed

text \<open>
  Searching the knowledge base returns exactly the verified statements of the tenant's runs
  whose lower-cased text has the stripped, lower-cased query, each once, changes nothing, and in a
  consistent database gives every result its passage and the URI of its source.
\<close>
theorem search_returns_verified_statements:
  assumes "kb_search tenant q w = (r, w')"
  shows "w' = w \<and> (\<exists>xs. r = Inr xs \<and> length xs = length (kb_matches tenant q (w_db w)) \<and>
    kr_statement ` set xs = {s_id s |s. s \<in> set (statements (w_db w)) \<and> s_status s = VERIFIED \<and>
      (\<exists>run \<in> set (runs (w_db w)). r_id run = s_run s \<and> r_tenant run = tenant) \<and>
      (kb_query q = [] \<or> py_in (kb_query q) (py_lower (s_text s)))} \<and>
    (db_ok (w_db w) \<longrightarrow> distinct (map kr_statement xs) \<and> (\<forall>x. x \<in> set xs \<longrightarrow> kr_passage x \<noteq> None \<and> kr_uri x \<noteq> None)))"
proof -
  let ?d = "w_db w" and ?ss = "kb_matches tenant q (w_db w)"
  from assms have r: "r = Inr (map (kb_to_result ?d) ?ss)" "w' = w" unfolding kb_search_def prog_simps by blast+
  have mem: "set ?ss = {s \<in> set (statements ?d). s_status s = VERIFIED \<and>
      (\<exists>run \<in> set (runs ?d). r_id run = s_run s \<and> r_tenant run = tenant) \<and>
      (kb_query q = [] \<or> py_in (kb_query q) (py_lower (s_text s)))}"
    by (force simp: kb_matches_def Let_def)
  have stmt: "kr_statement (kb_to_result ?d s) = s_id s" for s by (simp add: kb_to_result_def Let_def)
  have "distinct (map s_id ?ss)" if "db_ok ?d"
    using that by (auto simp: db_ok_def keys_ok_def kb_matches_def Let_def distinct_map filter_filter inj_on_def)
  moreover have "kr_passage (kb_to_result ?d s) \<noteq> None \<and> kr_uri (kb_to_result ?d s) \<noteq> None" if "db_ok ?d" "s \<in> set (statements ?d)" for s
  proof -
    have refs: "refs_ok ?d" using that(1) by (simp add: db_ok_def)
    then have "s_passage s \<in> p_id ` set (passages ?d)" using that(2) by (auto simp: refs_ok_def list_all_iff)
    then obtain p where p: "find_passage (s_passage s) ?d = Some p"
      by (cases "find_passage (s_passage s) ?d") (auto simp: find_passage_def find_None_iff)
    then have "p_source p \<in> src_id ` set (sources ?d)" using refs by (auto simp: find_passage_def refs_ok_def list_all_iff dest!: find_mem)
    then have "find_source (p_source p) ?d \<noteq> None" by (auto simp: find_source_def find_None_iff)
    with p show ?thesis by (auto simp: kb_to_result_def Let_def)
  qed
  moreover have "s \<in> set (statements ?d)" if "s \<in> set ?ss" for s using that unfolding mem by blast
  ultimately have "db_ok ?d \<longrightarrow> distinct (map kr_statement (map (kb_to_result ?d) ?ss)) \<and>
      (\<forall>x. x \<in> set (map (kb_to_result ?d) ?ss) \<longrightarrow> kr_passage x \<noteq> None \<and> kr_uri x \<noteq> None)"
    by (auto simp: stmt comp_def)
  moreover have "kr_statement ` set (map (kb_to_result ?d) ?ss) = s_id ` set ?ss" by (simp add: stmt image_image)
  ultimately show ?thesis
    unfolding r mem by (intro conjI exI [of _ "map (kb_to_result ?d) ?ss"] refl) auto
qed

lemma validate_question_ok:
  "validate_question v = Some q \<Longrightarrow> q = py_strip v \<and> 0 < length q \<and> length q \<le> 2000"
proof -
  assume v: "validate_question v = Some q"
  then have q: "q = py_strip v" "q \<noteq> []" "length v \<le> 2000" by (auto simp: validate_question_def Let_def split: if_splits)
  obtain a b where "v = a @ py_strip v @ b" using py_strip_infix by metis
  then have "length (py_strip v) \<le> length v" by (metis length_append le_add1 le_add2 le_trans)
  with q show ?thesis by simp
qed

lemma create_run_run:
  assumes "create_run A tenant b w = (r, w')"
  shows "w_db w' = w_db w \<and> (\<exists>m. r = Inl (IntegrityError m)) \<or>
    (\<exists>d x. commit [AddRun (submitted_run (w_next w) tenant (ap_settings A) b (w_now w))] (w_db w) = Inr d \<and>
       prefix (run_keys (w_db w) @ [w_next w]) (run_keys (w_db w')) \<and> (\<not> rq_execute b \<longrightarrow> w_db w' = d) \<and>
       r = Inr x \<and> rr_run x = w_next w)"
proof -
  let ?row = "submitted_run (w_next w) tenant (ap_settings A) b (w_now w)" and ?w1 = "w\<lparr>w_next := Suc (w_next w)\<rparr>"
  show ?thesis
  proof (cases "commit [AddRun ?row] (w_db w)")
    case (Inl e)
    then have "\<exists>m. e = IntegrityError m" by (auto simp: commit_def split: if_splits)
    with assms Inl show ?thesis by (auto simp: create_run_def and_then_def tx_def)
  next
    case (Inr d)
    let ?run = "if rq_execute b then runner_run A (w_next w) None else ret []"
    have "\<exists>o1 w2. ?run (?w1\<lparr>w_db := d\<rparr>) = (Inr o1, w2)" by (simp add: runner_ends(1))
    then obtain o1 w2 where run: "?run (?w1\<lparr>w_db := d\<rparr>) = (Inr o1, w2)" by blast
    have keys: "run_keys d = run_keys (w_db w) @ [w_next w]"
      using Inr by (auto simp: commit_ok run_keys_def submitted_run_def)
    have "keeps keys_grow ?run" by (intro keyed.keeps_basic keyed.keeps_if keyed.runner_keeps)
    from keepsD [OF this run] have grown: "prefix (run_keys d) (run_keys (w_db w2))" by (simp add: keys_grow_def)
    then have "w_next w \<in> set (run_keys (w_db w2))" using prefix_set keys by fastforce
    then obtain x where x: "run_lookup (w_next w) (w_db w2) = Some x"
      by (cases "run_lookup (w_next w) (w_db w2)") (auto simp: run_keys_def run_lookup_def find_None_iff)
    have "r = Inr (run_to_read x)" "w' = w2"
      using assms Inr run x by (simp_all add: create_run_def and_then_def tx_def)
    moreover have "rr_run (run_to_read x) = w_next w" using run_lookup_id [OF x] by (simp add: run_to_read_def)
    moreover have "w_db w2 = d" if "\<not> rq_execute b" using that run by auto
    ultimately show ?thesis using Inr grown keys by auto
  qed
qed


section \<open>Concrete requests\<close>

definition demo_request :: "string \<Rightarrow> endpoint \<Rightarrow> world \<Rightarrow> reply result \<times> world" where
  "demo_request = serve (demo_api obliging_env) demo_coercions (\<lambda>_. ''[]'') ''u''"

lemmas demo_request_code [code] = demo_request_def [THEN fun_cong, THEN fun_cong, THEN fun_cong]

theorem tenants_are_isolated_witness:
  "\<exists>p. demo_request ''other'' (Get_Run 2) one_run_world = (Inr (Problem p), one_run_world) \<and> pb_status p = 403"
proof -
  obtain r w' where r: "demo_request ''other'' (Get_Run 2) one_run_world = (r, w')" by fastforce
  have "tenant_named ''other'' one_run_db = None" by code_simp
  with tenants_are_isolated [OF r [unfolded demo_request_def]] r show ?thesis by auto
qed


definition audited_world :: world where
  \<comment> \<open>run 2 with two audit rows\<close>
  "audited_world = world_of (one_run_db\<lparr>audit := [failure_audit 7 2 5 ''x'', failure_audit 8 2 6 ''y'']\<rparr>)"


theorem statements_are_traceable_witness:
  "\<exists>p x. get_statement_trace 5 1 extracted_world = (Inr (trace_chain_of demo_statement p x), extracted_world)"
proof -
  have "db_ok (w_db extracted_world)" "find_statement 5 (w_db extracted_world) = Some demo_statement"
    "run_of_tenant (s_run demo_statement) 1 (w_db extracted_world)" by code_simp+
  from statements_are_traceable [OF this] show ?thesis by blast
qed

theorem search_returns_verified_statements_witness:
  "\<exists>xs. kb_search 1 (Some '' X '') verified_world = (Inr xs, verified_world) \<and> xs \<noteq> [] \<and> (\<forall>x \<in> set xs. kr_passage x \<noteq> None)"
proof -
  obtain r w' where r: "kb_search 1 (Some '' X '') verified_world = (r, w')" by fastforce
  have "db_ok (w_db verified_world)" "kb_matches 1 (Some '' X '') (w_db verified_world) \<noteq> []" by code_simp+
  with search_returns_verified_statements [OF r] r show ?thesis by fastforce
qed


end
