(* ===== verification/Catalog.thy ===== *)
theory Catalog
  imports Errors
begin

text \<open>
  A database catalog and the statements the migrations of \<open>alembic/versions\<close> execute on it:
  tables with their columns, constraints, indexes and rows, triggers and their functions. A row maps
  column names to printed values, \<open>None\<close> for NULL. A statement that PostgreSQL refuses is an
  error and the migration's transaction is rolled back.
\<close>

section \<open>Catalogs\<close>

datatype sql_type =
    TString nat | TText | TUuid | TJsonb | TTimestamptz | TFloat | TNumeric nat nat | TInteger | TBoolean

record column =
  col_name :: string
  col_type :: sql_type
  col_nullable :: bool
  col_now :: bool              \<comment> \<open>\<open>server_default now()\<close>\<close>

datatype on_delete = CASCADE | RESTRICT

datatype sql_check =
    Among string "string list"     \<comment> \<open>\<open>column IN (...)\<close>\<close>
  | Unit_Range string              \<comment> \<open>\<open>column >= 0.0 AND column <= 1.0\<close>\<close>
  | Unit_Or_Null string            \<comment> \<open>\<open>column IS NULL OR (...)\<close>\<close>
  | Non_Negative string            \<comment> \<open>\<open>column >= 0.0\<close>\<close>

datatype table_constraint =
    Primary_Key string "string list"
  | Unique_Key string "string list"
  | Foreign_Key string string string string on_delete   \<comment> \<open>name, column, table and column referred to\<close>
  | Check_Rule string sql_check

fun constraint_name :: "table_constraint \<Rightarrow> string" where
  "constraint_name (Primary_Key n cs) = n"
| "constraint_name (Unique_Key n cs) = n"
| "constraint_name (Foreign_Key n c t r a) = n"
| "constraint_name (Check_Rule n sql) = n"

type_synonym row = "string \<Rightarrow> string option"

record sql_table =
  tb_name :: string
  tb_columns :: "column list"
  tb_constraints :: "table_constraint list"
  tb_indexes :: "(string \<times> string list) list"
  tb_rows :: "row list"

record sql_trigger =
  tg_name :: string
  tg_table :: string
  tg_function :: string

record catalog =
  ct_tables :: "sql_table list"
  ct_functions :: "string list"
  ct_triggers :: "sql_trigger list"

definition empty_catalog :: catalog where
  "empty_catalog = \<lparr>ct_tables = [], ct_functions = [], ct_triggers = []\<rparr>"

section \<open>Statements\<close>

datatype ddl =
    Create_Table string "column list" "table_constraint list"
  | Drop_Table string
  | Create_Index string string "string list"
  | Drop_Index string
  | Create_Unique string string "string list"
  | Drop_Constraint string string
  | Create_Function string
  | Drop_Function string                      \<comment> \<open>\<open>IF EXISTS\<close>\<close>
  | Create_Trigger string string string       \<comment> \<open>name, table, function\<close>
  | Drop_Trigger string string                \<comment> \<open>\<open>IF EXISTS\<close>\<close>
  | Insert_Ignoring string row string         \<comment> \<open>\<open>ON CONFLICT (column) DO NOTHING\<close>\<close>
  | Delete_Where string string string

definition table_of :: "string \<Rightarrow> catalog \<Rightarrow> sql_table option" where
  "table_of t c = find (\<lambda>x. tb_name x = t) (ct_tables c)"

definition set_table :: "string \<Rightarrow> (sql_table \<Rightarrow> sql_table) \<Rightarrow> catalog \<Rightarrow> catalog" where
  "set_table t f c = c\<lparr>ct_tables := map (\<lambda>x. if tb_name x = t then f x else x) (ct_tables c)\<rparr>"

fun refers_to :: "string \<Rightarrow> table_constraint \<Rightarrow> bool" where
  "refers_to t (Foreign_Key n c u r a) = (u = t)"
| "refers_to t _ = False"

definition refused :: "string \<Rightarrow> exn" where
  "refused what = OtherError what"

definition distinct_rows :: "string list \<Rightarrow> row list \<Rightarrow> bool" where
  \<comment> \<open>no two rows agree on the columns; a row with NULL in one of them agrees with none\<close>
  "distinct_rows cols rows = distinct (filter (\<lambda>vs. None \<notin> set vs) (map (\<lambda>r. map r cols) rows))"

fun unique_key :: "table_constraint \<Rightarrow> string list option" where
  "unique_key (Primary_Key n cs) = Some cs"
| "unique_key (Unique_Key n cs) = Some cs"
| "unique_key _ = None"

definition keys_hold :: "sql_table \<Rightarrow> row list \<Rightarrow> bool" where
  "keys_hold x rows = list_all (\<lambda>k. case unique_key k of None \<Rightarrow> True | Some cs \<Rightarrow> distinct_rows cs rows) (tb_constraints x)"

definition foreign_keys_to :: "string \<Rightarrow> catalog \<Rightarrow> (string \<times> string \<times> string \<times> on_delete) list" where
  \<comment> \<open>referring table and column, column referred to, action\<close>
  "foreign_keys_to t c = concat (map (\<lambda>x. List.map_filter (\<lambda>k. case k of
     Foreign_Key n col u r a \<Rightarrow> if u = t then Some (tb_name x, col, r, a) else None | _ \<Rightarrow> None) (tb_constraints x)) (ct_tables c))"

fun delete_rows :: "nat \<Rightarrow> string \<Rightarrow> (row \<Rightarrow> bool) \<Rightarrow> catalog \<Rightarrow> catalog result" where
  \<comment> \<open>the rows that satisfy the condition, and what refers to them, the first argument levels deep\<close>
  "delete_rows 0 t P c = Inl (refused ''references too deep'')"
| "delete_rows (Suc n) t P c =
     (let gone = (case table_of t c of None \<Rightarrow> [] | Some x \<Rightarrow> filter P (tb_rows x))
      in if gone = [] then Inr c
         else foldl (\<lambda>acc (u, col, r, a). result_bind acc (\<lambda>c.
                let Q = (\<lambda>y. y col \<noteq> None \<and> y col \<in> set (map (\<lambda>g. g r) gone))
                in if (case table_of u c of None \<Rightarrow> [] | Some x \<Rightarrow> filter Q (tb_rows x)) = [] then Inr c
                   else if a = RESTRICT then Inl (refused ''still referenced'')
                   else delete_rows n u Q c))
              (Inr (set_table t (\<lambda>x. x\<lparr>tb_rows := filter (\<lambda>y. \<not> P y) (tb_rows x)\<rparr>) c))
              (foreign_keys_to t c))"

fun apply_ddl :: "ddl \<Rightarrow> catalog \<Rightarrow> catalog result" where
  "apply_ddl (Create_Table t cols ks) c =
     (if table_of t c \<noteq> None then Inl (refused ''table exists'')
      else if list_ex (\<lambda>k. case k of Foreign_Key n col u r a \<Rightarrow> table_of u c = None | _ \<Rightarrow> False) ks then Inl (refused ''no such table'')
      else Inr (c\<lparr>ct_tables := ct_tables c @ [\<lparr>tb_name = t, tb_columns = cols, tb_constraints = ks, tb_indexes = [], tb_rows = []\<rparr>]\<rparr>))"
| "apply_ddl (Drop_Table t) c =
     (if table_of t c = None then Inl (refused ''no such table'')
      else if \<exists>x \<in> set (ct_tables c). tb_name x \<noteq> t \<and> list_ex (refers_to t) (tb_constraints x) then Inl (refused ''other objects depend on it'')
      else Inr (c\<lparr>ct_tables := filter (\<lambda>x. tb_name x \<noteq> t) (ct_tables c), ct_triggers := filter (\<lambda>g. tg_table g \<noteq> t) (ct_triggers c)\<rparr>))"
| "apply_ddl (Create_Index i t cols) c =
     (if table_of t c = None then Inl (refused ''no such table'')
      else if \<exists>x \<in> set (ct_tables c). i \<in> fst ` set (tb_indexes x) then Inl (refused ''index exists'')
      else Inr (set_table t (\<lambda>x. x\<lparr>tb_indexes := tb_indexes x @ [(i, cols)]\<rparr>) c))"
| "apply_ddl (Drop_Index i) c =
     (if \<forall>x \<in> set (ct_tables c). i \<notin> fst ` set (tb_indexes x) then Inl (refused ''no such index'')
      else Inr (c\<lparr>ct_tables := map (\<lambda>x. x\<lparr>tb_indexes := filter (\<lambda>(j, cols). j \<noteq> i) (tb_indexes x)\<rparr>) (ct_tables c)\<rparr>))"
| "apply_ddl (Create_Unique n t cols) c =
     (case table_of t c of
        None \<Rightarrow> Inl (refused ''no such table'')
      | Some x \<Rightarrow>
          if n \<in> constraint_name ` set (tb_constraints x) then Inl (refused ''constraint exists'')
          else if \<not> distinct_rows cols (tb_rows x) then Inl (refused ''could not create unique index'')
          else Inr (set_table t (\<lambda>x. x\<lparr>tb_constraints := tb_constraints x @ [Unique_Key n cols]\<rparr>) c))"
| "apply_ddl (Drop_Constraint n t) c =
     (case table_of t c of
        None \<Rightarrow> Inl (refused ''no such table'')
      | Some x \<Rightarrow>
          if n \<notin> constraint_name ` set (tb_constraints x) then Inl (refused ''no such constraint'')
          else Inr (set_table t (\<lambda>x. x\<lparr>tb_constraints := filter (\<lambda>k. constraint_name k \<noteq> n) (tb_constraints x)\<rparr>) c))"
| "apply_ddl (Create_Function f) c =
     (if f \<in> set (ct_functions c) then Inl (refused ''function exists'') else Inr (c\<lparr>ct_functions := ct_functions c @ [f]\<rparr>))"
| "apply_ddl (Drop_Function f) c =
     (if \<exists>g \<in> set (ct_triggers c). tg_function g = f then Inl (refused ''other objects depend on it'')
      else Inr (c\<lparr>ct_functions := filter (\<lambda>g. g \<noteq> f) (ct_functions c)\<rparr>))"
| "apply_ddl (Create_Trigger g t f) c =
     (if table_of t c = None then Inl (refused ''no such table'')
      else if f \<notin> set (ct_functions c) then Inl (refused ''no such function'')
      else if \<exists>x \<in> set (ct_triggers c). tg_name x = g \<and> tg_table x = t then Inl (refused ''trigger exists'')
      else Inr (c\<lparr>ct_triggers := ct_triggers c @ [\<lparr>tg_name = g, tg_table = t, tg_function = f\<rparr>]\<rparr>))"
| "apply_ddl (Drop_Trigger g t) c = Inr (c\<lparr>ct_triggers := filter (\<lambda>x. \<not> (tg_name x = g \<and> tg_table x = t)) (ct_triggers c)\<rparr>)"
| "apply_ddl (Insert_Ignoring t r key) c =
     (case table_of t c of
        None \<Rightarrow> Inl (refused ''no such table'')
      | Some x \<Rightarrow>
          if r key \<noteq> None \<and> r key \<in> (\<lambda>y. y key) ` set (tb_rows x) then Inr c
          else if \<not> keys_hold x (tb_rows x @ [r]) then Inl (refused ''duplicate key'')
          else Inr (set_table t (\<lambda>x. x\<lparr>tb_rows := tb_rows x @ [r]\<rparr>) c))"
| "apply_ddl (Delete_Where t col v) c =
     (if table_of t c = None then Inl (refused ''no such table'')
      else delete_rows (Suc (length (ct_tables c))) t (\<lambda>y. y col = Some v) c)"

definition migrate :: "ddl list \<Rightarrow> catalog \<Rightarrow> catalog result" where
  "migrate ds c = foldl (\<lambda>acc d. result_bind acc (apply_ddl d)) (Inr c) ds"

end
