(* ===== verification/Schema.thy ===== *)
theory Schema
  imports Catalog Tables
begin

text \<open>
  The declared schema, \<open>app/db/models.py\<close> with the naming convention and the mixins of
  \<open>app/db/base.py\<close>, and the three migrations of \<open>alembic/versions\<close>. A mapped class is the
  list of its columns (those of the mixins last, as SQLAlchemy orders them) with its constraints and
  indexes; \<open>table_of_model\<close> is the table SQLAlchemy's metadata derives from it. Defaults that Python
  fills in and relationships do not appear in a table.
\<close>

section \<open>Mapped classes\<close>

record orm_column =
  oc_name :: string
  oc_type :: sql_type
  oc_nullable :: bool
  oc_now :: bool
  oc_primary :: bool
  oc_unique :: bool
  oc_refs :: "(string \<times> string \<times> on_delete) option"

record orm_model =
  om_class :: string
  om_table :: string
  om_columns :: "orm_column list"
  om_uniques :: "(string \<times> string list) list"
  om_checks :: "(string \<times> sql_check) list"
  om_indexes :: "(string \<times> string list) list"

definition attr :: "string \<Rightarrow> sql_type \<Rightarrow> orm_column" where
  "attr n t = \<lparr>oc_name = n, oc_type = t, oc_nullable = False, oc_now = False, oc_primary = False, oc_unique = False, oc_refs = None\<rparr>"

definition nullable :: "orm_column \<Rightarrow> orm_column" where "nullable c = c\<lparr>oc_nullable := True\<rparr>"
definition server_now :: "orm_column \<Rightarrow> orm_column" where "server_now c = c\<lparr>oc_now := True\<rparr>"
definition primary :: "orm_column \<Rightarrow> orm_column" where "primary c = c\<lparr>oc_primary := True\<rparr>"
definition unique_attr :: "orm_column \<Rightarrow> orm_column" where "unique_attr c = c\<lparr>oc_unique := True\<rparr>"
definition references :: "string \<Rightarrow> string \<Rightarrow> on_delete \<Rightarrow> orm_column \<Rightarrow> orm_column" where
  "references t col a c = c\<lparr>oc_refs := Some (t, col, a)\<rparr>"

definition uuid_mixin :: orm_column where "uuid_mixin = primary (attr ''id'' TUuid)"
definition timestamp_mixin :: orm_column where "timestamp_mixin = server_now (attr ''created_at'' TTimestamptz)"

definition column_of :: "orm_column \<Rightarrow> column" where
  "column_of c = \<lparr>col_name = oc_name c, col_type = oc_type c, col_nullable = oc_nullable c, col_now = oc_now c\<rparr>"

definition model_constraints :: "orm_model \<Rightarrow> table_constraint list" where
  \<comment> \<open>\<open>NAMING_CONVENTION\<close>; explicit names of unique constraints are kept\<close>
  "model_constraints m = (let t = om_table m in
     map (\<lambda>(n, sql). Check_Rule (''ck_'' @ t @ ''_'' @ n) sql) (om_checks m) @
     List.map_filter (\<lambda>c. case oc_refs c of None \<Rightarrow> None
       | Some (u, r, a) \<Rightarrow> Some (Foreign_Key (''fk_'' @ t @ ''_'' @ oc_name c @ ''_'' @ u) (oc_name c) u r a)) (om_columns m) @
     [Primary_Key (''pk_'' @ t) (map oc_name (filter oc_primary (om_columns m)))] @
     map (\<lambda>c. Unique_Key (''uq_'' @ t @ ''_'' @ oc_name c) [oc_name c]) (filter oc_unique (om_columns m)) @
     map (\<lambda>(n, cols). Unique_Key n cols) (om_uniques m))"

definition table_of_model :: "orm_model \<Rightarrow> sql_table" where
  "table_of_model m = \<lparr>tb_name = om_table m, tb_columns = map column_of (om_columns m),
     tb_constraints = model_constraints m, tb_indexes = om_indexes m, tb_rows = []\<rparr>"

definition model_Tenant :: orm_model where
  "model_Tenant = \<lparr>om_class = ''Tenant'', om_table = ''tenants'',
     om_columns = [attr ''name'' (TString 255), unique_attr (attr ''namespace'' (TString 64)), nullable (attr ''rbac_policy'' TJsonb), uuid_mixin,
       timestamp_mixin],
     om_uniques = [],
     om_checks = [],
     om_indexes = []\<rparr>"

definition model_Run :: orm_model where
  "model_Run = \<lparr>om_class = ''Run'', om_table = ''runs'',
     om_columns = [references ''tenants'' ''id'' CASCADE (attr ''tenant_id'' TUuid), attr ''question'' TText, attr ''status'' (TString 32),
       nullable (attr ''stage'' (TString 64)), attr ''progress'' TFloat, attr ''cost_budget_usd'' (TNumeric 12 4),
       attr ''cost_spent_usd'' (TNumeric 12 4), nullable (attr ''checkpoint'' TJsonb), server_now (attr ''created_at'' TTimestamptz),
       server_now (attr ''updated_at'' TTimestamptz), nullable (attr ''completed_at'' TTimestamptz), uuid_mixin],
     om_uniques = [],
     om_checks = [(''valid_run_status'', (Among ''status'' [''submitted'', ''planning'', ''searching'', ''collecting'', ''storing'', ''extracting'', ''comparing'', ''verifying'', ''detecting'', ''concluding'', ''tracing'', ''completed'', ''failed'', ''paused'', ''cancelled''])),
       (''valid_progress'', (Unit_Range ''progress'')), (''non_negative_cost'', (Non_Negative ''cost_spent_usd''))],
     om_indexes = [(''ix_runs_tenant_status'', [''tenant_id'', ''status'']), (''ix_runs_tenant_created'', [''tenant_id'', ''created_at''])]\<rparr>"

definition model_Source :: orm_model where
  "model_Source = \<lparr>om_class = ''Source'', om_table = ''sources'',
     om_columns = [references ''runs'' ''id'' CASCADE (attr ''run_id'' TUuid), attr ''uri'' TText, nullable (attr ''title'' (TString 1024)),
       attr ''source_type'' (TString 32), nullable (attr ''fetched_at'' TTimestamptz), attr ''content_hash'' (TString 64),
       nullable (attr ''raw_ref'' (TString 512)), attr ''allowlisted_uri'' TBoolean, attr ''status'' (TString 32), uuid_mixin],
     om_uniques = [(''uq_sources_run_content_hash'', [''run_id'', ''content_hash''])],
     om_checks = [(''valid_source_type'', (Among ''source_type'' [''web'', ''pdf'', ''rss'', ''docx'', ''rtf'', ''upload'', ''other''])),
       (''valid_source_status'', (Among ''status'' [''pending'', ''fetched'', ''failed'', ''normalized'', ''quarantined'']))],
     om_indexes = [(''ix_sources_run_id'', [''run_id'']), (''ix_sources_uri'', [''uri''])]\<rparr>"

definition model_Passage :: orm_model where
  "model_Passage = \<lparr>om_class = ''Passage'', om_table = ''passages'',
     om_columns = [references ''sources'' ''id'' CASCADE (attr ''source_id'' TUuid), attr ''seq'' TInteger, attr ''text'' TText,
       nullable (attr ''start_char'' TInteger), nullable (attr ''end_char'' TInteger), attr ''hash'' (TString 64), uuid_mixin],
     om_uniques = [(''uq_passages_source_seq'', [''source_id'', ''seq''])],
     om_checks = [],
     om_indexes = [(''ix_passages_source_id'', [''source_id'']), (''ix_passages_hash'', [''hash''])]\<rparr>"

definition model_Statement :: orm_model where
  "model_Statement = \<lparr>om_class = ''Statement'', om_table = ''statements'',
     om_columns = [references ''passages'' ''id'' RESTRICT (attr ''passage_id'' TUuid), references ''runs'' ''id'' CASCADE (attr ''run_id'' TUuid),
       attr ''text'' TText, attr ''status'' (TString 32), nullable (attr ''confidence'' TFloat), server_now (attr ''created_at'' TTimestamptz),
       uuid_mixin],
     om_uniques = [],
     om_checks = [(''valid_statement_status'', (Among ''status'' [''draft'', ''verified'', ''quarantined''])),
       (''valid_confidence'', (Unit_Or_Null ''confidence''))],
     om_indexes = [(''ix_statements_passage_id'', [''passage_id'']), (''ix_statements_run_id'', [''run_id'']), (''ix_statements_status'', [''status'']),
       (''ix_statements_run_status'', [''run_id'', ''status''])]\<rparr>"

definition model_EvidenceLink :: orm_model where
  "model_EvidenceLink = \<lparr>om_class = ''EvidenceLink'', om_table = ''evidence_links'',
     om_columns = [references ''statements'' ''id'' RESTRICT (attr ''statement_id'' TUuid),
       references ''passages'' ''id'' RESTRICT (attr ''passage_id'' TUuid), references ''runs'' ''id'' RESTRICT (attr ''run_id'' TUuid),
       attr ''score'' (TString 16), nullable (attr ''method'' (TString 64)), server_now (attr ''created_at'' TTimestamptz), uuid_mixin],
     om_uniques = [],
     om_checks = [(''valid_evidence_score'', (Among ''score'' [''full'', ''partial'', ''none'']))],
     om_indexes = [(''ix_evidence_links_statement_id'', [''statement_id'']), (''ix_evidence_links_passage_id'', [''passage_id'']),
       (''ix_evidence_links_run_id'', [''run_id''])]\<rparr>"

definition model_Finding :: orm_model where
  "model_Finding = \<lparr>om_class = ''Finding'', om_table = ''findings'',
     om_columns = [references ''runs'' ''id'' CASCADE (attr ''run_id'' TUuid), attr ''title'' (TString 512), nullable (attr ''evidence_tier'' (TString 16)),
       attr ''domain_tags'' TJsonb, nullable (attr ''stance'' (TString 64)), nullable (attr ''summary'' TText),
       nullable (attr ''confidence'' TFloat), server_now (attr ''created_at'' TTimestamptz), uuid_mixin],
     om_uniques = [],
     om_checks = [(''valid_evidence_tier'', (Among ''evidence_tier'' [''t1'', ''t2'', ''t3'', ''t4''])), (''valid_confidence'', (Unit_Or_Null ''confidence''))],
     om_indexes = [(''ix_findings_run_id'', [''run_id''])]\<rparr>"

definition model_FindingStatement :: orm_model where
  "model_FindingStatement = \<lparr>om_class = ''FindingStatement'', om_table = ''finding_statements'',
     om_columns = [primary (references ''findings'' ''id'' CASCADE (attr ''finding_id'' TUuid)),
       primary (references ''statements'' ''id'' RESTRICT (attr ''statement_id'' TUuid))],
     om_uniques = [],
     om_checks = [],
     om_indexes = [(''ix_finding_statements_statement_id'', [''statement_id''])]\<rparr>"

definition model_Contradiction :: orm_model where
  "model_Contradiction = \<lparr>om_class = ''Contradiction'', om_table = ''contradictions'',
     om_columns = [references ''runs'' ''id'' CASCADE (attr ''run_id'' TUuid), references ''statements'' ''id'' RESTRICT (attr ''statement_a_id'' TUuid),
       references ''statements'' ''id'' RESTRICT (attr ''statement_b_id'' TUuid), attr ''status'' (TString 32),
       nullable (attr ''evidence'' TJsonb), server_now (attr ''created_at'' TTimestamptz), nullable (attr ''confirmed_at'' TTimestamptz),
       uuid_mixin],
     om_uniques = [],
     om_checks = [(''valid_contradiction_status'', (Among ''status'' [''flagged'', ''confirmed'', ''rejected'']))],
     om_indexes = [(''ix_contradictions_run_id'', [''run_id'']), (''ix_contradictions_stmt_a'', [''statement_a_id'']),
       (''ix_contradictions_stmt_b'', [''statement_b_id'']), (''ix_contradictions_status'', [''status''])]\<rparr>"

definition model_Conclusion :: orm_model where
  "model_Conclusion = \<lparr>om_class = ''Conclusion'', om_table = ''conclusions'',
     om_columns = [references ''runs'' ''id'' CASCADE (attr ''run_id'' TUuid), attr ''text'' TText, nullable (attr ''confidence'' TFloat),
       attr ''human_review_required'' TBoolean, server_now (attr ''created_at'' TTimestamptz), uuid_mixin],
     om_uniques = [],
     om_checks = [(''valid_confidence'', (Unit_Or_Null ''confidence''))],
     om_indexes = [(''ix_conclusions_run_id'', [''run_id''])]\<rparr>"

definition model_ConclusionEvidence :: orm_model where
  "model_ConclusionEvidence = \<lparr>om_class = ''ConclusionEvidence'', om_table = ''conclusion_evidence'',
     om_columns = [primary (references ''conclusions'' ''id'' CASCADE (attr ''conclusion_id'' TUuid)),
       primary (references ''statements'' ''id'' RESTRICT (attr ''statement_id'' TUuid)),
       references ''findings'' ''id'' RESTRICT (nullable (attr ''finding_id'' TUuid))],
     om_uniques = [],
     om_checks = [],
     om_indexes = [(''ix_conclusion_evidence_statement_id'', [''statement_id''])]\<rparr>"

definition model_AuditTrace :: orm_model where
  "model_AuditTrace = \<lparr>om_class = ''AuditTrace'', om_table = ''audit_trace'',
     om_columns = [references ''runs'' ''id'' RESTRICT (attr ''run_id'' TUuid), attr ''entity_type'' (TString 64), nullable (attr ''entity_id'' (TString 64)),
       attr ''action'' (TString 64), nullable (attr ''actor'' (TString 64)), nullable (attr ''decision'' (TString 64)),
       nullable (attr ''reason'' TText), nullable (attr ''evidence'' TJsonb), server_now (attr ''ts'' TTimestamptz), uuid_mixin],
     om_uniques = [],
     om_checks = [],
     om_indexes = [(''ix_audit_trace_run_id'', [''run_id'']), (''ix_audit_trace_entity'', [''entity_type'', ''entity_id'']), (''ix_audit_trace_ts'', [''ts''])]\<rparr>"

definition model_Checkpoint :: orm_model where
  "model_Checkpoint = \<lparr>om_class = ''Checkpoint'', om_table = ''checkpoints'',
     om_columns = [references ''runs'' ''id'' CASCADE (attr ''run_id'' TUuid), attr ''stage'' (TString 64), nullable (attr ''state'' TJsonb),
       server_now (attr ''ts'' TTimestamptz), uuid_mixin],
     om_uniques = [(''uq_checkpoints_run_stage'', [''run_id'', ''stage''])],
     om_checks = [],
     om_indexes = []\<rparr>"

definition model_KVEntry :: orm_model where
  "model_KVEntry = \<lparr>om_class = ''KVEntry'', om_table = ''kv_cache'',
     om_columns = [primary (attr ''key'' (TString 128)), attr ''model'' (TString 128), attr ''prompt_hash'' (TString 64), attr ''payload'' TJsonb,
       server_now (attr ''created_at'' TTimestamptz), nullable (attr ''expires_at'' TTimestamptz)],
     om_uniques = [],
     om_checks = [],
     om_indexes = [(''ix_kv_cache_expires_at'', [''expires_at''])]\<rparr>"

definition orm_models :: "orm_model list" where
  "orm_models = [model_Tenant, model_Run, model_Source, model_Passage, model_Statement, model_EvidenceLink, model_Finding, model_FindingStatement,
       model_Contradiction, model_Conclusion, model_ConclusionEvidence, model_AuditTrace, model_Checkpoint, model_KVEntry]"

definition append_only_models :: "orm_model list" where
  \<comment> \<open>\<open>register_append_only\<close> at the end of \<open>models.py\<close>\<close>
  "append_only_models = [model_EvidenceLink, model_AuditTrace]"

section \<open>The initial migration\<close>

definition column :: "string \<Rightarrow> sql_type \<Rightarrow> column" where
  "column n t = \<lparr>col_name = n, col_type = t, col_nullable = False, col_now = False\<rparr>"

definition nullable_column :: "string \<Rightarrow> sql_type \<Rightarrow> column" where
  "nullable_column n t = (column n t)\<lparr>col_nullable := True\<rparr>"

definition now_column :: "string \<Rightarrow> column" where
  "now_column n = (column n TTimestamptz)\<lparr>col_now := True\<rparr>"

definition create_kv_cache :: "ddl list" where
  "create_kv_cache = [
     Create_Table ''kv_cache''
       [column ''key'' (TString 128), column ''model'' (TString 128), column ''prompt_hash'' (TString 64), column ''payload'' TJsonb,
        now_column ''created_at'', nullable_column ''expires_at'' TTimestamptz]
       [Primary_Key ''pk_kv_cache'' [''key'']],
     Create_Index ''ix_kv_cache_expires_at'' ''kv_cache'' [''expires_at'']]"

definition create_tenants :: "ddl list" where
  "create_tenants = [
     Create_Table ''tenants''
       [column ''name'' (TString 255), column ''namespace'' (TString 64), nullable_column ''rbac_policy'' TJsonb, column ''id'' TUuid,
        now_column ''created_at'']
       [Primary_Key ''pk_tenants'' [''id''], Unique_Key ''uq_tenants_namespace'' [''namespace'']]]"

definition create_runs :: "ddl list" where
  "create_runs = [
     Create_Table ''runs''
       [column ''tenant_id'' TUuid, column ''question'' TText, column ''status'' (TString 32), nullable_column ''stage'' (TString 64),
        column ''progress'' TFloat, column ''cost_budget_usd'' (TNumeric 12 4), column ''cost_spent_usd'' (TNumeric 12 4),
        nullable_column ''checkpoint'' TJsonb, now_column ''created_at'', now_column ''updated_at'', nullable_column ''completed_at'' TTimestamptz,
        column ''id'' TUuid]
       [Check_Rule ''ck_runs_valid_run_status'' (Among ''status'' [''submitted'', ''planning'', ''searching'', ''collecting'', ''storing'', ''extracting'', ''comparing'', ''verifying'', ''detecting'', ''concluding'', ''tracing'', ''completed'', ''failed'', ''paused'', ''cancelled'']),
        Check_Rule ''ck_runs_non_negative_cost'' (Non_Negative ''cost_spent_usd''), Check_Rule ''ck_runs_valid_progress'' (Unit_Range ''progress''),
        Foreign_Key ''fk_runs_tenant_id_tenants'' ''tenant_id'' ''tenants'' ''id'' CASCADE, Primary_Key ''pk_runs'' [''id'']],
     Create_Index ''ix_runs_tenant_created'' ''runs'' [''tenant_id'', ''created_at''],
     Create_Index ''ix_runs_tenant_status'' ''runs'' [''tenant_id'', ''status'']]"

definition create_audit_trace :: "ddl list" where
  "create_audit_trace = [
     Create_Table ''audit_trace''
       [column ''run_id'' TUuid, column ''entity_type'' (TString 64), nullable_column ''entity_id'' (TString 64), column ''action'' (TString 64),
        nullable_column ''actor'' (TString 64), nullable_column ''decision'' (TString 64), nullable_column ''reason'' TText,
        nullable_column ''evidence'' TJsonb, now_column ''ts'', column ''id'' TUuid]
       [Foreign_Key ''fk_audit_trace_run_id_runs'' ''run_id'' ''runs'' ''id'' RESTRICT, Primary_Key ''pk_audit_trace'' [''id'']],
     Create_Index ''ix_audit_trace_entity'' ''audit_trace'' [''entity_type'', ''entity_id''],
     Create_Index ''ix_audit_trace_run_id'' ''audit_trace'' [''run_id''],
     Create_Index ''ix_audit_trace_ts'' ''audit_trace'' [''ts'']]"

definition create_checkpoints :: "ddl list" where
  "create_checkpoints = [
     Create_Table ''checkpoints''
       [column ''run_id'' TUuid, column ''stage'' (TString 64), nullable_column ''state'' TJsonb, now_column ''ts'', column ''id'' TUuid]
       [Foreign_Key ''fk_checkpoints_run_id_runs'' ''run_id'' ''runs'' ''id'' CASCADE, Primary_Key ''pk_checkpoints'' [''id''],
        Unique_Key ''uq_checkpoints_run_stage'' [''run_id'', ''stage'']]]"

definition create_conclusions :: "ddl list" where
  "create_conclusions = [
     Create_Table ''conclusions''
       [column ''run_id'' TUuid, column ''text'' TText, nullable_column ''confidence'' TFloat, column ''human_review_required'' TBoolean,
        now_column ''created_at'', column ''id'' TUuid]
       [Check_Rule ''ck_conclusions_valid_confidence'' (Unit_Or_Null ''confidence''),
        Foreign_Key ''fk_conclusions_run_id_runs'' ''run_id'' ''runs'' ''id'' CASCADE, Primary_Key ''pk_conclusions'' [''id'']],
     Create_Index ''ix_conclusions_run_id'' ''conclusions'' [''run_id'']]"

definition create_findings :: "ddl list" where
  "create_findings = [
     Create_Table ''findings''
       [column ''run_id'' TUuid, column ''title'' (TString 512), nullable_column ''evidence_tier'' (TString 16), column ''domain_tags'' TJsonb,
        nullable_column ''stance'' (TString 64), nullable_column ''summary'' TText, nullable_column ''confidence'' TFloat,
        now_column ''created_at'', column ''id'' TUuid]
       [Check_Rule ''ck_findings_valid_evidence_tier'' (Among ''evidence_tier'' [''t1'', ''t2'', ''t3'', ''t4'']),
        Check_Rule ''ck_findings_valid_confidence'' (Unit_Or_Null ''confidence''),
        Foreign_Key ''fk_findings_run_id_runs'' ''run_id'' ''runs'' ''id'' CASCADE, Primary_Key ''pk_findings'' [''id'']],
     Create_Index ''ix_findings_run_id'' ''findings'' [''run_id'']]"

definition create_sources :: "ddl list" where
  "create_sources = [
     Create_Table ''sources''
       [column ''run_id'' TUuid, column ''uri'' TText, nullable_column ''title'' (TString 1024), column ''source_type'' (TString 32),
        nullable_column ''fetched_at'' TTimestamptz, column ''content_hash'' (TString 64), nullable_column ''raw_ref'' (TString 512),
        column ''allowlisted_uri'' TBoolean, column ''status'' (TString 32), column ''id'' TUuid]
       [Check_Rule ''ck_sources_valid_source_type'' (Among ''source_type'' [''web'', ''pdf'', ''rss'', ''docx'', ''rtf'', ''upload'', ''other'']),
        Check_Rule ''ck_sources_valid_source_status'' (Among ''status'' [''pending'', ''fetched'', ''failed'', ''normalized'', ''quarantined'']),
        Foreign_Key ''fk_sources_run_id_runs'' ''run_id'' ''runs'' ''id'' CASCADE, Primary_Key ''pk_sources'' [''id''],
        Unique_Key ''uq_sources_content_hash'' [''content_hash'']],
     Create_Index ''ix_sources_run_id'' ''sources'' [''run_id''],
     Create_Index ''ix_sources_uri'' ''sources'' [''uri'']]"

definition create_passages :: "ddl list" where
  "create_passages = [
     Create_Table ''passages''
       [column ''source_id'' TUuid, column ''seq'' TInteger, column ''text'' TText, nullable_column ''start_char'' TInteger,
        nullable_column ''end_char'' TInteger, column ''hash'' (TString 64), column ''id'' TUuid]
       [Foreign_Key ''fk_passages_source_id_sources'' ''source_id'' ''sources'' ''id'' CASCADE, Primary_Key ''pk_passages'' [''id''],
        Unique_Key ''uq_passages_source_seq'' [''source_id'', ''seq'']],
     Create_Index ''ix_passages_hash'' ''passages'' [''hash''],
     Create_Index ''ix_passages_source_id'' ''passages'' [''source_id'']]"

definition create_statements :: "ddl list" where
  "create_statements = [
     Create_Table ''statements''
       [column ''passage_id'' TUuid, column ''run_id'' TUuid, column ''text'' TText, column ''status'' (TString 32),
        nullable_column ''confidence'' TFloat, now_column ''created_at'', column ''id'' TUuid]
       [Check_Rule ''ck_statements_valid_statement_status'' (Among ''status'' [''draft'', ''verified'', ''quarantined'']),
        Check_Rule ''ck_statements_valid_confidence'' (Unit_Or_Null ''confidence''),
        Foreign_Key ''fk_statements_passage_id_passages'' ''passage_id'' ''passages'' ''id'' RESTRICT,
        Foreign_Key ''fk_statements_run_id_runs'' ''run_id'' ''runs'' ''id'' CASCADE, Primary_Key ''pk_statements'' [''id'']],
     Create_Index ''ix_statements_passage_id'' ''statements'' [''passage_id''],
     Create_Index ''ix_statements_run_id'' ''statements'' [''run_id''],
     Create_Index ''ix_statements_run_status'' ''statements'' [''run_id'', ''status''],
     Create_Index ''ix_statements_status'' ''statements'' [''status'']]"

definition create_conclusion_evidence :: "ddl list" where
  "create_conclusion_evidence = [
     Create_Table ''conclusion_evidence''
       [column ''conclusion_id'' TUuid, column ''statement_id'' TUuid, nullable_column ''finding_id'' TUuid]
       [Foreign_Key ''fk_conclusion_evidence_conclusion_id_conclusions'' ''conclusion_id'' ''conclusions'' ''id'' CASCADE,
        Foreign_Key ''fk_conclusion_evidence_finding_id_findings'' ''finding_id'' ''findings'' ''id'' RESTRICT,
        Foreign_Key ''fk_conclusion_evidence_statement_id_statements'' ''statement_id'' ''statements'' ''id'' RESTRICT,
        Primary_Key ''pk_conclusion_evidence'' [''conclusion_id'', ''statement_id'']],
     Create_Index ''ix_conclusion_evidence_statement_id'' ''conclusion_evidence'' [''statement_id'']]"

definition create_contradictions :: "ddl list" where
  "create_contradictions = [
     Create_Table ''contradictions''
       [column ''run_id'' TUuid, column ''statement_a_id'' TUuid, column ''statement_b_id'' TUuid, column ''status'' (TString 32),
        nullable_column ''evidence'' TJsonb, now_column ''created_at'', nullable_column ''confirmed_at'' TTimestamptz, column ''id'' TUuid]
       [Check_Rule ''ck_contradictions_valid_contradiction_status'' (Among ''status'' [''flagged'', ''confirmed'', ''rejected'']),
        Foreign_Key ''fk_contradictions_run_id_runs'' ''run_id'' ''runs'' ''id'' CASCADE,
        Foreign_Key ''fk_contradictions_statement_a_id_statements'' ''statement_a_id'' ''statements'' ''id'' RESTRICT,
        Foreign_Key ''fk_contradictions_statement_b_id_statements'' ''statement_b_id'' ''statements'' ''id'' RESTRICT,
        Primary_Key ''pk_contradictions'' [''id'']],
     Create_Index ''ix_contradictions_run_id'' ''contradictions'' [''run_id''],
     Create_Index ''ix_contradictions_status'' ''contradictions'' [''status''],
     Create_Index ''ix_contradictions_stmt_a'' ''contradictions'' [''statement_a_id''],
     Create_Index ''ix_contradictions_stmt_b'' ''contradictions'' [''statement_b_id'']]"

definition create_evidence_links :: "ddl list" where
  "create_evidence_links = [
     Create_Table ''evidence_links''
       [column ''statement_id'' TUuid, column ''passage_id'' TUuid, column ''run_id'' TUuid, column ''score'' (TString 16),
        nullable_column ''method'' (TString 64), now_column ''created_at'', column ''id'' TUuid]
       [Check_Rule ''ck_evidence_links_valid_evidence_score'' (Among ''score'' [''full'', ''partial'', ''none'']),
        Foreign_Key ''fk_evidence_links_passage_id_passages'' ''passage_id'' ''passages'' ''id'' RESTRICT,
        Foreign_Key ''fk_evidence_links_run_id_runs'' ''run_id'' ''runs'' ''id'' RESTRICT,
        Foreign_Key ''fk_evidence_links_statement_id_statements'' ''statement_id'' ''statements'' ''id'' RESTRICT,
        Primary_Key ''pk_evidence_links'' [''id'']],
     Create_Index ''ix_evidence_links_passage_id'' ''evidence_links'' [''passage_id''],
     Create_Index ''ix_evidence_links_run_id'' ''evidence_links'' [''run_id''],
     Create_Index ''ix_evidence_links_statement_id'' ''evidence_links'' [''statement_id'']]"

definition create_finding_statements :: "ddl list" where
  "create_finding_statements = [
     Create_Table ''finding_statements''
       [column ''finding_id'' TUuid, column ''statement_id'' TUuid]
       [Foreign_Key ''fk_finding_statements_finding_id_findings'' ''finding_id'' ''findings'' ''id'' CASCADE,
        Foreign_Key ''fk_finding_statements_statement_id_statements'' ''statement_id'' ''statements'' ''id'' RESTRICT,
        Primary_Key ''pk_finding_statements'' [''finding_id'', ''statement_id'']],
     Create_Index ''ix_finding_statements_statement_id'' ''finding_statements'' [''statement_id'']]"

definition append_only_function :: string where
  "append_only_function = ''trg_append_only_no_update_delete''"

definition create_triggers :: "ddl list" where
  "create_triggers = Create_Function append_only_function #
     map (\<lambda>t. Create_Trigger (''trg_'' @ t @ ''_append_only'') t append_only_function) [''evidence_links'', ''audit_trace'']"

definition upgrade_initial :: "ddl list" where
  "upgrade_initial = create_kv_cache @ create_tenants @ create_runs @ create_audit_trace @ create_checkpoints @ create_conclusions @ create_findings @
     create_sources @ create_passages @ create_statements @ create_conclusion_evidence @ create_contradictions @ create_evidence_links @
     create_finding_statements @
     create_triggers"

definition downgrade_initial :: "ddl list" where
  "downgrade_initial = [
     Drop_Trigger ''trg_audit_trace_append_only'' ''audit_trace'', Drop_Trigger ''trg_evidence_links_append_only'' ''evidence_links'',
     Drop_Function ''trg_append_only_no_update_delete'', Drop_Index ''ix_finding_statements_statement_id'', Drop_Table ''finding_statements'',
     Drop_Index ''ix_evidence_links_statement_id'', Drop_Index ''ix_evidence_links_run_id'', Drop_Index ''ix_evidence_links_passage_id'',
     Drop_Table ''evidence_links'', Drop_Index ''ix_contradictions_stmt_b'', Drop_Index ''ix_contradictions_stmt_a'',
     Drop_Index ''ix_contradictions_status'', Drop_Index ''ix_contradictions_run_id'', Drop_Table ''contradictions'',
     Drop_Index ''ix_conclusion_evidence_statement_id'', Drop_Table ''conclusion_evidence'', Drop_Index ''ix_statements_status'',
     Drop_Index ''ix_statements_run_status'', Drop_Index ''ix_statements_run_id'', Drop_Index ''ix_statements_passage_id'',
     Drop_Table ''statements'', Drop_Index ''ix_passages_source_id'', Drop_Index ''ix_passages_hash'', Drop_Table ''passages'',
     Drop_Index ''ix_sources_uri'', Drop_Index ''ix_sources_run_id'', Drop_Table ''sources'', Drop_Index ''ix_findings_run_id'',
     Drop_Table ''findings'', Drop_Index ''ix_conclusions_run_id'', Drop_Table ''conclusions'', Drop_Table ''checkpoints'',
     Drop_Index ''ix_audit_trace_ts'', Drop_Index ''ix_audit_trace_run_id'', Drop_Index ''ix_audit_trace_entity'', Drop_Table ''audit_trace'',
     Drop_Index ''ix_runs_tenant_status'', Drop_Index ''ix_runs_tenant_created'', Drop_Table ''runs'', Drop_Table ''tenants'',
     Drop_Index ''ix_kv_cache_expires_at'', Drop_Table ''kv_cache'']"

section \<open>The later migrations\<close>

definition default_tenant :: row where
  "default_tenant = map_of [(''id'', ''00000000-0000-0000-0000-000000000001''), (''name'', ''Default tenant''),
     (''namespace'', ''default''), (''created_at'', ''now'')]"

definition upgrade_seed :: "ddl list" where
  "upgrade_seed = [Insert_Ignoring ''tenants'' default_tenant ''namespace'']"

definition downgrade_seed :: "ddl list" where
  "downgrade_seed = [Delete_Where ''tenants'' ''namespace'' ''default'']"

definition upgrade_hash :: "ddl list" where
  "upgrade_hash = [Drop_Constraint ''uq_sources_content_hash'' ''sources'',
     Create_Unique ''uq_sources_run_content_hash'' ''sources'' [''run_id'', ''content_hash'']]"

definition downgrade_hash :: "ddl list" where
  "downgrade_hash = [Drop_Constraint ''uq_sources_run_content_hash'' ''sources'',
     Create_Unique ''uq_sources_content_hash'' ''sources'' [''content_hash'']]"

definition upgrade_head :: "ddl list" where
  \<comment> \<open>\<open>alembic upgrade head\<close> along the chain of revisions\<close>
  "upgrade_head = upgrade_initial @ upgrade_seed @ upgrade_hash"

definition downgrade_base :: "ddl list" where
  "downgrade_base = downgrade_hash @ downgrade_seed @ downgrade_initial"

section \<open>What the migrations build\<close>

definition same_table :: "sql_table \<Rightarrow> sql_table \<Rightarrow> bool" where
  \<comment> \<open>the same columns in the same order, the same constraints and indexes in any order\<close>
  "same_table x y \<longleftrightarrow> tb_name x = tb_name y \<and> tb_columns x = tb_columns y \<and>
     set (tb_constraints x) = set (tb_constraints y) \<and> set (tb_indexes x) = set (tb_indexes y)"

definition declares :: "orm_model list \<Rightarrow> catalog \<Rightarrow> bool" where
  "declares ms c \<longleftrightarrow> length (ct_tables c) = length ms \<and>
     list_all (\<lambda>m. case table_of (om_table m) c of None \<Rightarrow> False | Some x \<Rightarrow> same_table x (table_of_model m)) ms"

section \<open>Statements on one table\<close>

lemma table_of_set:
  assumes "table_of t c = Some x" and "tb_name (f x) = t"
  shows "table_of t (set_table t f c) = Some (f x)"
proof -
  have "find (\<lambda>x. tb_name x = t) xs = Some x \<Longrightarrow> find (\<lambda>x. tb_name x = t) (map (\<lambda>x. if tb_name x = t then f x else x) xs) = Some (f x)" for xs
    using assms(2) by (induction xs) (auto split: if_splits)
  with assms(1) show ?thesis by (simp add: table_of_def set_table_def)
qed

lemma table_of_name: "table_of t c = Some x \<Longrightarrow> tb_name x = t"
  by (auto simp: table_of_def find_Some_iff)

lemma migrate_step: "migrate (d # ds) c = result_bind (apply_ddl d c) (migrate ds)"
proof -
  have "foldl (\<lambda>acc d. result_bind acc (apply_ddl d)) (Inl e) ds = Inl e" for e :: exn by (induction ds) simp_all
  then show ?thesis by (cases "apply_ddl d c") (simp_all add: migrate_def)
qed

lemma migrate_nil: "migrate [] c = Inr c"
  by (simp add: migrate_def)

lemma distinct_rows_more:
  assumes "distinct_rows [b] rows"
  shows "distinct_rows [a, b] rows"
  using assms unfolding distinct_rows_def
proof (induction rows)
  case (Cons r rows)
  then show ?case by (fastforce split: if_splits)
qed simp

definition swap_unique :: "string \<Rightarrow> string \<Rightarrow> string list \<Rightarrow> sql_table \<Rightarrow> sql_table" where
  \<comment> \<open>drop one constraint, add a unique one\<close>
  "swap_unique old new cols x = x\<lparr>tb_constraints := filter (\<lambda>k. constraint_name k \<noteq> old) (tb_constraints x) @ [Unique_Key new cols]\<rparr>"

lemma swap_run:
  assumes x: "table_of t c = Some x" and old: "old \<in> constraint_name ` set (tb_constraints x)"
    and new: "new \<notin> constraint_name ` set (tb_constraints x)"
  shows "migrate [Drop_Constraint old t, Create_Unique new t cols] c =
    (if distinct_rows cols (tb_rows x) then Inr (set_table t (\<lambda>x. x\<lparr>tb_constraints := tb_constraints x @ [Unique_Key new cols]\<rparr>)
       (set_table t (\<lambda>x. x\<lparr>tb_constraints := filter (\<lambda>k. constraint_name k \<noteq> old) (tb_constraints x)\<rparr>) c))
     else Inl (refused ''could not create unique index''))"
proof -
  let ?f = "\<lambda>x. x\<lparr>tb_constraints := filter (\<lambda>k. constraint_name k \<noteq> old) (tb_constraints x)\<rparr>"
  have "table_of t (set_table t ?f c) = Some (?f x)"
    by (rule table_of_set [OF x]) (simp add: table_of_name [OF x])
  moreover have "new \<notin> constraint_name ` set (tb_constraints (?f x))" using new by auto
  ultimately show ?thesis using x old by (simp add: migrate_step migrate_nil)
qed

lemma swap_table:
  assumes "table_of t c = Some x"
  shows "table_of t (set_table t (\<lambda>x. x\<lparr>tb_constraints := tb_constraints x @ [Unique_Key new cols]\<rparr>)
       (set_table t (\<lambda>x. x\<lparr>tb_constraints := filter (\<lambda>k. constraint_name k \<noteq> old) (tb_constraints x)\<rparr>) c)) = Some (swap_unique old new cols x)"
proof -
  let ?f = "\<lambda>x. x\<lparr>tb_constraints := filter (\<lambda>k. constraint_name k \<noteq> old) (tb_constraints x)\<rparr>"
  have n: "tb_name x = t" by (rule table_of_name [OF assms])
  have "table_of t (set_table t ?f c) = Some (?f x)" by (rule table_of_set [OF assms]) (simp add: n)
  from table_of_set [OF this, of "\<lambda>x. x\<lparr>tb_constraints := tb_constraints x @ [Unique_Key new cols]\<rparr>"] n
  show ?thesis by (simp add: swap_unique_def)
qed

section \<open>Properties\<close>

lemma head_evaluates:
  "(case migrate upgrade_head empty_catalog of
      Inl e \<Rightarrow> False
    | Inr c \<Rightarrow> declares orm_models c \<and> map tg_table (ct_triggers c) = map om_table append_only_models \<and>
        list_all (\<lambda>g. tg_function g \<in> set (ct_functions c)) (ct_triggers c) \<and>
        (case migrate downgrade_base c of
           Inl e \<Rightarrow> False
         | Inr b \<Rightarrow> ct_tables b = [] \<and> ct_functions b = [] \<and> ct_triggers b = []))"
  by code_simp



text \<open>
  The hash migration loses nothing on the way up and may refuse the way back: where the old
  constraint holds, the upgrade succeeds with every row of the sources kept and the content hash unique
  per run; the downgrade from there succeeds exactly while no two sources share a content hash,
  which the new constraint allows.
\<close>
theorem hash_migration_keeps_rows:
  assumes x: "table_of ''sources'' c = Some x" and old: "Unique_Key ''uq_sources_content_hash'' [''content_hash''] \<in> set (tb_constraints x)"
    and new: "''uq_sources_run_content_hash'' \<notin> constraint_name ` set (tb_constraints x)"
    and keys: "keys_hold x (tb_rows x)"
  shows "\<exists>c1 x1. migrate upgrade_hash c = Inr c1 \<and> table_of ''sources'' c1 = Some x1 \<and> tb_rows x1 = tb_rows x \<and>
    keys_hold x1 (tb_rows x1) \<and>
    (\<forall>rows. is_ok (migrate downgrade_hash (set_table ''sources'' (\<lambda>y. y\<lparr>tb_rows := rows\<rparr>) c1)) \<longleftrightarrow> distinct_rows [''content_hash''] rows)"
proof -
  let ?x1 = "swap_unique ''uq_sources_content_hash'' ''uq_sources_run_content_hash'' [''run_id'', ''content_hash''] x"
  have one: "distinct_rows [''content_hash''] (tb_rows x)"
    using keys old by (auto simp: keys_hold_def list_all_iff split: option.splits)
  then have both: "distinct_rows [''run_id'', ''content_hash''] (tb_rows x)" by (rule distinct_rows_more)
  have "''uq_sources_content_hash'' \<in> constraint_name ` set (tb_constraints x)" using old by force
  from swap_run [OF x this new, of "[''run_id'', ''content_hash'']"] both obtain c1 where
    c1: "migrate upgrade_hash c = Inr c1" "table_of ''sources'' c1 = Some ?x1"
    using swap_table [OF x] by (simp add: upgrade_hash_def)
  have "keys_hold ?x1 (tb_rows ?x1)"
    using keys both by (auto simp: keys_hold_def list_all_iff swap_unique_def split: option.splits)
  moreover have "is_ok (migrate downgrade_hash (set_table ''sources'' (\<lambda>y. y\<lparr>tb_rows := rows\<rparr>) c1)) \<longleftrightarrow> distinct_rows [''content_hash''] rows" for rows
  proof -
    let ?y = "?x1\<lparr>tb_rows := rows\<rparr>"
    have t: "table_of ''sources'' (set_table ''sources'' (\<lambda>y. y\<lparr>tb_rows := rows\<rparr>) c1) = Some ?y"
      by (rule table_of_set [OF c1(2)]) (simp add: swap_unique_def table_of_name [OF x])
    have "''uq_sources_run_content_hash'' \<in> constraint_name ` set (tb_constraints ?y)"
      "''uq_sources_content_hash'' \<notin> constraint_name ` set (tb_constraints ?y)"
      by (auto simp: swap_unique_def)
    from swap_run [OF t this, of "[''content_hash'']"] show ?thesis by (simp add: downgrade_hash_def)
  qed
  moreover have "tb_rows ?x1 = tb_rows x" by (simp add: swap_unique_def)
  ultimately show ?thesis using c1 by blast
qed

text \<open>
  Seeding is idempotent: where no row takes the fixed identifier under another namespace, the
  seed migration succeeds, keeps every tenant, leaves a tenant with the namespace \<open>default\<close>, and
  running it again changes nothing.
\<close>
theorem seeding_is_idempotent:
  assumes x: "table_of ''tenants'' c = Some x" and free: "keys_hold x (tb_rows x @ [default_tenant]) \<or>
    Some ''default'' \<in> (\<lambda>r. r ''namespace'') ` set (tb_rows x)"
  shows "\<exists>c1 x1. migrate upgrade_seed c = Inr c1 \<and> table_of ''tenants'' c1 = Some x1 \<and>
    set (tb_rows x) \<subseteq> set (tb_rows x1) \<and> Some ''default'' \<in> (\<lambda>r. r ''namespace'') ` set (tb_rows x1) \<and>
    migrate upgrade_seed c1 = Inr c1"
proof -
  have ns: "default_tenant ''namespace'' = Some ''default''" by (simp add: default_tenant_def)
  have again: "migrate upgrade_seed d = Inr d"
    if "table_of ''tenants'' d = Some y" "Some ''default'' \<in> (\<lambda>r. r ''namespace'') ` set (tb_rows y)" for d y
    using that ns by (simp add: upgrade_seed_def migrate_step migrate_nil)
  show ?thesis
  proof (cases "Some ''default'' \<in> (\<lambda>r. r ''namespace'') ` set (tb_rows x)")
    case True
    with again x show ?thesis by blast
  next
    case False
    let ?f = "\<lambda>x. x\<lparr>tb_rows := tb_rows x @ [default_tenant]\<rparr>"
    have "migrate upgrade_seed c = Inr (set_table ''tenants'' ?f c)"
      using False free x ns by (simp add: upgrade_seed_def migrate_step migrate_nil)
    moreover have t: "table_of ''tenants'' (set_table ''tenants'' ?f c) = Some (?f x)"
      by (rule table_of_set [OF x]) (simp add: table_of_name [OF x])
    moreover have "Some ''default'' \<in> (\<lambda>r. r ''namespace'') ` set (tb_rows (?f x))" using ns by simp
    ultimately show ?thesis using again [OF t] by (intro exI [of _ "set_table ''tenants'' ?f c"] exI [of _ "?f x"]) auto
  qed
qed

definition source_status_value :: "source_status \<Rightarrow> string" where
  "source_status_value s = (case s of PENDING \<Rightarrow> ''pending'' | FETCHED \<Rightarrow> ''fetched'' | FAILED \<Rightarrow> ''failed''
     | NORMALIZED \<Rightarrow> ''normalized'' | SOURCE_QUARANTINED \<Rightarrow> ''quarantined'')"

definition contradiction_status_value :: "contradiction_status \<Rightarrow> string" where
  "contradiction_status_value s = (case s of FLAGGED \<Rightarrow> ''flagged'' | CONFIRMED \<Rightarrow> ''confirmed'' | REJECTED \<Rightarrow> ''rejected'')"

text \<open>
  Every status column accepts exactly the values of its enum: the run, source, statement and
  contradiction statuses, the source types, the support scores and the evidence tiers that the
  mapped classes check are those the code writes, so no status of the code is refused and no other accepted.
\<close>
theorem checks_admit_enum_values:
  "Among ''status'' run_statuses \<in> snd ` set (om_checks model_Run) \<and>
   Among ''status'' (map source_status_value [PENDING, FETCHED, FAILED, NORMALIZED, SOURCE_QUARANTINED]) \<in> snd ` set (om_checks model_Source) \<and>
   Among ''source_type'' (map source_type_value [WEB, PDF, RSS, DOCX, RTF, UPLOAD, OTHER]) \<in> snd ` set (om_checks model_Source) \<and>
   Among ''status'' (map statement_status_value [DRAFT, VERIFIED, QUARANTINED]) \<in> snd ` set (om_checks model_Statement) \<and>
   Among ''status'' (map contradiction_status_value [FLAGGED, CONFIRMED, REJECTED]) \<in> snd ` set (om_checks model_Contradiction) \<and>
   Among ''score'' (map score_value [FULL, PARTIAL, NONE]) \<in> snd ` set (om_checks model_EvidenceLink)"
  by (simp add: model_Run_def model_Source_def model_Statement_def model_Contradiction_def model_EvidenceLink_def
      run_statuses_def source_status_value_def contradiction_status_value_def)

section \<open>Concrete databases\<close>

definition hashed_sources :: sql_table where
  "hashed_sources = \<lparr>tb_name = ''sources'', tb_columns = [], tb_constraints = [Unique_Key ''uq_sources_content_hash'' [''content_hash'']],
     tb_indexes = [], tb_rows = [map_of [(''run_id'', ''1''), (''content_hash'', ''h'')], map_of [(''run_id'', ''1''), (''content_hash'', ''g'')]]\<rparr>"

theorem hash_migration_keeps_rows_witness:
  "\<exists>c1 x1. migrate upgrade_hash (empty_catalog\<lparr>ct_tables := [hashed_sources]\<rparr>) = Inr c1 \<and>
     table_of ''sources'' c1 = Some x1 \<and> tb_rows x1 = tb_rows hashed_sources"
proof -
  let ?c = "empty_catalog\<lparr>ct_tables := [hashed_sources]\<rparr>"
  have "table_of ''sources'' ?c = Some hashed_sources" by (simp add: table_of_def hashed_sources_def)
  from hash_migration_keeps_rows [OF this] show ?thesis
    by (auto simp: hashed_sources_def keys_hold_def distinct_rows_def)
qed

theorem seeding_is_idempotent_witness:
  "\<exists>c1. migrate upgrade_seed (empty_catalog\<lparr>ct_tables := [table_of_model model_Tenant]\<rparr>) = Inr c1 \<and> migrate upgrade_seed c1 = Inr c1"
proof -
  let ?c = "empty_catalog\<lparr>ct_tables := [table_of_model model_Tenant]\<rparr>"
  have "table_of ''tenants'' ?c = Some (table_of_model model_Tenant)"
    by (simp add: table_of_def table_of_model_def model_Tenant_def)
  moreover have "keys_hold (table_of_model model_Tenant) (tb_rows (table_of_model model_Tenant) @ [default_tenant])"
    by (simp add: keys_hold_def table_of_model_def distinct_rows_def list_all_iff split: option.split)
  ultimately show ?thesis using seeding_is_idempotent by blast
qed

end
