(* ===== verification/Observability.thy ===== *)
theory Observability
  imports Flow
begin

text \<open>
  The Prometheus instruments of \<open>app/core/metrics.py\<close> and the JSONL log records of
  \<open>app/core/logging.py\<close>. The registry is a record of the values its instruments hold; the
  buckets of the histogram are not modelled. A log value is a JSON value; writing JSON text and
  formatting a traceback belong to the standard library and are parameters.
\<close>

section \<open>Instruments\<close>

record registry =
  mt_run_cost :: "string \<Rightarrow> rat option"
  mt_stage_seconds :: "string \<Rightarrow> rat list"
  mt_pass :: nat
  mt_fail :: nat
  mt_pass_rate :: rat
  mt_contradictions :: nat
  mt_sources :: nat
  mt_passages :: nat
  mt_statements :: nat
  mt_runs :: "string \<Rightarrow> nat"

definition fresh_registry :: registry where
  "fresh_registry = \<lparr>mt_run_cost = (\<lambda>_. None), mt_stage_seconds = (\<lambda>_. []), mt_pass = 0, mt_fail = 0, mt_pass_rate = 0,
     mt_contradictions = 0, mt_sources = 0, mt_passages = 0, mt_statements = 0, mt_runs = (\<lambda>_. 0)\<rparr>"

definition record_run_cost :: "uuid \<Rightarrow> rat \<Rightarrow> registry \<Rightarrow> registry" where
  "record_run_cost run_id usd m = m\<lparr>mt_run_cost := (mt_run_cost m)(str_uuid run_id \<mapsto> usd)\<rparr>"

definition record_stage_duration :: "string \<Rightarrow> rat \<Rightarrow> registry \<Rightarrow> registry" where
  "record_stage_duration stage secs m =
     m\<lparr>mt_stage_seconds := (mt_stage_seconds m)(stage := mt_stage_seconds m stage @ [max 0 secs])\<rparr>"

definition record_verification :: "bool \<Rightarrow> registry \<Rightarrow> registry" where
  "record_verification passed m =
     (let m1 = (if passed then m\<lparr>mt_pass := Suc (mt_pass m)\<rparr> else m\<lparr>mt_fail := Suc (mt_fail m)\<rparr>);
          total = mt_pass m1 + mt_fail m1
      in m1\<lparr>mt_pass_rate := (if 0 < total then of_nat (mt_pass m1) / of_nat total else 0)\<rparr>)"

definition record_contradiction_metric :: "registry \<Rightarrow> registry" where
  "record_contradiction_metric m = m\<lparr>mt_contradictions := Suc (mt_contradictions m)\<rparr>"

definition record_kb_growth :: "nat \<Rightarrow> nat \<Rightarrow> nat \<Rightarrow> registry \<Rightarrow> registry" where
  "record_kb_growth n_sources n_passages n_statements m =
     m\<lparr>mt_sources := n_sources, mt_passages := n_passages, mt_statements := n_statements\<rparr>"

definition record_run_status :: "string \<Rightarrow> registry \<Rightarrow> registry" where
  "record_run_status status m = m\<lparr>mt_runs := (mt_runs m)(status := Suc (mt_runs m status))\<rparr>"

datatype metric =
    Run_Cost uuid rat
  | Stage_Duration string rat
  | Verification bool
  | Contradiction_Confirmed
  | KB_Growth nat nat nat
  | Run_Status string

fun observe :: "metric \<Rightarrow> registry \<Rightarrow> registry" where
  "observe (Run_Cost i x) = record_run_cost i x"
| "observe (Stage_Duration s x) = record_stage_duration s x"
| "observe (Verification b) = record_verification b"
| "observe Contradiction_Confirmed = record_contradiction_metric"
| "observe (KB_Growth a b c) = record_kb_growth a b c"
| "observe (Run_Status s) = record_run_status s"

definition metrics_after :: "metric list \<Rightarrow> registry" where
  "metrics_after ms = fold observe ms fresh_registry"

lemmas metric_defs = record_run_cost_def record_stage_duration_def record_verification_def
  record_contradiction_metric_def record_kb_growth_def record_run_status_def Let_def

lemma metrics_snoc: "metrics_after (ms @ [m]) = observe m (metrics_after ms)"
  by (simp add: metrics_after_def)

lemma rate_of_counts:
  assumes "r = (if 0 < p + f then of_nat p / of_nat (p + f) else 0 :: rat)"
  shows "r * of_nat (p + f) = of_nat p \<and> 0 \<le> r \<and> r \<le> 1"
proof (cases "p + f = 0")
  case False
  then have "(of_nat (p + f) :: rat) > 0" by (simp only: of_nat_0_less_iff)
  with assms show ?thesis by (simp add: False divide_le_eq_1 del: of_nat_add)
qed (use assms in simp)

lemma pass_rate_recorded:
  "mt_pass_rate (metrics_after ms) = (if 0 < mt_pass (metrics_after ms) + mt_fail (metrics_after ms)
     then of_nat (mt_pass (metrics_after ms)) / of_nat (mt_pass (metrics_after ms) + mt_fail (metrics_after ms)) else 0)"
proof (induction ms rule: rev_induct)
  case Nil
  show ?case by (simp add: metrics_after_def fresh_registry_def)
next
  case (snoc e ms)
  then show ?case by (cases e) (simp_all add: metrics_snoc metric_defs)
qed

lemma instruments_count:
  "mt_pass (metrics_after ms) = count_list ms (Verification True) \<and> mt_fail (metrics_after ms) = count_list ms (Verification False) \<and>
   mt_contradictions (metrics_after ms) = count_list ms Contradiction_Confirmed \<and>
   (\<forall>s. mt_runs (metrics_after ms) s = count_list ms (Run_Status s)) \<and>
   (\<forall>s. list_all (\<lambda>x. 0 \<le> x) (mt_stage_seconds (metrics_after ms) s))"
proof (induction ms rule: rev_induct)
  case Nil
  show ?case by (simp add: metrics_after_def fresh_registry_def)
next
  case (snoc e ms)
  then show ?case by (cases e) (simp_all add: metrics_snoc metric_defs)
qed

text \<open>
  The instruments tell what was recorded, in any order and number: the counters are the numbers of
  passed and failed verdicts, of confirmed contradictions and of runs per status; the pass rate is the
  share of passed verdicts, between zero and one; and no recorded duration is negative.
\<close>
theorem instruments_count_what_happened:
  fixes ms :: "metric list"
  defines "m \<equiv> metrics_after ms"
  shows "mt_pass m = count_list ms (Verification True) \<and> mt_fail m = count_list ms (Verification False) \<and>
    mt_contradictions m = count_list ms Contradiction_Confirmed \<and> (\<forall>s. mt_runs m s = count_list ms (Run_Status s)) \<and>
    mt_pass_rate m * of_nat (mt_pass m + mt_fail m) = of_nat (mt_pass m) \<and> 0 \<le> mt_pass_rate m \<and> mt_pass_rate m \<le> 1 \<and>
    (\<forall>s. list_all (\<lambda>x. 0 \<le> x) (mt_stage_seconds m s))"
  unfolding m_def using instruments_count [of ms] rate_of_counts [OF pass_rate_recorded [of ms]] by blast

section \<open>Log values\<close>

definition log_secret_hints :: "string list" where
  "log_secret_hints = [''password'', ''passwd'', ''secret'', ''token'', ''credential'', ''authorization'']"

definition is_log_secret_key :: "string \<Rightarrow> bool" where
  "is_log_secret_key key \<longleftrightarrow>
     (let lowered = py_lower key
      in list_ex (\<lambda>hint. py_in hint lowered) log_secret_hints \<or>
         endswith ''_key'' lowered \<or> endswith ''_secret'' lowered \<or> lowered = ''key'')"

function redact_value :: "string \<Rightarrow> json \<Rightarrow> json" where
  "redact_value key v =
     (if is_log_secret_key key then JStr ''[REDACTED]''
      else case v of
          JObj kvs \<Rightarrow> JObj (map (\<lambda>(k, x). (k, redact_value k x)) kvs)
        | JList xs \<Rightarrow> JList (map (\<lambda>(i, x). redact_value (str_int (int i)) x) (enumerate 0 xs))
        | _ \<Rightarrow> v)"
  by pat_completeness auto

lemma size_field: "(k, x) \<in> set kvs \<Longrightarrow> size x < Suc (size_list (size_prod (\<lambda>_. 0) size) kvs)"
  by (induction kvs) auto

lemma enumerate_mem: "(i, x) \<in> set (enumerate n xs) \<Longrightarrow> x \<in> set xs"
  by (auto simp: in_set_enumerate_eq)

lemma size_member: "(i, x) \<in> set (enumerate n xs) \<Longrightarrow> size x < Suc (size_list size xs)"
  using size_list_estimation' [OF enumerate_mem, of i x n xs "size x" size] by simp

termination redact_value
  by (relation "measure (\<lambda>(k, v). size v)") (auto dest: size_field size_member)

declare redact_value.simps [simp del]

lemma redact_value_cases:
  "is_log_secret_key key \<Longrightarrow> redact_value key v = JStr ''[REDACTED]''"
  "\<not> is_log_secret_key key \<Longrightarrow> redact_value key (JObj kvs) = JObj (map (\<lambda>(k, x). (k, redact_value k x)) kvs)"
  "\<not> is_log_secret_key key \<Longrightarrow> redact_value key (JList xs) = JList (map (\<lambda>(i, x). redact_value (str_int (int i)) x) (enumerate 0 xs))"
  by (simp_all add: redact_value.simps [of key v] redact_value.simps [of key "JObj kvs"] redact_value.simps [of key "JList xs"])

section \<open>Log records\<close>

record log_record =
  lr_level :: string
  lr_name :: string
  lr_message :: string
  lr_extra :: "(string \<times> json) list"     \<comment> \<open>the record's attributes, those of the library among them\<close>
  lr_exception :: "string option"          \<comment> \<open>the formatted traceback\<close>

definition dict_set :: "string \<Rightarrow> json \<Rightarrow> (string \<times> json) list \<Rightarrow> (string \<times> json) list" where
  "dict_set k v d = (if k \<in> fst ` set d then map (\<lambda>(j, x). (j, if j = k then v else x)) d else d @ [(k, v)])"

definition context_ids :: "string list" where
  "context_ids = [''correlation_id'', ''run_id'']"

definition reserved_attrs :: "string list" where
  \<comment> \<open>the attributes the library gives every record\<close>
  "reserved_attrs = [
    ''name'', ''msg'', ''args'', ''levelname'', ''levelno'', ''pathname'', ''filename'', ''module'',
    ''exc_info'', ''exc_text'', ''stack_info'', ''lineno'', ''funcName'', ''created'', ''msecs'',
    ''relativeCreated'', ''thread'', ''threadName'', ''processName'', ''process'', ''taskName'',
    ''message'', ''asctime'']"

definition base_payload :: "env \<Rightarrow> time \<Rightarrow> uuid \<Rightarrow> log_record \<Rightarrow> (string \<times> json) list" where
  "base_payload E t fresh r =
     (let correlation_id = map_of (lr_extra r) ''correlation_id''; run_id = map_of (lr_extra r) ''run_id''
      in [(''ts'', JStr (isoformat E t)), (''level'', JStr (lr_level r)), (''logger'', JStr (lr_name r)), (''message'', JStr (lr_message r)),
          (''correlation_id'', JStr (if jtruthy correlation_id then py_str E (the correlation_id) else hex_of 32 fresh))] @
         (if jtruthy run_id then [(''run_id'', JStr (py_str E (the run_id)))] else []))"

definition add_extra :: "string \<times> json \<Rightarrow> (string \<times> json) list \<Rightarrow> (string \<times> json) list" where
  "add_extra = (\<lambda>(key, v) d. if key \<in> set reserved_attrs \<or> startswith ''_'' key \<or> key \<in> set context_ids then d else dict_set key (redact_value key v) d)"

definition log_payload :: "env \<Rightarrow> time \<Rightarrow> uuid \<Rightarrow> log_record \<Rightarrow> (string \<times> json) list" where
  \<comment> \<open>what \<open>JsonlFormatter.format\<close> dumps; the timestamp has milliseconds, the identifier is a fresh one\<close>
  "log_payload E t fresh r =
     (let payload = fold add_extra (lr_extra r) (base_payload E t fresh r)
      in case lr_exception r of None \<Rightarrow> payload | Some x \<Rightarrow> dict_set ''exception'' (JStr x) payload)"

definition merge_extra :: "(string \<times> json) list \<Rightarrow> (string \<times> json) list \<Rightarrow> (string \<times> json) list" where
  \<comment> \<open>\<open>ContextLoggerAdapter.process\<close>: the call's own fields win\<close>
  "merge_extra context extra = fold (\<lambda>(k, v). dict_set k v) extra context"

definition logger_context :: "string option \<Rightarrow> string option \<Rightarrow> (string \<times> json) list" where
  "logger_context run_id correlation_id = [(''run_id'', jopt JStr run_id), (''correlation_id'', jopt JStr correlation_id)]"

section \<open>No credential is logged\<close>

function hides :: "string \<Rightarrow> json \<Rightarrow> bool" where
  \<comment> \<open>at any depth, whatever stands under a key that hints at a secret is the mark\<close>
  "hides key v \<longleftrightarrow> (if is_log_secret_key key then v = JStr ''[REDACTED]''
     else case v of
         JObj kvs \<Rightarrow> (\<forall>(k, x) \<in> set kvs. hides k x)
       | JList xs \<Rightarrow> (\<forall>(i, x) \<in> set (enumerate 0 xs). hides (str_int (int i)) x)
       | _ \<Rightarrow> True)"
  by pat_completeness auto

termination hides
  by (relation "measure (\<lambda>(k, v). size v)") (auto dest: size_field size_member)

declare hides.simps [simp del]

lemma redact_value_hides: "hides key (redact_value key v)"
proof (induction key v rule: redact_value.induct)
  case (1 key v)
  show ?case
  proof (cases "is_log_secret_key key")
    case True
    then show ?thesis by (simp add: hides.simps redact_value_cases)
  next
    case False
    show ?thesis
    proof (cases v)
      case (JObj kvs)
      with 1 False show ?thesis by (subst hides.simps) (auto simp: redact_value_cases)
    next
      case (JList xs)
      have "hides (str_int (int i)) (redact_value (str_int (int i)) x)" if "(i, x) \<in> set (enumerate 0 xs)" for i x
        using 1(1) [OF False JList that refl] .
      then have "\<forall>(i, y) \<in> set (enumerate 0 (map (\<lambda>(i, x). redact_value (str_int (int i)) x) (enumerate 0 xs))). hides (str_int (int i)) y"
        by (auto simp: in_set_enumerate_eq nth_enumerate_eq)
      with JList False show ?thesis by (subst hides.simps) (simp add: redact_value_cases)
    qed (use False in \<open>simp_all add: hides.simps redact_value.simps\<close>)
  qed
qed

lemma dict_set_keys: "fst ` set (dict_set j x d) = insert j (fst ` set d)"
  by (force simp: dict_set_def)

lemma dict_set_mem: "(k, v) \<in> set (dict_set j x d) \<Longrightarrow> (k, v) = (j, x) \<or> (k, v) \<in> set d"
  by (auto simp: dict_set_def split: if_splits)

lemma add_extras_hide:
  "(\<And>k v. (k, v) \<in> set d \<Longrightarrow> hides k v) \<Longrightarrow> (k, v) \<in> set (fold add_extra es d) \<Longrightarrow> hides k v"
proof (induction es arbitrary: d)
  case (Cons e es)
  obtain j x where e: "e = (j, x)" by fastforce
  have "hides a b" if "(a, b) \<in> set (add_extra e d)" for a b
    using that Cons.prems(1) redact_value_hides by (auto simp: e add_extra_def dest!: dict_set_mem split: if_splits)
  with Cons.IH [of "add_extra e d"] Cons.prems(2) show ?case by simp
qed simp

definition payload_names :: "string list" where
  "payload_names = [''ts'', ''level'', ''logger'', ''message'', ''correlation_id'', ''run_id'', ''exception'']"

lemma payload_names_plain: "list_ex is_log_secret_key payload_names = False"
  by code_simp

lemmas base_names = payload_names_plain [unfolded payload_names_def, simplified]

lemma base_hides: "list_all (\<lambda>(k, v). hides k v) (base_payload E t fresh r)"
  by (simp add: base_payload_def Let_def base_names hides.simps)

lemma kept_fields: "fst ` set d \<subseteq> fst ` set (fold add_extra es d)"
proof (induction es arbitrary: d)
  case (Cons e es)
  obtain key v where "e = (key, v)" by fastforce
  then consider "add_extra e d = d" | "add_extra e d = dict_set key (redact_value key v) d"
    unfolding add_extra_def by (simp only: prod.case) (metis (full_types))
  then have "fst ` set d \<subseteq> fst ` set (add_extra e d)"
    by cases (simp_all only: dict_set_keys subset_insertI subset_refl)
  then show ?case unfolding fold_simps by (rule subset_trans [OF _ Cons.IH])
qed simp


end
