(* ===== verification/Wiring.thy ===== *)
theory Wiring
  imports Deployment Schema Observability
begin

text \<open>
  How the parts are started and put together: the application of \<open>app/main.py\<close> with the health
  answers of \<open>app/api/health.py\<close>, the root logger (\<open>app/core/logging.py\<close>) and the tracer
  provider (\<open>app/core/telemetry.py\<close>) its lifespan sets up, the provider keys the gateway installs
  in the process environment (\<open>app/services/llm_gateway.py\<close>), the counters of the verifier
  (\<open>app/services/verifier.py\<close>), the session scope (\<open>app/db/session.py\<close>) and the runs of the
  migrations (\<open>alembic/env.py\<close>). Global variables of modules are explicit states.
\<close>

section \<open>Provider keys\<close>

type_synonym environ = "string \<Rightarrow> string option"

definition setdefault :: "string \<Rightarrow> string \<Rightarrow> environ \<Rightarrow> environ" where
  \<comment> \<open>\<open>os.environ.setdefault\<close>\<close>
  "setdefault name v env = (case env name of None \<Rightarrow> env(name \<mapsto> v) | Some _ \<Rightarrow> env)"

definition provider_env_map :: "((settings \<Rightarrow> string option) \<times> string) list" where
  "provider_env_map = [(llm_openai_api_key, ''OPENAI_API_KEY''), (llm_anthropic_api_key, ''ANTHROPIC_API_KEY''),
     (llm_google_api_key, ''GEMINI_API_KEY'')]"

definition install_key :: "string option \<Rightarrow> string \<Rightarrow> environ \<Rightarrow> environ" where
  \<comment> \<open>one round of the loop\<close>
  "install_key key name env = (case key of None \<Rightarrow> env | Some v \<Rightarrow> setdefault name v env)"

definition install_provider_keys :: "settings \<Rightarrow> environ \<Rightarrow> environ" where
  "install_provider_keys S env = fold (\<lambda>(field, name). install_key (field S) name) provider_env_map env"

interpretation environ: write_once "\<lambda>env name. env name" setdefault
  by unfold_locales (auto simp: setdefault_def split: option.split)

lemma setdefault_apply: "setdefault n v env m = (if m = n \<and> env n = None then Some v else env m)"
  by (simp add: setdefault_def split: option.split)

lemma install_apply: "install_provider_keys S env m = (case env m of Some v \<Rightarrow> Some v | None \<Rightarrow>
    if m = ''OPENAI_API_KEY'' then llm_openai_api_key S else if m = ''ANTHROPIC_API_KEY'' then llm_anthropic_api_key S
    else if m = ''GEMINI_API_KEY'' then llm_google_api_key S else None)"
proof -
  have one: "install_key k n e j = (if j = n \<and> e j = None then k else e j)" for k n e j
    by (cases k) (auto simp: install_key_def setdefault_apply)
  show ?thesis
    by (cases "m = ''OPENAI_API_KEY''"; cases "m = ''ANTHROPIC_API_KEY''"; cases "m = ''GEMINI_API_KEY''")
      (simp_all add: install_provider_keys_def provider_env_map_def one split: option.split)
qed

text \<open>
  Installing the keys never replaces a variable that is set, sets no other variable than the three of
  the map, and gives each of these the configured key when it was not set.
\<close>
theorem provider_keys_fill_gaps:
  "env \<subseteq>\<^sub>m install_provider_keys S env \<and>
   (\<forall>name. name \<notin> {''OPENAI_API_KEY'', ''ANTHROPIC_API_KEY'', ''GEMINI_API_KEY''} \<longrightarrow> install_provider_keys S env name = env name) \<and>
   (\<forall>(field, name) \<in> set provider_env_map. env name = None \<longrightarrow> install_provider_keys S env name = field S)"
proof (intro conjI)
  show "env \<subseteq>\<^sub>m install_provider_keys S env" by (auto simp: map_le_def install_apply)
  show "\<forall>name. name \<notin> {''OPENAI_API_KEY'', ''ANTHROPIC_API_KEY'', ''GEMINI_API_KEY''} \<longrightarrow> install_provider_keys S env name = env name"
    by (simp add: install_apply split: option.split)
  show "\<forall>(field, name) \<in> set provider_env_map. env name = None \<longrightarrow> install_provider_keys S env name = field S"
    by (simp add: provider_env_map_def install_apply)
qed

section \<open>The verifier's counters\<close>

record verifier_counts =
  vc_processed :: nat
  vc_verified :: nat

definition no_verdicts :: verifier_counts where
  "no_verdicts = \<lparr>vc_processed = 0, vc_verified = 0\<rparr>"

definition count_verdict :: "verification_outcome \<Rightarrow> verifier_counts \<Rightarrow> verifier_counts" where
  \<comment> \<open>a skipped statement returns before the counters\<close>
  "count_verdict x c = (if vo_skipped x then c
     else c\<lparr>vc_processed := vc_processed c + 1, vc_verified := vc_verified c + (if vo_decision x = VERIFIED then 1 else 0)\<rparr>)"

definition log_support_ratio :: "env \<Rightarrow> verifier_counts \<Rightarrow> string \<times> nat \<times> nat" where
  \<comment> \<open>the logged ratio and the returned pair\<close>
  "log_support_ratio E c =
     ((if vc_processed c \<noteq> 0 then fixed3 E (rat_of_nat (vc_verified c) / rat_of_nat (vc_processed c)) else ''0.000''),
      vc_verified c, vc_processed c)"

lemma counts_of_outcomes:
  "vc_processed (fold count_verdict xs c) = vc_processed c + length (filter (\<lambda>x. \<not> vo_skipped x) xs)"
  "vc_verified (fold count_verdict xs c) = vc_verified c + length (filter (\<lambda>x. \<not> vo_skipped x \<and> vo_decision x = VERIFIED) xs)"
  by (induction xs arbitrary: c) (auto simp: count_verdict_def)

text \<open>
  After any verifications the logged pair is the number of statements that became verified and the
  number of those not skipped, and the logged ratio, when anything was processed, is at most one.
\<close>
theorem support_ratio_counts_verdicts:
  "\<exists>text. log_support_ratio E (fold count_verdict xs no_verdicts) =
     (text, length (filter (\<lambda>x. \<not> vo_skipped x \<and> vo_decision x = VERIFIED) xs), length (filter (\<lambda>x. \<not> vo_skipped x) xs)) \<and>
     (text = ''0.000'' \<or> (\<exists>q. text = fixed3 E q \<and> 0 \<le> q \<and> q \<le> 1))"
proof -
  have "length (filter (\<lambda>x. \<not> vo_skipped x \<and> vo_decision x = VERIFIED) xs) \<le> length (filter (\<lambda>x. \<not> vo_skipped x) xs)"
    by (induction xs) auto
  then have "rat_of_nat (length (filter (\<lambda>x. \<not> vo_skipped x \<and> vo_decision x = VERIFIED) xs)) / rat_of_nat (length (filter (\<lambda>x. \<not> vo_skipped x) xs)) \<le> 1"
    by (simp add: divide_le_eq_1)
  then show ?thesis
    by (auto simp: log_support_ratio_def counts_of_outcomes no_verdicts_def intro!: exI)
qed

section \<open>Logging\<close>

record root_logger =
  lg_level :: string
  lg_handlers :: "string list"   \<comment> \<open>the streams of the installed handlers\<close>

definition configure_logging :: "settings \<Rightarrow> string option \<Rightarrow> root_logger \<Rightarrow> root_logger" where
  \<comment> \<open>each handler writes JSONL to its stream\<close>
  "configure_logging S stream root_log = root_log\<lparr>lg_level := log_level S,
     lg_handlers := [case stream of None \<Rightarrow> ''stdout'' | Some s \<Rightarrow> s]\<rparr>"

section \<open>Telemetry\<close>

datatype span_processor =
    Batch_Otlp string     \<comment> \<open>exports batches to the endpoint\<close>
  | Simple_In_Memory

record tracer_provider =
  tp_service :: string
  tp_processors :: "span_processor list"

record telemetry =
  tm_provider :: "tracer_provider option"   \<comment> \<open>\<open>_provider\<close>\<close>
  tm_global :: "tracer_provider option"     \<comment> \<open>the one registered with OpenTelemetry\<close>

definition build_provider :: "settings \<Rightarrow> tracer_provider" where
  "build_provider S = (let endpoint = py_strip (otel_exporter_otlp_endpoint S)
     in \<lparr>tp_service = otel_service_name S,
         tp_processors = [if endpoint \<noteq> [] then Batch_Otlp endpoint else Simple_In_Memory]\<rparr>)"

definition setup_telemetry :: "settings \<Rightarrow> telemetry \<Rightarrow> tracer_provider \<times> telemetry" where
  \<comment> \<open>OpenTelemetry keeps the provider that was registered first\<close>
  "setup_telemetry S t = (let p = build_provider S
     in (p, t\<lparr>tm_provider := Some p, tm_global := (case tm_global t of None \<Rightarrow> Some p | Some q \<Rightarrow> Some q)\<rparr>))"

definition get_tracer_provider :: "settings \<Rightarrow> telemetry \<Rightarrow> tracer_provider \<times> telemetry" where
  "get_tracer_provider S t = (case tm_provider t of None \<Rightarrow> setup_telemetry S t | Some p \<Rightarrow> (p, t))"

definition get_tracer :: "settings \<Rightarrow> string \<Rightarrow> telemetry \<Rightarrow> (tracer_provider \<times> string) \<times> telemetry" where
  \<comment> \<open>a tracer is its provider and its name\<close>
  "get_tracer S name t = (case get_tracer_provider S t of (p, t') \<Rightarrow> ((p, name), t'))"

text \<open>
  There is always a tracer, all modules share one provider, and without an endpoint no span leaves the
  process.
\<close>
theorem tracers_share_one_provider:
  "\<exists>p t'. get_tracer S n t = ((p, n), t') \<and> get_tracer S' m t' = ((p, m), t') \<and>
     (tm_provider t = None \<and> py_strip (otel_exporter_otlp_endpoint S) = [] \<longrightarrow> tp_processors p = [Simple_In_Memory])"
  by (cases "tm_provider t")
    (auto simp: get_tracer_def get_tracer_provider_def setup_telemetry_def build_provider_def Let_def)

section \<open>The application\<close>

datatype mount =
    Route string string         \<comment> \<open>method and path\<close>
  | Static_Files string

record application =
  ap_version :: string
  ap_mounts :: "mount list"     \<comment> \<open>in the order they are tried\<close>
  ap_problems :: "string list"  \<comment> \<open>exceptions answered with problem details\<close>

definition app_version :: string where "app_version = ''0.1.0''"

definition health_router :: "mount list" where
  "health_router = [Route ''GET'' ''/healthz'', Route ''GET'' ''/readyz'']"

definition metrics_router :: "mount list" where
  "metrics_router = [Route ''GET'' ''/metrics'']"

definition api_prefix :: string where "api_prefix = ''/v1''"

definition api_router :: "mount list" where
  \<comment> \<open>the decorators of \<open>app/api/routes.py\<close>\<close>
  "api_router = map (\<lambda>(m, p). Route m (api_prefix @ p))
     [(''POST'', ''/runs''), (''GET'', ''/runs/{run_id}''), (''GET'', ''/runs/{run_id}/stages''),
      (''GET'', ''/runs/{run_id}/conclusions''), (''GET'', ''/statements/{statement_id}/trace''),
      (''GET'', ''/runs/{run_id}/contradictions''), (''GET'', ''/runs/{run_id}/report''),
      (''POST'', ''/runs/{run_id}/resume''), (''GET'', ''/kb/search''), (''GET'', ''/runs/{run_id}/audit'')]"

definition create_app :: "bool \<Rightarrow> application" where
  \<comment> \<open>the argument says whether the directory \<open>static\<close> exists\<close>
  "create_app has_static = \<lparr>ap_version = app_version,
     ap_mounts = health_router @ metrics_router @ api_router @
       (if has_static then [Static_Files ''/static''] else []) @ [Route ''GET'' ''/'', Route ''GET'' ''/api/info''],
     ap_problems = [''HTTPException'', ''RequestValidationError'']\<rparr>"

definition healthz :: json where "healthz = JObj [(''status'', JStr ''ok'')]"
definition readyz :: json where "readyz = JObj [(''status'', JStr ''ready''), (''version'', JStr app_version)]"
definition api_info :: json where "api_info = JObj [(''service'', JStr ''ecrke''), (''version'', JStr app_version)]"

definition lifespan :: "settings \<Rightarrow> root_logger \<times> telemetry \<Rightarrow> root_logger \<times> telemetry" where
  "lifespan S s = (case s of (l, t) \<Rightarrow> (configure_logging S None l, snd (setup_telemetry S t)))"

text \<open>
  Starting the application twice leaves what starting it once leaves: one handler, so no record is
  written twice, at the configured level, and a tracer provider.
\<close>
theorem lifespan_is_idempotent:
  "lifespan S (lifespan S s) = lifespan S s \<and> length (lg_handlers (fst (lifespan S s))) = 1 \<and>
   tm_provider (snd (lifespan S s)) = Some (build_provider S)"
  by (cases s) (auto simp: lifespan_def configure_logging_def setup_telemetry_def Let_def split: option.split)

text \<open>No two endpoints share a method and a path, so the order of registration hides none.\<close>
theorem routes_are_distinct: "distinct (ap_mounts (create_app has_static))"
  by (cases has_static; simp add: create_app_def health_router_def metrics_router_def api_router_def api_prefix_def)

section \<open>Sessions\<close>

definition session_scope :: "(change list \<Rightarrow> 'a result \<times> change list) \<Rightarrow> 'a result \<times> change list" where
  \<comment> \<open>the body adds to what the session has collected; an exception rolls it back and goes on\<close>
  "session_scope body = (case body [] of (Inl e, _) \<Rightarrow> (Inl e, []) | (Inr x, cs) \<Rightarrow> (Inr x, cs))"

section \<open>Running the migrations\<close>

datatype migration_run =
    Offline string "ddl list"   \<comment> \<open>the script printed for a URL\<close>
  | Online engine_options "unit result"

definition run_migrations_offline :: "string \<Rightarrow> ddl list \<Rightarrow> catalog \<Rightarrow> migration_run \<times> catalog" where
  "run_migrations_offline url script c = (Offline url script, c)"

definition do_run_migrations :: "ddl list \<Rightarrow> catalog \<Rightarrow> unit result \<times> catalog" where
  \<comment> \<open>in one transaction\<close>
  "do_run_migrations script c = (case migrate script c of Inl e \<Rightarrow> (Inl e, c) | Inr c' \<Rightarrow> (Inr (), c'))"

definition run_migrations_online :: "engine_options \<Rightarrow> ddl list \<Rightarrow> catalog \<Rightarrow> migration_run \<times> catalog" where
  "run_migrations_online eng script c = (case do_run_migrations script c of (r, c') \<Rightarrow> (Online eng r, c'))"

definition alembic_env :: "(string \<Rightarrow> string option \<times> string) \<Rightarrow> string option \<Rightarrow> string option \<Rightarrow> bool \<Rightarrow>
    ddl list \<Rightarrow> catalog \<Rightarrow> migration_run \<times> catalog" where
  "alembic_env split_sslmode environ ini offline script c =
     (let eng = migration_engine split_sslmode environ ini
      in if offline then run_migrations_offline (eng_url eng) script c else run_migrations_online eng script c)"

text \<open>
  A migration run is all or nothing: it leaves the database as it was unless every statement of the
  script succeeded; offline it only prints the script; and online from an empty database the head
  revision builds the declared schema.
\<close>
theorem migrations_run_in_one_transaction:
  "(let (r, c') = alembic_env split_sslmode environ ini offline script c
    in c' = c \<or> (\<exists>eng. r = Online eng (Inr ()) \<and> migrate script c = Inr c')) \<and>
   (\<exists>eng c'. alembic_env split_sslmode environ ini False upgrade_head empty_catalog = (Online eng (Inr ()), c') \<and> declares orm_models c')"
proof -
  have "case alembic_env split_sslmode environ ini offline script c of
      (r, c') \<Rightarrow> c' = c \<or> (\<exists>eng. r = Online eng (Inr ()) \<and> migrate script c = Inr c')"
    by (cases "migrate script c")
      (simp_all add: alembic_env_def run_migrations_offline_def run_migrations_online_def do_run_migrations_def Let_def)
  moreover obtain c' where "migrate upgrade_head empty_catalog = Inr c'" "declares orm_models c'"
    using head_evaluates by (cases "migrate upgrade_head empty_catalog") auto
  ultimately show ?thesis
    by (simp add: alembic_env_def run_migrations_online_def do_run_migrations_def Let_def)
qed

text \<open>
  The stricter modes of \<open>sslmode\<close> are the ones that lose TLS: a URL that asks for verification of the
  server (\<open>verify-ca\<close>, \<open>verify-full\<close>) migrates over an unencrypted connection, while \<open>prefer\<close>
  gets an encrypted one.
\<close>
theorem verifying_modes_lose_tls:
  assumes "split_sslmode (normalize_db_url url) = (Some mode, rest)" and "\<not> py_in ''railway.internal'' rest"
  shows "eng_ssl (migration_engine split_sslmode (Some url) ini) =
    (if mode \<in> {''require'', ''prefer'', ''allow''} then Ssl_Unverified else Ssl_Off)"
  using assms by (simp add: migration_engine_def Let_def)

theorem verifying_modes_lose_tls_witness:
  "eng_ssl (migration_engine (\<lambda>u. (Some ''verify-full'', u)) (Some ''postgresql+asyncpg://h/d'') None) = Ssl_Off"
proof -
  have "normalize_db_url ''postgresql+asyncpg://h/d'' = ''postgresql+asyncpg://h/d''" "\<not> py_in ''railway.internal'' ''postgresql+asyncpg://h/d''"
    by code_simp+
  then show ?thesis
    using verifying_modes_lose_tls [of "\<lambda>u. (Some ''verify-full'', u)" "''postgresql+asyncpg://h/d''" "''verify-full''" "''postgresql+asyncpg://h/d''" None]
    by simp
qed

end
