(* ===== verification/Conformance.thy ===== *)
theory Conformance
  imports Schema
begin

text \<open>
  The database the programs work on against the schema the code declares. \<open>sql_image\<close> writes the
  lists of records of \<open>db\<close> as tables of SQL values under the column names of the mapped classes;
  \<open>satisfies\<close> says that every primary key, unique constraint, foreign key and check the classes of
  \<open>app/db/models.py\<close> declare holds of such tables. The constraint predicate \<open>db_ok\<close> that a
  transaction checks is shown to be that, so nothing the schema refuses is accepted and nothing it accepts
  refused. Columns the records leave out are null.
\<close>

section \<open>Tables of values\<close>

datatype sql_value =
    VUuid uuid | VText string | VInt nat | VNum rat | VBool bool | VTime time | VJson json | VNull

type_synonym sql_row = "string \<Rightarrow> sql_value"

definition row_of :: "(string \<times> sql_value) list \<Rightarrow> sql_row" where
  "row_of kvs col = (case map_of kvs col of Some v \<Rightarrow> v | None \<Rightarrow> VNull)"

definition opt_value :: "('a \<Rightarrow> sql_value) \<Rightarrow> 'a option \<Rightarrow> sql_value" where
  "opt_value V x = (case x of None \<Rightarrow> VNull | Some y \<Rightarrow> V y)"

definition row_of_Tenant :: "tenant \<Rightarrow> sql_row" where
  "row_of_Tenant x = row_of [(''id'', VUuid (t_id x)), (''name'', VText (t_name x)), (''namespace'', VText (t_namespace x))]"

definition row_of_Run :: "run \<Rightarrow> sql_row" where
  "row_of_Run x = row_of [(''id'', VUuid (r_id x)), (''tenant_id'', VUuid (r_tenant x)), (''question'', VText (r_question x)),
     (''status'', VText (r_status x)), (''stage'', opt_value VText (r_stage x)),
     (''progress'', VNum (r_progress x)), (''cost_budget_usd'', VNum (r_budget x)),
     (''cost_spent_usd'', VNum (r_spent x)), (''checkpoint'', opt_value VJson (r_checkpoint x)),
     (''created_at'', VTime (r_created x)), (''completed_at'', opt_value VTime (r_completed x))]"

definition row_of_Source :: "source \<Rightarrow> sql_row" where
  "row_of_Source x = row_of [(''id'', VUuid (src_id x)), (''run_id'', VUuid (src_run x)), (''uri'', VText (src_uri x)),
     (''title'', opt_value VText (src_title x)), (''source_type'', VText (src_type x)),
     (''fetched_at'', opt_value VTime (src_fetched_at x)), (''content_hash'', VText (src_hash x)),
     (''raw_ref'', opt_value VText (src_raw_ref x)), (''allowlisted_uri'', VBool (src_allowlisted x)),
     (''status'', VText (source_status_value (src_status x)))]"

definition row_of_Passage :: "passage \<Rightarrow> sql_row" where
  "row_of_Passage x = row_of [(''id'', VUuid (p_id x)), (''source_id'', VUuid (p_source x)), (''seq'', VInt (p_seq x)),
     (''text'', VText (p_text x)), (''start_char'', opt_value VInt (p_start x)),
     (''end_char'', opt_value VInt (p_end x)), (''hash'', VText (p_hash x))]"

definition row_of_Statement :: "statement \<Rightarrow> sql_row" where
  "row_of_Statement x = row_of [(''id'', VUuid (s_id x)), (''passage_id'', VUuid (s_passage x)), (''run_id'', VUuid (s_run x)),
     (''text'', VText (s_text x)), (''status'', VText (statement_status_value (s_status x))),
     (''confidence'', opt_value VNum (s_confidence x))]"

definition row_of_EvidenceLink :: "evidence_link \<Rightarrow> sql_row" where
  "row_of_EvidenceLink x = row_of [(''id'', VUuid (l_id x)), (''statement_id'', VUuid (l_statement x)), (''passage_id'', VUuid (l_passage x)),
     (''run_id'', VUuid (l_run x)), (''score'', VText (score_value (l_score x))),
     (''method'', VText (l_method x)), (''created_at'', VTime (l_created x))]"

definition row_of_Finding :: "finding \<Rightarrow> sql_row" where
  "row_of_Finding x = row_of [(''id'', VUuid (f_id x)), (''run_id'', VUuid (f_run x)), (''title'', VText (f_title x)),
     (''evidence_tier'', VText (f_tier x)), (''domain_tags'', VJson (JList (map JStr (f_tags x)))),
     (''summary'', opt_value VText (f_summary x)), (''confidence'', opt_value VNum (f_confidence x))]"

definition row_of_FindingStatement :: "uuid \<times> uuid \<Rightarrow> sql_row" where
  "row_of_FindingStatement x = row_of [(''finding_id'', VUuid (fst x)), (''statement_id'', VUuid (snd x))]"

definition row_of_Contradiction :: "contradiction \<Rightarrow> sql_row" where
  "row_of_Contradiction x = row_of [(''id'', VUuid (c_id x)), (''run_id'', VUuid (c_run x)), (''statement_a_id'', VUuid (c_a x)),
     (''statement_b_id'', VUuid (c_b x)), (''status'', VText (contradiction_status_value (c_status x))),
     (''evidence'', opt_value VJson (c_evidence x)), (''confirmed_at'', opt_value VTime (c_confirmed_at x)),
     (''created_at'', VTime (c_created x))]"

definition row_of_Conclusion :: "conclusion \<Rightarrow> sql_row" where
  "row_of_Conclusion x = row_of [(''id'', VUuid (k_id x)), (''run_id'', VUuid (k_run x)), (''text'', VText (k_text x)),
     (''confidence'', opt_value VNum (k_confidence x)), (''human_review_required'', VBool (k_review x)),
     (''created_at'', VTime (k_created x))]"

definition row_of_ConclusionEvidence :: "uuid \<times> uuid \<Rightarrow> sql_row" where
  "row_of_ConclusionEvidence x = row_of [(''conclusion_id'', VUuid (fst x)), (''statement_id'', VUuid (snd x))]"

definition row_of_AuditTrace :: "audit_row \<Rightarrow> sql_row" where
  "row_of_AuditTrace x = row_of [(''id'', VUuid (a_id x)), (''run_id'', VUuid (a_run x)), (''entity_type'', VText (a_entity_type x)),
     (''entity_id'', opt_value VText (a_entity_id x)), (''action'', VText (a_action x)),
     (''actor'', opt_value VText (a_actor x)), (''decision'', opt_value VText (a_decision x)),
     (''reason'', opt_value VText (a_reason x)), (''evidence'', opt_value VJson (a_evidence x)),
     (''ts'', VTime (a_ts x))]"

definition row_of_Checkpoint :: "checkpoint \<Rightarrow> sql_row" where
  "row_of_Checkpoint x = row_of [(''id'', VUuid (cp_id x)), (''run_id'', VUuid (cp_run x)), (''stage'', VText (cp_stage x)),
     (''state'', opt_value VJson (cp_state x)), (''ts'', VTime (cp_ts x))]"

definition row_of_KVEntry :: "kv_entry \<Rightarrow> sql_row" where
  "row_of_KVEntry x = row_of [(''key'', VText (kv_key x)), (''model'', VText (kv_model x)), (''prompt_hash'', VText (kv_prompt_hash x)),
     (''payload'', VJson (kv_payload x)), (''expires_at'', opt_value VTime (kv_expires x))]"

definition sql_image :: "db \<Rightarrow> string \<Rightarrow> sql_row list" where
  "sql_image d t = (case map_of [
     (''tenants'', map row_of_Tenant (tenants d)),
     (''runs'', map row_of_Run (runs d)),
     (''sources'', map row_of_Source (sources d)),
     (''passages'', map row_of_Passage (passages d)),
     (''statements'', map row_of_Statement (statements d)),
     (''evidence_links'', map row_of_EvidenceLink (links d)),
     (''findings'', map row_of_Finding (findings d)),
     (''finding_statements'', map row_of_FindingStatement (finding_statements d)),
     (''contradictions'', map row_of_Contradiction (contradictions d)),
     (''conclusions'', map row_of_Conclusion (conclusions d)),
     (''conclusion_evidence'', map row_of_ConclusionEvidence (conclusion_evidence d)),
     (''audit_trace'', map row_of_AuditTrace (audit d)),
     (''checkpoints'', map row_of_Checkpoint (checkpoints d)),
     (''kv_cache'', map row_of_KVEntry (kv d))] t
   of Some rows \<Rightarrow> rows | None \<Rightarrow> [])"

section \<open>Constraints\<close>

fun check_passes :: "sql_check \<Rightarrow> sql_row \<Rightarrow> bool" where
  \<comment> \<open>a check refuses a row only when it is false; a comparison with null is not\<close>
  "check_passes (Among col vs) r = (case r col of VText t \<Rightarrow> t \<in> set vs | VNull \<Rightarrow> True | _ \<Rightarrow> False)"
| "check_passes (Unit_Range col) r = (case r col of VNum x \<Rightarrow> 0 \<le> x \<and> x \<le> 1 | VNull \<Rightarrow> True | _ \<Rightarrow> False)"
| "check_passes (Unit_Or_Null col) r = (case r col of VNum x \<Rightarrow> 0 \<le> x \<and> x \<le> 1 | VNull \<Rightarrow> True | _ \<Rightarrow> False)"
| "check_passes (Non_Negative col) r = (case r col of VNum x \<Rightarrow> 0 \<le> x | VNull \<Rightarrow> True | _ \<Rightarrow> False)"

fun constraint_holds :: "(string \<Rightarrow> sql_row list) \<Rightarrow> string \<Rightarrow> table_constraint \<Rightarrow> bool" where
  "constraint_holds img t (Primary_Key n cols) =
     (distinct (map (\<lambda>r. map r cols) (img t)) \<and> list_all (\<lambda>r. VNull \<notin> set (map r cols)) (img t))"
| "constraint_holds img t (Unique_Key n cols) =
     distinct (filter (\<lambda>vs. VNull \<notin> set vs) (map (\<lambda>r. map r cols) (img t)))"
| "constraint_holds img t (Foreign_Key n col u ref a) =
     list_all (\<lambda>r. r col = VNull \<or> r col \<in> (\<lambda>x. x ref) ` set (img u)) (img t)"
| "constraint_holds img t (Check_Rule n c) = list_all (check_passes c) (img t)"

definition conforms :: "(string \<Rightarrow> sql_row list) \<Rightarrow> orm_model \<Rightarrow> bool" where
  "conforms img m \<longleftrightarrow> list_all (constraint_holds img (om_table m)) (model_constraints m)"

definition satisfies :: "orm_model list \<Rightarrow> (string \<Rightarrow> sql_row list) \<Rightarrow> bool" where
  "satisfies ms img \<longleftrightarrow> list_all (conforms img) ms"

section \<open>Values\<close>

lemma distinct_keys [simp]:
  "distinct (map (\<lambda>x. [VUuid (f x)]) xs) = distinct (map f xs)"
  "distinct (map (\<lambda>x. [VText (g x)]) xs) = distinct (map g xs)"
  "distinct (map (\<lambda>x. [VUuid (f x), VText (g x)]) xs) = distinct (map (\<lambda>x. (f x, g x)) xs)"
  "distinct (map (\<lambda>x. [VUuid (f x), VInt (h x)]) xs) = distinct (map (\<lambda>x. (f x, h x)) xs)"
  "distinct (map (\<lambda>x. [VUuid (fst x), VUuid (snd x)]) ps) = distinct ps"
  by (auto simp: distinct_map inj_on_def prod_eq_iff)

lemma refers_uuid [simp]: "VUuid a \<in> (\<lambda>x. VUuid (f x)) ` S \<longleftrightarrow> a \<in> f ` S"
  by auto

lemma unit_value [simp]:
  "(case opt_value VNum c of VNum x \<Rightarrow> 0 \<le> x \<and> x \<le> 1 | VNull \<Rightarrow> True | _ \<Rightarrow> False) = unit_interval c"
  by (simp add: opt_value_def unit_interval_def split: option.split)

lemma source_status_values [simp]:
  "source_status_value s = ''pending'' \<or> source_status_value s = ''fetched'' \<or> source_status_value s = ''failed'' \<or>
     source_status_value s = ''normalized'' \<or> source_status_value s = ''quarantined''"
  by (cases s) (simp_all add: source_status_value_def)

lemma contradiction_status_values [simp]:
  "contradiction_status_value c = ''flagged'' \<or> contradiction_status_value c = ''confirmed'' \<or> contradiction_status_value c = ''rejected''"
  by (cases c) (simp_all add: contradiction_status_value_def)

lemma statement_status_values [simp]:
  "statement_status_value t = ''draft'' \<or> statement_status_value t = ''verified'' \<or> statement_status_value t = ''quarantined''"
  by (cases t) simp_all

lemma score_values [simp]: "score_value e = ''full'' \<or> score_value e = ''partial'' \<or> score_value e = ''none''"
  by (cases e) simp_all

section \<open>One table at a time\<close>

lemmas image_defs = sql_image_def row_of_def row_of_Tenant_def row_of_Run_def row_of_Source_def row_of_Passage_def row_of_Statement_def row_of_EvidenceLink_def row_of_Finding_def row_of_FindingStatement_def row_of_Contradiction_def row_of_Conclusion_def row_of_ConclusionEvidence_def row_of_AuditTrace_def row_of_Checkpoint_def row_of_KVEntry_def

lemmas conformance_simps = image_defs attr_def nullable_def server_now_def primary_def unique_attr_def
  references_def uuid_mixin_def timestamp_mixin_def List.map_filter_def comp_def list_all_iff filter_map image_image Let_def ball_conj_distrib

lemma conforms_Tenant:
  "conforms (sql_image d) model_Tenant \<longleftrightarrow> distinct (map t_id (tenants d)) \<and>
     distinct (map t_namespace (tenants d))"
  by (simp add: conforms_def model_constraints_def model_Tenant_def conformance_simps conj_ac)

lemma conforms_Run:
  "conforms (sql_image d) model_Run \<longleftrightarrow> distinct (map r_id (runs d)) \<and>
     (\<forall>r \<in> set (runs d). run_ok r) \<and>
     (\<forall>r \<in> set (runs d). r_tenant r \<in> t_id ` set (tenants d))"
  by (simp add: conforms_def model_constraints_def model_Run_def conformance_simps conj_ac run_ok_def run_statuses_def)

lemma conforms_Source:
  "conforms (sql_image d) model_Source \<longleftrightarrow> distinct (map src_id (sources d)) \<and>
     distinct (map (\<lambda>s. (src_run s, src_hash s)) (sources d)) \<and>
     (\<forall>s \<in> set (sources d). src_type s \<in> set (map source_type_value [WEB, PDF, RSS, DOCX, RTF, UPLOAD, OTHER])) \<and>
     (\<forall>s \<in> set (sources d). src_run s \<in> r_id ` set (runs d))"
  by (simp add: conforms_def model_constraints_def model_Source_def conformance_simps conj_ac)

lemma conforms_Passage:
  "conforms (sql_image d) model_Passage \<longleftrightarrow> distinct (map p_id (passages d)) \<and>
     distinct (map (\<lambda>p. (p_source p, p_seq p)) (passages d)) \<and>
     (\<forall>p \<in> set (passages d). p_source p \<in> src_id ` set (sources d))"
  by (simp add: conforms_def model_constraints_def model_Passage_def conformance_simps conj_ac)

lemma conforms_Statement:
  "conforms (sql_image d) model_Statement \<longleftrightarrow> distinct (map s_id (statements d)) \<and>
     (\<forall>s \<in> set (statements d). unit_interval (s_confidence s)) \<and>
     (\<forall>s \<in> set (statements d). s_passage s \<in> p_id ` set (passages d)) \<and>
     (\<forall>s \<in> set (statements d). s_run s \<in> r_id ` set (runs d))"
  by (simp add: conforms_def model_constraints_def model_Statement_def conformance_simps conj_ac)

lemma conforms_EvidenceLink:
  "conforms (sql_image d) model_EvidenceLink \<longleftrightarrow> distinct (map l_id (links d)) \<and>
     (\<forall>l \<in> set (links d). l_statement l \<in> s_id ` set (statements d)) \<and>
     (\<forall>l \<in> set (links d). l_passage l \<in> p_id ` set (passages d)) \<and>
     (\<forall>l \<in> set (links d). l_run l \<in> r_id ` set (runs d))"
  by (simp add: conforms_def model_constraints_def model_EvidenceLink_def conformance_simps conj_ac)

lemma conforms_Finding:
  "conforms (sql_image d) model_Finding \<longleftrightarrow> distinct (map f_id (findings d)) \<and>
     (\<forall>f \<in> set (findings d). unit_interval (f_confidence f)) \<and>
     (\<forall>f \<in> set (findings d). f_tier f \<in> {''t1'', ''t2'', ''t3'', ''t4''}) \<and>
     (\<forall>f \<in> set (findings d). f_run f \<in> r_id ` set (runs d))"
  by (simp add: conforms_def model_constraints_def model_Finding_def conformance_simps conj_ac)

lemma conforms_FindingStatement:
  "conforms (sql_image d) model_FindingStatement \<longleftrightarrow> distinct (finding_statements d) \<and>
     (\<forall>x \<in> set (finding_statements d). fst x \<in> f_id ` set (findings d)) \<and>
     (\<forall>x \<in> set (finding_statements d). snd x \<in> s_id ` set (statements d))"
  by (simp add: conforms_def model_constraints_def model_FindingStatement_def conformance_simps conj_ac)

lemma conforms_Contradiction:
  "conforms (sql_image d) model_Contradiction \<longleftrightarrow> distinct (map c_id (contradictions d)) \<and>
     (\<forall>c \<in> set (contradictions d). c_a c \<in> s_id ` set (statements d)) \<and>
     (\<forall>c \<in> set (contradictions d). c_b c \<in> s_id ` set (statements d)) \<and>
     (\<forall>c \<in> set (contradictions d). c_run c \<in> r_id ` set (runs d))"
  by (simp add: conforms_def model_constraints_def model_Contradiction_def conformance_simps conj_ac)

lemma conforms_Conclusion:
  "conforms (sql_image d) model_Conclusion \<longleftrightarrow> distinct (map k_id (conclusions d)) \<and>
     (\<forall>k \<in> set (conclusions d). unit_interval (k_confidence k)) \<and>
     (\<forall>k \<in> set (conclusions d). k_run k \<in> r_id ` set (runs d))"
  by (simp add: conforms_def model_constraints_def model_Conclusion_def conformance_simps conj_ac)

lemma conforms_ConclusionEvidence:
  "conforms (sql_image d) model_ConclusionEvidence \<longleftrightarrow> distinct (conclusion_evidence d) \<and>
     (\<forall>x \<in> set (conclusion_evidence d). fst x \<in> k_id ` set (conclusions d)) \<and>
     (\<forall>x \<in> set (conclusion_evidence d). snd x \<in> s_id ` set (statements d))"
  by (simp add: conforms_def model_constraints_def model_ConclusionEvidence_def conformance_simps conj_ac)

lemma conforms_AuditTrace:
  "conforms (sql_image d) model_AuditTrace \<longleftrightarrow> distinct (map a_id (audit d)) \<and>
     (\<forall>a \<in> set (audit d). a_run a \<in> r_id ` set (runs d))"
  by (simp add: conforms_def model_constraints_def model_AuditTrace_def conformance_simps conj_ac)

lemma conforms_Checkpoint:
  "conforms (sql_image d) model_Checkpoint \<longleftrightarrow> distinct (map cp_id (checkpoints d)) \<and>
     distinct (map (\<lambda>c. (cp_run c, cp_stage c)) (checkpoints d)) \<and>
     (\<forall>c \<in> set (checkpoints d). cp_run c \<in> r_id ` set (runs d))"
  by (simp add: conforms_def model_constraints_def model_Checkpoint_def conformance_simps conj_ac)

lemma conforms_KVEntry:
  "conforms (sql_image d) model_KVEntry \<longleftrightarrow> distinct (map kv_key (kv d))"
  by (simp add: conforms_def model_constraints_def model_KVEntry_def conformance_simps conj_ac)

lemmas conforms_tables = conforms_Tenant conforms_Run conforms_Source conforms_Passage conforms_Statement conforms_EvidenceLink conforms_Finding conforms_FindingStatement conforms_Contradiction conforms_Conclusion conforms_ConclusionEvidence conforms_AuditTrace conforms_Checkpoint conforms_KVEntry

section \<open>Properties\<close>

text \<open>
  C9. The transactions of the model check what the schema declares: a database passes their
  constraint check exactly when its tables satisfy every primary key, unique constraint, foreign key and
  check of the fourteen mapped classes; the values a column of an enumerated type can hold always pass.
\<close>
theorem constraints_are_the_declared_ones:
  "db_ok d \<longleftrightarrow> satisfies orm_models (sql_image d)"
  unfolding satisfies_def orm_models_def list.pred_inject conforms_tables
  unfolding db_ok_def keys_ok_def checks_ok_def refs_ok_def
    list_all_iff set_map ball_conj_distrib split_def
  by (simp only: conj_ac simp_thms list.set ball_empty)

end
