(* ===== verification/Wording.thy ===== *)
theory Wording
  imports Errors
begin

text \<open>
  Splitting a text into its words and joining them again, as the scripts use it:
  \<open>str.split()\<close>, \<open>str.replace\<close> of a character, \<open>str.rstrip\<close> and \<open>range\<close>.
\<close>

section \<open>Words\<close>

fun words_onto :: "string \<Rightarrow> string \<Rightarrow> string list" where
  \<comment> \<open>\<open>s.split()\<close>, with the word read so far in front\<close>
  "words_onto cur [] = (if cur = [] then [] else [cur])"
| "words_onto cur (c # cs) =
     (if is_space c then (if cur = [] then words_onto [] cs else cur # words_onto [] cs)
      else words_onto (cur @ [c]) cs)"

definition py_split :: "string \<Rightarrow> string list" where
  "py_split s = words_onto [] s"

definition is_one_word :: "string \<Rightarrow> bool" where
  "is_one_word w \<longleftrightarrow> w \<noteq> [] \<and> list_all (\<lambda>c. \<not> is_space c) w"

definition replace_char :: "char \<Rightarrow> string \<Rightarrow> string \<Rightarrow> string" where
  \<comment> \<open>\<open>s.replace(c, r)\<close>\<close>
  "replace_char c r s = concat (map (\<lambda>x. if x = c then r else [x]) s)"

definition py_rstrip :: "string \<Rightarrow> string" where
  "py_rstrip s = rev (dropWhile is_space (rev s))"

definition int_range :: "int \<Rightarrow> int \<Rightarrow> int \<Rightarrow> int list" where
  \<comment> \<open>\<open>range(lo, hi, step)\<close> for a positive step\<close>
  "int_range lo hi step = map (\<lambda>k. lo + int k * step) [0..<nat ((hi - lo + step - 1) div step)]"

lemma words_are_words:
  "list_all (\<lambda>c. \<not> is_space c) cur \<Longrightarrow> w \<in> set (words_onto cur s) \<Longrightarrow> is_one_word w"
proof (induction cur s rule: words_onto.induct)
  case (1 cur)
  then show ?case by (auto simp: is_one_word_def split: if_splits)
next
  case (2 cur c cs)
  then show ?case by (auto simp: is_one_word_def split: if_splits)
qed

lemma split_words: "w \<in> set (py_split s) \<Longrightarrow> is_one_word w"
  unfolding py_split_def by (rule words_are_words [of "[]"]) simp_all

lemma words_onto_word: "list_all (\<lambda>c. \<not> is_space c) w \<Longrightarrow> words_onto cur (w @ s) = words_onto (cur @ w) s"
  by (induction w arbitrary: cur) auto

lemma words_onto_space: "is_space c \<Longrightarrow> words_onto cur (s @ c # t) = words_onto cur s @ words_onto [] t"
  by (induction cur s rule: words_onto.induct) auto

lemma split_space: "is_space c \<Longrightarrow> py_split (s @ c # t) = py_split s @ py_split t"
  by (simp add: py_split_def words_onto_space)

lemma split_one: "is_one_word w \<Longrightarrow> py_split w = [w]"
  using words_onto_word [of w "[]" "[]"] by (auto simp: is_one_word_def py_split_def)

lemma split_nil [simp]: "py_split [] = []"
  by (simp add: py_split_def)

lemma is_space_blank: "is_space CHR '' ''"
  by (simp add: is_space_def cp_def)

lemma split_join: "list_all is_one_word ws \<Longrightarrow> py_split (join '' '' ws) = ws"
proof (induction ws)
  case (Cons w ws)
  then show ?case by (cases ws) (auto simp: split_one split_space is_space_blank)
qed simp

lemma join_snoc: "ws \<noteq> [] \<Longrightarrow> join sep (ws @ [w]) = join sep ws @ sep @ w"
proof (induction ws)
  case (Cons a ws)
  then show ?case by (cases ws) auto
qed simp

lemma strip_word_ends:
  assumes "is_one_word a" and "is_one_word b"
  shows "py_strip (a @ s @ b) = a @ s @ b" "py_strip a = a"
proof -
  obtain c as where a: "a = c # as" "\<not> is_space c" using assms(1) by (cases a) (auto simp: is_one_word_def)
  obtain d bs where b: "rev b = d # bs" "\<not> is_space d" using assms(2) by (cases "rev b") (auto simp: is_one_word_def list_all_iff)
  obtain e cs where ra: "rev a = e # cs" "\<not> is_space e" using assms(1) by (cases "rev a") (auto simp: is_one_word_def list_all_iff)
  have r: "rev (a @ s @ b) = d # bs @ rev s @ rev a" using b(1) by simp
  have "dropWhile is_space (a @ s @ b) = a @ s @ b" using a by simp
  moreover have "dropWhile is_space (rev (a @ s @ b)) = rev (a @ s @ b)" unfolding r using b(2) by simp
  ultimately show "py_strip (a @ s @ b) = a @ s @ b" unfolding py_strip_def by simp
  have "dropWhile is_space a = a" using a by simp
  moreover have "dropWhile is_space (rev a) = rev a" unfolding ra(1) using ra(2) by simp
  ultimately show "py_strip a = a" unfolding py_strip_def by simp
qed

end
