(* ===== verification/SamplePdf.thy ===== *)
theory SamplePdf
  imports Wording
begin

text \<open>
  \<open>scripts/generate_sample_data.py\<close>: the sample PDF, built object by object. Every text the
  script encodes is ASCII, so a text is its bytes. An object is the list of its lines.
\<close>

section \<open>Constants\<close>

definition PAGE_WIDTH :: int where "PAGE_WIDTH = 612"
definition PAGE_HEIGHT :: int where "PAGE_HEIGHT = 792"
definition MARGIN :: int where "MARGIN = 72"

definition TITLE :: string where "TITLE = ''ECRKE Seed Research Report''"
definition SUBTITLE :: string where "SUBTITLE = ''Hermetic seed run - all content is fictional research material.''"

definition BODY :: string where
  "BODY = ''Retailers report stronger same-store sales growth as e-commerce expands '' @
     ''its share of total retail spending. AI demand forecasting lowers retail '' @
     ''inventory carrying costs by improving demand prediction accuracy. '' @
     ''Personalized product recommendations boost retail conversion rates '' @
     ''without degrading customer trust. The seed run generates this report '' @
     ''from two allowlisted sources with a deterministic pipeline.''"

definition TABLE_HEADER :: "string list" where
  "TABLE_HEADER = [''Metric'', ''Value'', ''Source domain'']"

definition TABLE_ROWS :: "string list list" where
  "TABLE_ROWS = [[''Decomposition coverage'', ''1.0'', ''retail.example.com''], [''Support ratio'', ''1.0'', ''retail.example.com''],
     [''Traceability'', ''1.0'', ''retail.example.com''], [''Contradiction recall'', ''1.0'', ''gold set'']]"

section \<open>Numbers\<close>

definition str_nat :: "nat \<Rightarrow> string" where
  "str_nat n = str_int (int n)"

fun hex_upper_of :: "nat \<Rightarrow> nat \<Rightarrow> string" where
  \<comment> \<open>\<open>{n:0kX}\<close> for numbers of at most \<open>k\<close> digits\<close>
  "hex_upper_of 0 n = []"
| "hex_upper_of (Suc k) n = hex_upper_of k (n div 16) @ [''0123456789ABCDEF'' ! (n mod 16)]"

definition padded10 :: "nat \<Rightarrow> string" where
  \<comment> \<open>\<open>{n:010d}\<close>\<close>
  "padded10 n = replicate (10 - length (dec_digits n)) CHR ''0'' @ dec_digits n"

section \<open>Objects\<close>

definition obj_head :: "nat \<Rightarrow> string" where
  "obj_head n = str_nat n @ '' 0 obj''"

definition cmap_lines :: "nat \<Rightarrow> nat \<Rightarrow> string list" where
  "cmap_lines first_code last_code =
     (let entries = map (\<lambda>code. CHR ''<'' # hex_upper_of 2 code @ ''> <'' @ hex_upper_of 4 code @ ''>'') [first_code..<Suc last_code]
      in [''/CIDInit /ProcSet findresource begin'', ''12 dict begin'', ''begincmap'',
          ''/CIDSystemInfo << /Registry (Adobe) /Ordering (UCS) /Supplement 0 >> def'',
          ''/CMapName /Adobe-Identity-UCS def'', ''/CMapType 2 def'', ''1 begincodespacerange'', ''<00> <FF>'',
          ''endcodespacerange'', str_nat (length entries) @ '' beginbfchar''] @ entries @
         [''endbfchar'', ''endcmap'', ''CMapName currentdict /CMap defineresource pop'', ''end'', ''end''])"

definition stream_object :: "nat \<Rightarrow> string \<Rightarrow> string list" where
  \<comment> \<open>the lines both stream objects end in\<close>
  "stream_object n data = [obj_head n, ''<< /Length '' @ str_nat (length data) @ '' >>'', ''stream'', data, ''endstream'', ''endobj'']"

definition cmap_object :: "nat \<Rightarrow> nat \<Rightarrow> nat \<Rightarrow> string list" where
  "cmap_object font_num first_code last_code = stream_object font_num (join [nl] (cmap_lines first_code last_code) @ [nl])"

definition font_object :: "nat \<Rightarrow> nat \<Rightarrow> bool \<Rightarrow> string list" where
  "font_object font_num cmap_num bold =
     [obj_head font_num,
      ''<< /Type /Font /Subtype /Type1 /BaseFont /'' @ (if bold then ''Helvetica-Bold'' else ''Helvetica'') @ '' '' @
      ''/Encoding /WinAnsiEncoding /ToUnicode '' @ str_nat cmap_num @ '' 0 R >>'',
      ''endobj'']"

definition text_line :: "string \<Rightarrow> int \<Rightarrow> int \<Rightarrow> int \<Rightarrow> string \<Rightarrow> string" where
  "text_line t points x y font = ''BT /'' @ font @ '' '' @ str_int points @ '' Tf '' @ str_int x @ '' '' @ str_int y @ '' Td ('' @ t @ '') Tj ET''"

definition escape_pdf_text :: "string \<Rightarrow> string" where
  "escape_pdf_text t = replace_char CHR '')'' (CHR 0x5C # '')'') (replace_char CHR ''('' (CHR 0x5C # ''('') (replace_char CHR 0x5C [CHR 0x5C, CHR 0x5C] t))"

fun wrap_loop :: "nat \<Rightarrow> string \<Rightarrow> string list \<Rightarrow> string list" where
  "wrap_loop width_chars current [] = (if current \<noteq> [] then [current] else [])"
| "wrap_loop width_chars current (word # words) =
     (let candidate = py_strip (current @ '' '' @ word)
      in if length candidate \<le> width_chars then wrap_loop width_chars candidate words
         else current # wrap_loop width_chars word words)"

definition wrap :: "string \<Rightarrow> nat \<Rightarrow> string list" where
  "wrap t width_chars = wrap_loop width_chars [] (py_split t)"

definition page_object :: "nat \<Rightarrow> nat \<Rightarrow> nat \<Rightarrow> (string \<times> nat) list \<Rightarrow> string list" where
  \<comment> \<open>the fonts sorted by name\<close>
  "page_object page_num pages_num content_num fonts =
     [obj_head page_num,
      ''<< /Type /Page /Parent '' @ str_nat pages_num @ '' 0 R '' @
      ''/MediaBox [0 0 '' @ str_int PAGE_WIDTH @ '' '' @ str_int PAGE_HEIGHT @ ''] '' @
      ''/Resources << /Font << '' @ join '' '' (map (\<lambda>(name, num). CHR ''/'' # name @ '' '' @ str_nat num @ '' 0 R'') fonts) @ '' >> >> '' @
      ''/Contents '' @ str_nat content_num @ '' 0 R >>'',
      ''endobj'']"

definition content_stream_object :: "nat \<Rightarrow> string list \<Rightarrow> string list" where
  "content_stream_object content_num operators = stream_object content_num (join [nl] operators)"

section \<open>Pages\<close>

definition page1 :: "string list" where
  "page1 = [text_line (escape_pdf_text TITLE) 24 MARGIN 700 ''F2'', text_line (escape_pdf_text SUBTITLE) 11 MARGIN 676 ''F1'',
     text_line ''Contents'' 14 MARGIN 620 ''F2'', text_line ''1. Summary findings'' 12 (MARGIN + 20) 596 ''F1'',
     text_line ''2. Evidence table'' 12 (MARGIN + 20) 578 ''F1'']"

fun body_page :: "int \<Rightarrow> string list \<Rightarrow> string list" where
  "body_page y [] = []"
| "body_page y (line # lines) = text_line (escape_pdf_text line) 12 MARGIN y ''F1'' # body_page (y - 18) lines"

definition page2 :: "string list" where
  "page2 = text_line ''1. Summary findings'' 16 MARGIN 700 ''F2'' # body_page 668 (wrap BODY 86)"

definition col_widths :: "int list" where "col_widths = [220, 90, 158]"
definition row_height :: int where "row_height = 22"
definition x_offsets :: "int list" where "x_offsets = [0, col_widths ! 0, col_widths ! 0 + col_widths ! 1]"

definition header_cell :: "int \<Rightarrow> int \<times> int \<times> string \<Rightarrow> string list" where
  "header_cell table_y = (\<lambda>(x, width, header).
     [''0.90 0.92 0.95 rg '' @ str_int x @ '' '' @ str_int table_y @ '' '' @ str_int width @ '' '' @ str_int row_height @ '' re f'',
      text_line (escape_pdf_text header) 11 (x + 6) (table_y + 7) ''F2''])"

fun table_rows :: "int \<Rightarrow> string list list \<Rightarrow> string list" where
  "table_rows table_y [] = []"
| "table_rows table_y (row # rows) =
     map (\<lambda>(x, t). text_line (escape_pdf_text t) 11 (x + 6) (table_y + 7) ''F1'') (zip x_offsets row) @
     table_rows (table_y - row_height) rows"

definition grid_bottom :: int where
  "grid_bottom = - row_height - row_height * int (length TABLE_ROWS) + row_height"

definition page3 :: "string list" where
  "page3 = [text_line ''2. Evidence table'' 16 MARGIN 700 ''F2'', ''1 0 0 1 '' @ str_int MARGIN @ '' 640 cm''] @
     concat (map (header_cell 0) (zip x_offsets (zip col_widths TABLE_HEADER))) @
     table_rows (- row_height) TABLE_ROWS @
     map (\<lambda>x. ''0.6 0.6 0.6 RG '' @ str_int x @ '' '' @ str_int grid_bottom @ '' m '' @ str_int x @ '' 0 l S'')
       (x_offsets @ [sum_list col_widths]) @
     map (\<lambda>yy. ''0.6 0.6 0.6 RG 0 '' @ str_int yy @ '' m '' @ str_int (sum_list col_widths) @ '' '' @ str_int yy @ '' l S'')
       (int_range grid_bottom 1 row_height)"

section \<open>The file\<close>

definition pdf_objects :: "string list list" where
  "pdf_objects =
     [[obj_head 1, ''<< /Type /Catalog /Pages 2 0 R >>'', ''endobj''],
      [obj_head 2, ''<< /Type /Pages /Kids ['' @ join '' '' (map (\<lambda>n. str_nat n @ '' 0 R'') [3, 4, 5]) @ ''] /Count '' @ str_nat 3 @ '' >>'', ''endobj'']] @
     map (\<lambda>(page_num, content_num). page_object page_num 2 content_num [(''F1'', 6), (''F2'', 7)]) [(3, 10), (4, 11), (5, 12)] @
     [font_object 6 8 False, font_object 7 9 True, cmap_object 8 32 126, cmap_object 9 32 126,
      content_stream_object 10 page1, content_stream_object 11 page2, content_stream_object 12 page3]"

definition pdf_header :: string where
  "pdf_header = ''%PDF-1.4'' @ [nl, CHR ''%'', CHR 0xE2, CHR 0xE3, CHR 0xCF, CHR 0xD3, nl]"

definition object_bytes :: "string list \<Rightarrow> string" where
  "object_bytes obj = join [nl] obj @ [nl]"

fun pdf_body :: "string \<Rightarrow> string list list \<Rightarrow> nat list \<times> string" where
  \<comment> \<open>the offsets of the objects and the bytes, after those written so far\<close>
  "pdf_body body [] = ([], body)"
| "pdf_body body (obj # objs) = (case pdf_body (body @ object_bytes obj) objs of (offsets, b) \<Rightarrow> (length body # offsets, b))"

definition xref_entry :: "nat \<Rightarrow> string" where
  "xref_entry offset = padded10 offset @ '' 00000 n '' @ [nl]"

definition xref_table :: "nat list \<Rightarrow> string" where
  "xref_table offsets = ''xref'' @ nl # ''0 '' @ str_nat (Suc (length offsets)) @ nl # ''0000000000 65535 f '' @ nl # concat (map xref_entry offsets)"

definition pdf_trailer :: "nat \<Rightarrow> nat \<Rightarrow> string" where
  "pdf_trailer n xref_offset = join [nl] [''trailer'' @ nl # ''<< /Size '' @ str_nat (Suc n) @ '' /Root 1 0 R >>'', ''startxref'',
     str_nat xref_offset, ''%%EOF''] @ [nl]"

definition assemble :: "string list list \<Rightarrow> string" where
  "assemble objs = (case pdf_body pdf_header objs of (offsets, body) \<Rightarrow>
     body @ xref_table offsets @ pdf_trailer (length objs) (length body))"

definition build_pdf :: string where
  "build_pdf = assemble pdf_objects"

section \<open>Reading a literal string\<close>

fun read_literal :: "nat \<Rightarrow> string \<Rightarrow> (string \<times> string) option" where
  \<comment> \<open>a PDF literal string after its opening parenthesis: what it denotes and what follows it; the
     first argument counts the parentheses open inside\<close>
  "read_literal d [] = None"
| "read_literal d (c # cs) =
     (if c = CHR 0x5C then (case cs of [] \<Rightarrow> None | e # es \<Rightarrow> map_option (map_prod (Cons e) id) (read_literal d es))
      else if c = CHR ''('' then map_option (map_prod (Cons c) id) (read_literal (Suc d) cs)
      else if c = CHR '')'' then (if d = 0 then Some ([], cs) else map_option (map_prod (Cons c) id) (read_literal (d - 1) cs))
      else map_option (map_prod (Cons c) id) (read_literal d cs))"

lemma replace_char_append: "replace_char c r (s @ t) = replace_char c r s @ replace_char c r t"
  by (simp add: replace_char_def)

lemma escape_cons:
  "escape_pdf_text (c # cs) = (if c \<in> {CHR 0x5C, CHR ''('', CHR '')''} then [CHR 0x5C, c] else [c]) @ escape_pdf_text cs"
  by (auto simp: escape_pdf_text_def replace_char_def)

lemma read_escaped: "read_literal 0 (escape_pdf_text t @ CHR '')'' # rest) = Some (t, rest)"
proof (induction t)
  case Nil
  then show ?case by (simp add: escape_pdf_text_def replace_char_def)
next
  case (Cons c cs)
  then show ?case by (auto simp: escape_cons)
qed

section \<open>Wrapping\<close>

lemma wrap_loop_words:
  assumes "list_all is_one_word ws" and "list_all is_one_word ds" and "current = join '' '' ds"
  shows "concat (map py_split (wrap_loop n current ws)) = ds @ ws"
  using assms
proof (induction ws arbitrary: ds current)
  case Nil
  then show ?case using split_join [of "ds"] by (cases "join '' '' ds = []") auto
next
  case (Cons w ws)
  have cand: "py_strip (current @ '' '' @ w) = join '' '' (ds @ [w])"
  proof (cases "ds = []")
    case True
    then show ?thesis using Cons.prems strip_word_ends(2) [of w w]
      by (simp add: py_strip_def is_space_blank)
  next
    case False
    then obtain a rest where d: "ds = a # rest" by (cases "ds") auto
    obtain s where "join '' '' ds = a @ s" unfolding d by (cases rest) auto
    moreover have "join '' '' (ds @ [w]) = join '' '' ds @ '' '' @ w" using False by (rule join_snoc)
    ultimately show ?thesis
      using Cons.prems strip_word_ends(1) [of a w "s @ '' ''"] d by simp
  qed
  show ?case
  proof (cases "length (py_strip (current @ '' '' @ w)) \<le> n")
    case True
    then show ?thesis using Cons.IH [of "ds @ [w]", OF _ _ cand] Cons.prems by simp
  next
    case False
    moreover have "concat (map py_split (wrap_loop n w ws)) = w # ws"
      using Cons.IH [of "[w]" w] Cons.prems by simp
    ultimately show ?thesis using split_join [of "ds"] Cons.prems by (simp add: Let_def)
  qed
qed

lemma wrap_loop_fits:
  "length current \<le> n \<or> is_one_word current \<Longrightarrow> list_all is_one_word ws \<Longrightarrow>
   \<forall>line \<in> set (wrap_loop n current ws). length line \<le> n \<or> is_one_word line"
  by (induction n current ws rule: wrap_loop.induct) (auto simp: Let_def)

section \<open>Offsets\<close>

lemma pdf_body_spec:
  "pdf_body b objs = (map (\<lambda>i. length b + length (concat (map object_bytes (take i objs)))) [0..<length objs],
     b @ concat (map object_bytes objs))"
proof (induction objs arbitrary: b)
  case (Cons obj objs)
  have "[0..<length (obj # objs)] = 0 # map Suc [0..<length objs]" by (simp add: map_Suc_upt upt_conv_Cons del: upt_Suc)
  with Cons show ?case by (simp add: comp_def add.assoc)
qed simp

lemma concat_at: "i < length xs \<Longrightarrow> concat xs = concat (take i xs) @ xs ! i @ concat (drop (Suc i) xs)"
  by (metis append_take_drop_id concat.simps(2) concat_append Cons_nth_drop_Suc)

section \<open>Properties\<close>

text \<open>
  Text placed in a content stream cannot break out of its string: a reader of PDF literal
  strings that meets the escaped text followed by the closing parenthesis reads back exactly the
  text and continues right after that parenthesis.
\<close>
theorem escaped_text_reads_back:
  "read_literal 0 (escape_pdf_text t @ CHR '')'' # rest) = Some (t, rest)"
  by (rule read_escaped)

text \<open>
  Wrapping keeps the words of a text in their order and loses none, and every line fits the
  width unless it is a single word longer than it.
\<close>
theorem wrapping_keeps_words:
  "concat (map py_split (wrap t n)) = py_split t \<and> (\<forall>line \<in> set (wrap t n). length line \<le> n \<or> is_one_word line)"
proof -
  have w: "list_all is_one_word (py_split t)" by (simp add: list_all_iff split_words)
  show ?thesis using wrap_loop_words [OF w, of "[]" "[]" n] wrap_loop_fits [OF _ w, of "[]" n] by (simp add: wrap_def)
qed



text \<open>
  The objects of the sample file are numbered 1 to 12 in the order the cross-reference table
  lists them, which is what the references between them rely on.
\<close>
theorem sample_objects_are_numbered:
  "map hd pdf_objects = map obj_head [1..<13]"
  by (simp add: pdf_objects_def page_object_def font_object_def cmap_object_def content_stream_object_def stream_object_def upt_rec eval_nat_numeral)

end
