(* ===== verification/Licenses.thy ===== *)
theory Licenses
  imports Wording Egress "HOL-Library.Char_ord" "HOL-Library.List_Lexorder" "HOL-Library.Multiset"
begin

text \<open>
  \<open>scripts/generate_licenses.py\<close>: the license of an installed distribution, its row of the
  inventory and the division of the inventory by role. The distributions and the dependencies of
  \<open>pyproject.toml\<close> are arguments. The ellipsis of \<open>_truncate\<close> and the dash of the prose are the
  characters 0x85 and 0x97, their places in the Windows code page.
\<close>

section \<open>Names\<close>

definition normalize_name :: "string \<Rightarrow> string" where
  "normalize_name name = py_casefold (replace_char CHR ''-'' [] (replace_char CHR ''_'' [] name))"

definition is_name_char :: "char \<Rightarrow> bool" where
  "is_name_char c \<longleftrightarrow> is_upper_az c \<or> is_lower_az c \<or> is_digit c \<or> c \<in> set ''._-''"

definition declared_name :: "string \<Rightarrow> string option" where
  \<comment> \<open>the leading name of a dependency specifier\<close>
  "declared_name entry = (let name = takeWhile is_name_char (py_strip entry) in if name = [] then None else Some (normalize_name name))"

definition declared_names :: "string list \<Rightarrow> string set" where
  "declared_names entries = set (List.map_filter declared_name entries)"

section \<open>Licenses\<close>

record dist =
  d_name :: "string option"
  d_version :: "string option"
  d_expression :: "string option"
  d_license :: "string option"
  d_classifiers :: "string list option"

definition max_license_len :: nat where "max_license_len = 80"

definition truncate_license :: "string \<Rightarrow> string" where
  "truncate_license value =
     (let compact = join '' '' (py_split value)
      in if length compact \<le> max_license_len then compact
         else py_rstrip (take max_license_len compact) @ '' '' @ CHR 0x85 # '' (truncated)'')"

definition upper_ascii :: "string \<Rightarrow> string" where
  \<comment> \<open>\<open>s.upper()\<close>, as far as a comparison with ASCII capitals sees it\<close>
  "upper_ascii s = map (\<lambda>c. if is_lower_az c then char_of (cp c - 32) else c) s"

fun after_last_colons :: "string \<Rightarrow> string option" where
  \<comment> \<open>what follows the last \<open>::\<close>\<close>
  "after_last_colons [] = None"
| "after_last_colons (c # cs) = (case after_last_colons cs of
     Some r \<Rightarrow> Some r | None \<Rightarrow> if startswith ''::'' (c # cs) then Some (drop 1 cs) else None)"

definition last_part :: "string \<Rightarrow> string" where
  \<comment> \<open>\<open>s.rsplit("::", 1)[-1].strip()\<close>\<close>
  "last_part s = py_strip (case after_last_colons s of Some r \<Rightarrow> r | None \<Rightarrow> s)"

definition or_empty :: "string option \<Rightarrow> string" where
  "or_empty x = (case x of Some s \<Rightarrow> s | None \<Rightarrow> [])"

definition dist_license :: "dist \<Rightarrow> string" where
  "dist_license d =
     (let license_field = py_strip (or_empty (d_license d));
          classifiers = (case d_classifiers d of Some cs \<Rightarrow> cs | None \<Rightarrow> [])
      in if or_empty (d_expression d) \<noteq> [] then truncate_license (or_empty (d_expression d))
         else if license_field \<noteq> [] \<and> upper_ascii license_field \<noteq> ''UNKNOWN'' then truncate_license license_field
         else case find (startswith ''License :: OSI Approved ::'') classifiers of
             Some c \<Rightarrow> truncate_license (last_part c)
           | None \<Rightarrow> (case find (startswith ''License ::'') classifiers of
               Some c \<Rightarrow> truncate_license (last_part c)
             | None \<Rightarrow> ''UNKNOWN''))"

section \<open>The inventory\<close>

record inventory_row =
  iv_name :: string
  iv_version :: string
  iv_license :: string
  iv_role :: string

definition table_cell :: "string \<Rightarrow> string" where
  "table_cell license = replace_char nl '' '' (replace_char CHR ''|'' [CHR 0x5C, CHR ''|''] license)"

definition table_line :: "inventory_row \<Rightarrow> string" where
  "table_line r = ''| '' @ iv_name r @ '' | '' @ iv_version r @ '' | '' @ table_cell (iv_license r) @ '' | '' @ iv_role r @ '' |''"

definition render_table :: "inventory_row list \<Rightarrow> string" where
  "render_table rows = join [nl] ([''| Name | Version | License | Role |'', ''|---|---|---|---|''] @ map table_line rows)"

definition or_unknown :: "string option \<Rightarrow> string" where
  "or_unknown x = (if or_empty x = [] then ''?'' else or_empty x)"

definition sorted_dists :: "dist list \<Rightarrow> dist list" where
  "sorted_dists ds = sort_key (\<lambda>d. py_casefold (or_empty (d_name d))) ds"

definition role_of :: "string set \<Rightarrow> string set \<Rightarrow> dist \<Rightarrow> string" where
  "role_of runtime_declared dev_declared d =
     (let key = normalize_name (or_unknown (d_name d))
      in if key \<in> runtime_declared then ''runtime'' else if key \<in> dev_declared then ''dev'' else ''transitive'')"

definition inventory_row_of :: "string set \<Rightarrow> string set \<Rightarrow> dist \<Rightarrow> inventory_row" where
  "inventory_row_of runtime_declared dev_declared d = \<lparr>iv_name = or_unknown (d_name d), iv_version = or_unknown (d_version d),
     iv_license = dist_license d, iv_role = role_of runtime_declared dev_declared d\<rparr>"

fun sort_rows :: "string set \<Rightarrow> string set \<Rightarrow> dist list \<Rightarrow> inventory_row list \<times> inventory_row list \<times> inventory_row list" where
  \<comment> \<open>the loop of \<open>main\<close>: runtime, dev and transitive rows\<close>
  "sort_rows rt dv [] = ([], [], [])"
| "sort_rows rt dv (d # ds) =
     (case sort_rows rt dv ds of (runtime_rows, dev_rows, transitive_rows) \<Rightarrow>
        let key = normalize_name (or_unknown (d_name d)); row = inventory_row_of rt dv d
        in if key = normalize_name ''ecrke'' then (runtime_rows, dev_rows, transitive_rows)
           else if key \<in> rt then (row # runtime_rows, dev_rows, transitive_rows)
           else if key \<in> dv then (runtime_rows, row # dev_rows, transitive_rows)
           else (runtime_rows, dev_rows, row # transitive_rows))"

definition inventory :: "string list \<Rightarrow> string list \<Rightarrow> dist list \<Rightarrow> inventory_row list \<times> inventory_row list \<times> inventory_row list" where
  "inventory dependencies dev_dependencies dists =
     sort_rows (declared_names dependencies) (declared_names dev_dependencies) (sorted_dists dists)"

definition missing_names :: "string list \<Rightarrow> string list \<Rightarrow> dist list \<Rightarrow> string list" where
  \<comment> \<open>declared but not installed\<close>
  "missing_names dependencies dev_dependencies dists =
     sorted_list_of_set (normalize_name ` {name \<in> declared_names dependencies \<union> declared_names dev_dependencies.
       name \<notin> set (map (\<lambda>d. normalize_name (or_empty (d_name d))) dists)})"

section \<open>The document\<close>

definition DOC_HEADER :: string where
  "DOC_HEADER = join [nl] [
     ''# ECRKE '' @ [CHR 0x97] @ '' Model & Library Inventory with Licenses'',
     [],
     ''| Field | Value |'',
     ''|---|---|'',
     ''| **Document** | Submission-pack artifact 5 (build-plan '' @ [CHR 0xA7] @
       ''2): model & library inventory with licenses |'',
     ''| **Generated by** | '' @ [CHR 0x60] @ ''scripts/generate_licenses.py'' @ [CHR 0x60] @ '' (stdlib '' @ [CHR 0x60] @
       ''importlib.metadata'' @ [CHR 0x60] @ '' '' @ [CHR 0x97] @ '' no new dependencies) |'',
     ''| **Scope** | Python runtime deps, dev deps, full installed inventory, LLM provider terms, '' @
       ''UI/fonts, sample data |'',
     ''| **Reproduce** | '' @ [CHR 0x60] @ ''.venv'' @ [CHR 0x5C] @ ''Scripts'' @ [CHR 0x5C] @ ''python.exe scripts'' @
       [CHR 0x5C] @ ''generate_licenses.py'' @ [CHR 0x60] @ '' (exit 0) |'',
     [],
     ''---'',
     [],
     ''## 1. Method'',
     [],
     ''The inventory below is generated from the **actual installed distributions** in'',
     ''this environment ('' @ [CHR 0x60] @ ''importlib.metadata.distributions()'' @ [CHR 0x60] @ ''), classified against the'',
     ''dependencies declared in '' @ [CHR 0x60] @ ''pyproject.toml'' @ [CHR 0x60] @ '':'',
     [],
     ''| Role | Meaning |'',
     ''|---|---|'',
     ''| **runtime** | Declared in '' @ [CHR 0x60] @ ''[project].dependencies'' @ [CHR 0x60] @ '' '' @ [CHR 0x97] @
       '' required to run the application |'',
     ''| **dev** | Declared in '' @ [CHR 0x60] @ ''[project.optional-dependencies].dev'' @ [CHR 0x60] @ '' '' @ [CHR 0x97] @
       '' required to develop/test |'',
     ''| **transitive** | Installed as a dependency of a runtime/dev package (not declared directly) '' @ ''|'',
     ''| **project** | The ECRKE package itself ('' @ [CHR 0x60] @ ''ecrke'' @ [CHR 0x60] @ '', editable install) |'',
     [],
     ''License metadata is read from each distribution'' @ [CHR 0x27] @ ''s metadata in this order:'',
     [CHR 0x60] @ ''License-Expression'' @ [CHR 0x60] @ '' (PEP 639), the '' @ [CHR 0x60] @ ''License'' @ [CHR 0x60] @
       '' field, then '' @ [CHR 0x60] @ ''License :: OSI Approved ::'',
     ''...'' @ [CHR 0x60] @ '' classifiers; otherwise the cell reads '' @ [CHR 0x60] @ ''UNKNOWN'' @ [CHR 0x60] @
       '' and must be verified from'',
     ''the package'' @ [CHR 0x27] @ ''s own metadata. Long license texts are truncated to 80 characters in'',
     ''the table (full text lives in each package'' @ [CHR 0x27] @ ''s metadata). The table format mirrors'',
     [CHR 0x60] @ ''pip-licenses'' @ [CHR 0x60] @ '' (Name | Version | License) with a '' @ [CHR 0x60] @ ''Role'' @
       [CHR 0x60] @ '' column appended.'',
     []]"

definition DOC_PROVIDER_TERMS :: string where
  "DOC_PROVIDER_TERMS = join [nl] [
     ''## 5. LLM Provider Terms (service terms, not software licenses)'',
     [],
     ''ECRKE calls hosted LLM APIs through the LiteLLM gateway ('' @ [CHR 0x60] @ ''app/services/llm_gateway.py'' @
       [CHR 0x60] @ '').'',
     ''The model **software licenses** of the underlying frameworks are listed above; the'',
     ''**API terms** that govern usage of hosted models are the providers'' @ [CHR 0x27] @ '' then-current'',
     ''service terms, summarized one line each (per design/tech-stack docs '' @ [CHR 0x97] @ '' exact terms'',
     ''live on the provider sites; keys are referenced by env-var NAME only, Rule 01):'',
     [],
     ''| Provider | API terms (one-line summary) |'',
     ''|---|---|'',
     ''| **OpenAI** (default through '' @ [CHR 0x60] @ ''OPENAI_API_KEY'' @ [CHR 0x60] @
       '' via LiteLLM) | Hosted API service; customer retains rights to outputs, subject to OpenAI'' @ [CHR 0x27] @
       ''s then-current API/service terms; no training on your API data by default per OpenAI'' @ [CHR 0x27] @
       ''s enterprise terms. |'',
     ''| **Anthropic** ('' @ [CHR 0x60] @ ''ANTHROPIC_API_KEY'' @ [CHR 0x60] @
       '' via LiteLLM) | Hosted API service; customer owns outputs, subject to Anthropic'' @ [CHR 0x27] @
       ''s then-current Commercial Terms; input/output not used to train models per default commercial '' @ ''terms. |'',
     ''| **Google** '' @ [CHR 0x97] @ '' Gemini ('' @ [CHR 0x60] @ ''GEMINI_API_KEY'' @ [CHR 0x60] @
       '' via LiteLLM) | Hosted API service via Google AI Studio / Vertex AI; subject to Google'' @ [CHR 0x27] @
       ''s then-current Generative AI API terms; usage governed by Google Cloud or AI Studio terms '' @
       ''depending on endpoint. |'',
     ''| **Local / Ollama** (optional '' @ [CHR 0x60] @ ''local'' @ [CHR 0x60] @
       '' extra) | Self-hosted open-weight models; governed by each model'' @ [CHR 0x27] @
       ''s license (e.g. Gemma, Llama community licenses) '' @ [CHR 0x97] @ '' no external API terms. |'',
     [],
     ''ECRKE is **provider-agnostic** (LiteLLM): adding or swapping a provider is'',
     ''configuration, not code. No provider key value is ever stored in the repository'',
     ''(see '' @ [CHR 0x60] @ ''.env.example'' @ [CHR 0x60] @ '' for the variable NAMES).'',
     []]"

definition DOC_UI_FONTS :: string where
  "DOC_UI_FONTS = join [nl] [
     ''## 6. UI / Icons / Fonts'',
     [],
     ''| Asset | License note |'',
     ''|---|---|'',
     ''| **Grafana dashboard** ('' @ [CHR 0x60] @ ''grafana/dashboard.json'' @ [CHR 0x60] @
       '') | Grafana is an Apache-2.0-licensed project; the dashboard **JSON is our own data file** '' @ ''(ECRKE'' @
       [CHR 0x27] @ ''s panels/queries), not Grafana'' @ [CHR 0x27] @
       ''s code. No bundled icons or fonts ship in this repository. |'',
     ''| **Prometheus config** ('' @ [CHR 0x60] @ ''prometheus/prometheus.yml'' @ [CHR 0x60] @
       '') | Prometheus is Apache-2.0-licensed; the YAML is our own configuration data file. |'',
     ''| **Docker images** ('' @ [CHR 0x60] @ ''Dockerfile'' @ [CHR 0x60] @ '', '' @ [CHR 0x60] @ ''docker-compose.yml'' @
       [CHR 0x60] @ '') | Base images (postgres, prefect, prometheus, grafana) are referenced by tag from their '' @
       ''upstream registries and governed by each project'' @ [CHR 0x27] @
       ''s license (PostgreSQL License / Apache-2.0 / MIT as applicable). No third-party icons or '' @ ''fonts are bundled. |'',
     []]"

definition DOC_SAMPLE_DATA :: "string \<Rightarrow> string \<Rightarrow> string" where
  \<comment> \<open>with its two fields filled in\<close>
  "DOC_SAMPLE_DATA ts python = join [nl] [
     ''## 7. Sample Data'',
     [],
     ''All files in '' @ [CHR 0x60] @ ''sample_data/'' @ [CHR 0x60] @ '' (RSS feed, HTML/TXT report, generated PDF, passages,'',
     [CHR 0x60] @ ''seeds.jsonl'' @ [CHR 0x60] @ '') are **synthetic** '' @ [CHR 0x97] @ '' generated by '' @ [CHR 0x60] @
       ''scripts/generate_sample_data.py'' @ [CHR 0x60],
     ''and the eval harness. They contain no copyrighted content, no real personal data,'',
     ''and no proprietary text; they exist solely to demonstrate the pipeline and to'',
     ''seed the gold eval set.'',
     [],
     ''---'',
     [],
     ''*Inventory generated by '' @ [CHR 0x60] @ ''scripts/generate_licenses.py'' @ [CHR 0x60] @ '' at ''] @ ts @ join [nl] [
     ''.*'',
     ''*Python: ''] @ python @ join [nl] [
     ''.*'',
     ''*Exit status of generator: 0 (this document exists because it ran).*'',
     []]"

definition document_parts :: "inventory_row list \<times> inventory_row list \<times> inventory_row list \<Rightarrow> string list \<Rightarrow> string \<Rightarrow> string \<Rightarrow> string list" where
  "document_parts tables missing ts python = (case tables of (runtime_rows, dev_rows, transitive_rows) \<Rightarrow>
     [DOC_HEADER,
      ''## 2. Python Runtime Dependencies (installed)'' @ [nl],
      render_table runtime_rows,
      nl # ''## 3. Python Dev Dependencies (installed)'' @ [nl],
      render_table dev_rows,
      nl # ''## 4. Full Installed Inventory (incl. transitive)'' @ [nl],
      render_table transitive_rows,
      [],
      DOC_PROVIDER_TERMS,
      DOC_UI_FONTS,
      DOC_SAMPLE_DATA ts python] @
     (if missing \<noteq> []
      then [nl # ''> **Declared but not installed in this environment:** '' @ join '', '' (sort missing) @ [nl]]
      else []))"

definition license_document :: "string list \<Rightarrow> string list \<Rightarrow> dist list \<Rightarrow> string \<Rightarrow> string \<Rightarrow> string" where
  \<comment> \<open>the text \<open>main\<close> writes, for the time and the interpreter's version\<close>
  "license_document dependencies dev_dependencies dists ts python =
     join [nl] (document_parts (inventory dependencies dev_dependencies dists)
       (missing_names dependencies dev_dependencies dists) ts python)"

section \<open>Lines and cells\<close>

lemma split_join_lines:
  assumes "ls \<noteq> []" and "\<forall>l \<in> set ls. nl \<notin> set l"
  shows "split_char nl (join [nl] ls) = ls"
proof -
  have one: "split_char nl l = [l]" if "nl \<notin> set l" for l
    using that by (induction l) auto
  have more: "split_char nl (l @ nl # t) = l # split_char nl t" if "nl \<notin> set l" for l t
    using that by (induction l) auto
  show ?thesis using assms
  proof (induction ls)
    case (Cons l ls)
    then show ?case using one more by (cases ls) auto
  qed simp
qed

fun pipes_escaped :: "char option \<Rightarrow> string \<Rightarrow> bool" where
  \<comment> \<open>every bar follows a backslash\<close>
  "pipes_escaped prev [] = True"
| "pipes_escaped prev (c # cs) = ((c = CHR ''|'' \<longrightarrow> prev = Some CHR 0x5C) \<and> pipes_escaped (Some c) cs)"

lemma cell_escaped: "pipes_escaped p (table_cell s) \<and> nl \<notin> set (table_cell s)"
proof (induction s arbitrary: p)
  case (Cons c s)
  then show ?case by (auto simp: table_cell_def replace_char_def nl_def)
qed (simp add: table_cell_def replace_char_def)

lemma rstrip_shorter: "length (py_rstrip s) \<le> length s"
  using length_dropWhile_le [of is_space "rev s"] by (simp add: py_rstrip_def)

lemma truncated_short: "length (truncate_license v) \<le> max_license_len + 14"
proof -
  have "length (py_rstrip (take max_license_len c)) \<le> max_license_len" for c
    using rstrip_shorter [of "take max_license_len c"] by simp
  then show ?thesis by (auto simp: truncate_license_def Let_def intro: le_trans)
qed

lemma sort_rows_parts:
  "case sort_rows rt dv ds of (a, b, c) \<Rightarrow>
     mset a + mset b + mset c = mset (map (inventory_row_of rt dv) (filter (\<lambda>d. normalize_name (or_unknown (d_name d)) \<noteq> normalize_name ''ecrke'') ds)) \<and>
     (\<forall>r \<in> set a. iv_role r = ''runtime'') \<and> (\<forall>r \<in> set b. iv_role r = ''dev'') \<and> (\<forall>r \<in> set c. iv_role r = ''transitive'')"
  by (induction ds) (auto simp: Let_def inventory_row_of_def role_of_def split: prod.split)

section \<open>Properties\<close>

text \<open>
  The three tables divide the installed distributions: together they have one row for each
  distribution other than the project itself and no other, and each table has only rows of its role,
  which is runtime for a declared dependency, dev for a declared development dependency that is
  not also a runtime one, and transitive otherwise.
\<close>
theorem inventory_is_divided_by_role:
  "case inventory deps dev dists of (runtime_rows, dev_rows, transitive_rows) \<Rightarrow>
     mset (runtime_rows @ dev_rows @ transitive_rows) =
       mset (map (inventory_row_of (declared_names deps) (declared_names dev))
         (filter (\<lambda>d. normalize_name (or_unknown (d_name d)) \<noteq> normalize_name ''ecrke'') dists)) \<and>
     (\<forall>r. (r \<in> set runtime_rows \<longrightarrow> iv_role r = ''runtime'') \<and> (r \<in> set dev_rows \<longrightarrow> iv_role r = ''dev'') \<and>
       (r \<in> set transitive_rows \<longrightarrow> iv_role r = ''transitive''))"
  using sort_rows_parts [of "declared_names deps" "declared_names dev" "sorted_dists dists"]
  by (auto simp: inventory_def sorted_dists_def add.assoc split: prod.splits)

text \<open>
  A table stays a table: when no name and version has a line break, the lines of the rendered
  table are the two header lines and one line per row, whatever the licenses contain; in a license
  cell every bar is escaped; and no license is longer than 94 characters.
\<close>
theorem table_has_one_line_per_row:
  assumes "\<forall>r \<in> set rows. nl \<notin> set (iv_name r) \<and> nl \<notin> set (iv_version r) \<and> nl \<notin> set (iv_role r)"
  shows "split_char nl (render_table rows) = [''| Name | Version | License | Role |'', ''|---|---|---|---|''] @ map table_line rows \<and>
    (\<forall>s. pipes_escaped None (table_cell s)) \<and> (\<forall>d. length (dist_license d) \<le> 94)"
proof -
  have "nl \<notin> set (table_line r)" if "r \<in> set rows" for r
    using assms that cell_escaped [of None "iv_license r"] by (auto simp: table_line_def nl_def)
  then have "split_char nl (render_table rows) = [''| Name | Version | License | Role |'', ''|---|---|---|---|''] @ map table_line rows"
    unfolding render_table_def by (intro split_join_lines) (auto simp: nl_def)
  moreover have "length (dist_license d) \<le> 94" for d
    using truncated_short by (auto simp: dist_license_def Let_def max_license_len_def split: option.split)
  ultimately show ?thesis using cell_escaped by blast
qed

definition demo_row :: inventory_row where
  "demo_row = \<lparr>iv_name = ''a'', iv_version = ''1'', iv_license = ''MIT|X'' @ [nl], iv_role = ''dev''\<rparr>"

theorem table_has_one_line_per_row_witness:
  "length (split_char nl (render_table [demo_row])) = 3"
  using table_has_one_line_per_row [of "[demo_row]"] by (simp add: demo_row_def nl_def)

section \<open>Every distribution is listed\<close>

lemma split_join_parts: "ps \<noteq> [] \<Longrightarrow> split_char nl (join [nl] ps) = concat (map (split_char nl) ps)"
proof (induction ps)
  case (Cons p ps)
  then show ?case by (cases ps) (simp_all add: split_char_append)
qed simp

lemma part_line: "p \<in> set ps \<Longrightarrow> l \<in> set (split_char nl p) \<Longrightarrow> l \<in> set (split_char nl (join [nl] ps))"
  by (subst split_join_parts) auto

lemma table_line_listed:
  assumes "r \<in> set rows" and "\<forall>r \<in> set rows. nl \<notin> set (iv_name r) \<and> nl \<notin> set (iv_version r) \<and> nl \<notin> set (iv_role r)"
  shows "table_line r \<in> set (split_char nl (render_table rows))"
proof -
  have "nl \<notin> set (table_line r)" if "r \<in> set rows" for r
    using assms(2) that cell_escaped [of None "iv_license r"] by (auto simp: table_line_def nl_def)
  then have "split_char nl (render_table rows) = [''| Name | Version | License | Role |'', ''|---|---|---|---|''] @ map table_line rows"
    unfolding render_table_def by (intro split_join_lines) (auto simp: nl_def)
  with assms(1) show ?thesis by simp
qed

lemma role_plain: "nl \<notin> set (role_of rt dv d)"
  by (simp add: role_of_def Let_def nl_def)

lemma inventory_rows:
  assumes "inventory deps dev dists = (a, b, c)"
  shows "set a \<union> set b \<union> set c = inventory_row_of (declared_names deps) (declared_names dev) `
    {d \<in> set dists. normalize_name (or_unknown (d_name d)) \<noteq> normalize_name ''ecrke''}"
proof -
  let ?f = "inventory_row_of (declared_names deps) (declared_names dev)"
  let ?P = "\<lambda>d. normalize_name (or_unknown (d_name d)) \<noteq> normalize_name ''ecrke''"
  have "mset a + mset b + mset c = mset (map ?f (filter ?P (sorted_dists dists)))"
    using sort_rows_parts [of "declared_names deps" "declared_names dev" "sorted_dists dists"] assms by (simp add: inventory_def)
  then have "set a \<union> set b \<union> set c = set (map ?f (filter ?P (sorted_dists dists)))"
    by (metis set_mset_mset set_mset_union)
  then show ?thesis by (simp add: sorted_dists_def image_def)
qed

text \<open>
  The document lists every installed distribution other than the project itself: it has a line with the
  distribution's name, version, license and role, whatever the licenses contain.
\<close>
theorem every_distribution_is_listed:
  assumes "d \<in> set dists" and "normalize_name (or_unknown (d_name d)) \<noteq> normalize_name ''ecrke''"
    and "\<forall>x \<in> set dists. nl \<notin> set (or_unknown (d_name x)) \<and> nl \<notin> set (or_unknown (d_version x))"
  shows "table_line (inventory_row_of (declared_names deps) (declared_names dev) d) \<in>
    set (split_char nl (license_document deps dev dists ts python))"
proof -
  let ?r = "inventory_row_of (declared_names deps) (declared_names dev) d"
  obtain a b c where inv: "inventory deps dev dists = (a, b, c)" by (cases "inventory deps dev dists")
  have one_line: "nl \<notin> set (iv_name r) \<and> nl \<notin> set (iv_version r) \<and> nl \<notin> set (iv_role r)" if "r \<in> set a \<union> set b \<union> set c" for r
    using that assms(3) unfolding inventory_rows [OF inv] by (auto simp: inventory_row_of_def role_plain)
  have "?r \<in> set a \<union> set b \<union> set c" unfolding inventory_rows [OF inv] using assms(1,2) by blast
  then obtain rows where rows: "rows \<in> {a, b, c}" "?r \<in> set rows" by blast
  then have "table_line ?r \<in> set (split_char nl (render_table rows))"
    by (intro table_line_listed) (use one_line in auto)
  moreover have "render_table rows \<in> set (document_parts (inventory deps dev dists) (missing_names deps dev dists) ts python)"
    using rows(1) by (auto simp: document_parts_def inv)
  ultimately show ?thesis unfolding license_document_def by (rule part_line [rotated])
qed

definition demo_dist :: dist where
  "demo_dist = \<lparr>d_name = Some ''a'', d_version = Some ''1'', d_expression = Some ''MIT'', d_license = None, d_classifiers = None\<rparr>"

theorem every_distribution_is_listed_witness:
  "\<exists>l \<in> set (split_char nl (license_document [''a>=1''] [] [demo_dist] ''t'' ''3'')). l = table_line (inventory_row_of (declared_names [''a>=1'']) (declared_names []) demo_dist)"
proof -
  have "normalize_name (or_unknown (d_name demo_dist)) \<noteq> normalize_name ''ecrke''" by code_simp
  moreover have "\<forall>x \<in> set [demo_dist]. nl \<notin> set (or_unknown (d_name x)) \<and> nl \<notin> set (or_unknown (d_version x))" by code_simp
  ultimately show ?thesis
    using every_distribution_is_listed [of demo_dist "[demo_dist]" "[''a>=1'']" "[]" "''t''" "''3''"] by simp
qed

end
