(* ===== verification/Spec2Isabelle.thy ===== *)
theory Spec2Isabelle
  imports Instructions ObjectStore Wiring Conformance SamplePdf Licenses
begin

text \<open>
  A verification library for the evidence-centric research knowledge engine: a service that takes a
  research question through ten stages (define, search, collect, store, extract, verify, find, detect,
  conclude, trace) to a report whose conclusions cite verified statements, with an append-only audit
  trail, a budget, and an HTTP interface per tenant. The paths below are under \<open>src/\<close>.

  \<^bold>\<open>The program and its model.\<close> A running process works on a \<open>world\<close> (theory
  \<open>World\<close>): the relational database, the blob store, the clock, the log of provider calls, the
  requested URIs and the emitted events. Every asynchronous function of the program that touches them is
  a \<open>prog\<close>, a function from a world to a result (a value or an exception of the datatype
  \<open>exn\<close>) and the world it leaves; pure functions are functions. A database session is the list of
  changes it has collected and \<open>commit\<close> applies them all or raises, checking the constraints the
  schema declares. The database is the record \<open>db\<close> of lists of rows in insertion order.

  \<^bold>\<open>The theories,\<close> from the bottom:
  \<^item> \<open>Prelude\<close>, \<open>Pystr\<close>, \<open>Regex\<close>, \<open>Json\<close>, \<open>Errors\<close>,
    \<open>Wording\<close>: results, Python's string operations, the five shapes of regular expressions the
    redactor uses, JSON values, exceptions, whitespace splitting.
  \<^item> \<open>Redact\<close>, \<open>Chunking\<close>, \<open>Normalizer\<close>
    (\<open>app/services/normalizer.py\<close>, \<open>content_filter.py\<close>): secrets, passages, formats.
  \<^item> \<open>Overlap\<close> (\<open>support_matrix.py\<close>, the token measures of
    \<open>contradiction_detector.py\<close>), \<open>Egress\<close> (\<open>allowlist.py\<close>),
    \<open>Settings\<close> (\<open>app/core/config.py\<close>), \<open>Breaker\<close>
    (\<open>app/pipeline/circuit_breaker.py\<close>).
  \<^item> \<open>Tables\<close> (\<open>app/db/models.py\<close>, \<open>enums.py\<close>, \<open>base.py\<close>),
    \<open>World\<close>, \<open>Cache\<close> (\<open>kv_cache.py\<close>, \<open>checkpoint.py\<close>),
    \<open>Gateway\<close> (\<open>llm_gateway.py\<close>, \<open>cost_meter.py\<close>), \<open>Trail\<close>
    (\<open>audit_writer.py\<close>).
  \<^item> \<open>Planner\<close> (\<open>planner.py\<close>, \<open>extractor.py\<close> and their schemas),
    \<open>Verifier\<close>, \<open>Detector\<close>, \<open>Report\<close> (\<open>report_generator.py\<close>,
    \<open>report_renderer.py\<close>), \<open>Fetching\<close> (\<open>fetcher.py\<close>, the local store of
    \<open>blob_store.py\<close>, \<open>collectors\<close>), \<open>ObjectStore\<close> (its S3 store): one service each, its operation as a whole.
  \<^item> \<open>Stages\<close> (\<open>app/pipeline/stages\<close>, \<open>context.py\<close>, \<open>factory.py\<close>),
    \<open>Outside\<close>, \<open>Flow\<close> (\<open>flows.py\<close>, \<open>events.py\<close>), \<open>Execution\<close>,
    \<open>Instructions\<close>: the pipeline, what an execution does to the database, to the outside and to the
    bill, and what it tells the provider.
  \<^item> \<open>Runner\<close> (\<open>app/api/deps.py\<close>), \<open>Responses\<close> (\<open>schemas.py\<close>),
    \<open>Api\<close> (\<open>routes.py\<close>, \<open>tenant.py\<close>, \<open>app/main.py\<close>),
    \<open>Observability\<close> (\<open>app/core/metrics.py\<close>, \<open>logging.py\<close>), \<open>Deployment\<close>
    (\<open>app/db/seed.py\<close>, \<open>session.py\<close>, \<open>app/workers/worker.py\<close>,
    \<open>scripts/register_deployment.py\<close>), \<open>Wiring\<close> (\<open>app/main.py\<close>,
    \<open>health.py\<close>, \<open>telemetry.py\<close>, provider keys, session scope, \<open>alembic/env.py\<close>).
  \<^item> \<open>Catalog\<close> and \<open>Schema\<close>: an interpreter of the data definition statements the
    migrations use, the three revisions of \<open>alembic/versions\<close> and the declarative models;
    \<open>Conformance\<close>: the database of the programs against that schema.
  \<^item> \<open>SamplePdf\<close>, \<open>Licenses\<close>: \<open>scripts/generate_sample_data.py\<close> and
    \<open>scripts/generate_licenses.py\<close>.

  \<^bold>\<open>Interfaces.\<close> \<open>db_preorder\<close> and \<open>db_relation\<close> (what a relation between
  databases must allow so that every program respects it) are interpreted for the growth of the logs, of
  the keys, for constraint preservation and for everything but costs; \<open>outside_preorder\<close>,
  \<open>outside_relation\<close> and \<open>flow_relation\<close> do the same for blobs, network requests and
  events. \<open>keyed_store\<close> (cache entries, checkpoints), \<open>write_once\<close> (blobs, the process environment) and
  \<open>append_log\<close> (links, audit rows, keys) are the contracts of the stores, \<open>overlap\<close> and
  \<open>redactor\<close> those of the token measures and the redaction functions; all are interpreted on the
  model's own operations.

  \<^bold>\<open>What the lemmas show.\<close> Redaction removes every secret and creates none. A
  transaction keeps evidence links and audit rows. A statement is verified only past the lexical gate and
  the judge, and a conclusion cites only verified statements. An execution follows the state machine
  \<open>flow_step\<close>, completes only with all checkpoints, records its failure, and reaches the provider
  a bounded number of times, with redacted texts in fixed templates only. Requests are confined to their tenant and answers hold no secret. The
  migrations build the declared schema and can be undone, and the constraints a transaction checks are the
  declared ones.

  \<^bold>\<open>Bounds and fuel.\<close> Loops are structural recursions over the lists the code iterates,
  but for splitting an oversized paragraph, a partial function whose termination is characterised
  (\<open>chunking_terminates\<close>), and cascading deletion in \<open>Catalog\<close>, whose fuel is one more than
  the number of tables: references are acyclic, so a cascade passes each table once. A completion makes
  three attempts of at most four calls; the caps of the stages then give 684 calls per execution.
  Money and ratios are rational numbers, rounded where the code rounds; timestamps are integers in
  microseconds. Characters are those of type \<open>char\<close>, so text beyond Latin-1 is outside the model.

  \<^bold>\<open>Parameters.\<close> What is not under \<open>src/\<close> is an argument: the record \<open>env\<close>
  (the provider and its prices, HTTP, the file system, JSON text, hashes, codecs, format parsers, the
  search library), Pydantic's coercions, the Prefect client and server, the S3 client. The
  services take their system texts from a record \<open>instructions\<close>, as no property depends on their
  wording; \<open>source_instructions\<close> is the program's.

  \<^bold>\<open>Not modelled.\<close> Spans, log lines inside services and Prefect's own bookkeeping, which
  have no effect on results; routing, static files and the Prometheus text exposition, which are the
  framework's; the interleaving of concurrent requests and runs (a program runs to its end); the removal
  of \<open>sslmode\<close> from a query string; the diagnostic scripts, which print raw SQL results; dashboards.
\<close>

end
